(* ===== verification/Prelude.thy ===== *)
theory Prelude
  imports
    Main
    "HOL-Library.Word"
    "HOL-Library.AList"
    "HOL-Library.List_Lexorder"
    "HOL-Library.Char_ord"
begin

text \<open>
  Shared vocabulary of the development: the Rust integer types as machine words with their
  \<open>checked_*\<close> operations, the result type in which a \<open>panic!\<close>, a failed \<open>expect\<close> or a failed
  \<open>unwrap\<close> is a value of its own, big-endian byte encodings, and ordered association lists for
  \<open>BTreeMap\<close>. Unordered \<open>HashMap\<close>s are association lists as well (\<open>AList.update\<close>,
  \<open>AList.delete\<close>, \<open>map_of\<close>); the order of such a list stands for the unspecified iteration order
  of the hash map. The collections \<open>rust_simps\<close>, \<open>checked_iff\<close> and \<open>be_simps\<close> carry the component proofs.
\<close>

named_theorems rust_simps \<open>unfolding rules for the Rust standard-library operations\<close>
named_theorems checked_iff \<open>outcomes of checked operations on natural numbers\<close>
named_theorems be_simps \<open>facts on big-endian encodings\<close>

type_synonym u8 = "8 word"
type_synonym u16 = "16 word"
type_synonym u32 = "32 word"
type_synonym u64 = "64 word"
type_synonym u128 = "128 word"
type_synonym i128 = "128 word"

section \<open>Results and panics\<close>

datatype ('e, 'a) result = Ok 'a | Err 'e | Panic

primrec and_then :: "('e, 'a) result \<Rightarrow> ('a \<Rightarrow> ('e, 'b) result) \<Rightarrow> ('e, 'b) result" where
  "and_then (Ok x) f = f x"
| "and_then (Err e) f = Err e"
| "and_then Panic f = Panic"

primrec map_ok :: "('a \<Rightarrow> 'b) \<Rightarrow> ('e, 'a) result \<Rightarrow> ('e, 'b) result" where
  "map_ok f (Ok x) = Ok (f x)"
| "map_ok f (Err e) = Err e"
| "map_ok f Panic = Panic"

primrec map_err :: "('e \<Rightarrow> 'f) \<Rightarrow> ('e, 'a) result \<Rightarrow> ('f, 'a) result" where
  "map_err f (Ok x) = Ok x"
| "map_err f (Err e) = Err (f e)"
| "map_err f Panic = Panic"

text \<open>\<open>Result::expect\<close> and \<open>Result::unwrap\<close>: an error becomes a panic.\<close>

primrec expect :: "('e, 'a) result \<Rightarrow> ('f, 'a) result" where
  "expect (Ok x) = Ok x"
| "expect (Err e) = Panic"
| "expect Panic = Panic"

text \<open>\<open>Option::expect\<close> and \<open>Option::ok_or\<close>.\<close>

primrec expect_some :: "'a option \<Rightarrow> ('e, 'a) result" where
  "expect_some (Some x) = Ok x"
| "expect_some None = Panic"

primrec ok_or :: "'a option \<Rightarrow> 'e \<Rightarrow> ('e, 'a) result" where
  "ok_or (Some x) e = Ok x"
| "ok_or None e = Err e"

text \<open>\<open>assert!\<close>: a panic unless the condition holds.\<close>

definition rust_assert :: "bool \<Rightarrow> ('e, unit) result" where
  "rust_assert b = (if b then Ok () else Panic)"

primrec is_ok :: "('e, 'a) result \<Rightarrow> bool" where
  "is_ok (Ok x) = True"
| "is_ok (Err e) = False"
| "is_ok Panic = False"

lemma and_then_cong [fundef_cong]:
  "r = r' \<Longrightarrow> (\<And>x. r' = Ok x \<Longrightarrow> f x = g x) \<Longrightarrow> and_then r f = and_then r' g"
  by (cases r') auto

lemma and_then_eq_Ok [simp]:
  "and_then r f = Ok y \<longleftrightarrow> (\<exists>x. r = Ok x \<and> f x = Ok y)"
  by (cases r) auto

lemma and_then_eq_Panic:
  "and_then r f = Panic \<longleftrightarrow> r = Panic \<or> (\<exists>x. r = Ok x \<and> f x = Panic)"
  by (cases r) auto

lemma and_then_eq_Err:
  "and_then r f = Err e \<longleftrightarrow> r = Err e \<or> (\<exists>x. r = Ok x \<and> f x = Err e)"
  by (cases r) auto

lemma and_then_Ok [simp]: "and_then r Ok = r"
  by (cases r) auto

lemma and_then_assoc: "and_then (and_then r f) g = and_then r (\<lambda>x. and_then (f x) g)"
  by (cases r) auto

lemma map_ok_eq_Ok [simp]: "map_ok f r = Ok y \<longleftrightarrow> (\<exists>x. r = Ok x \<and> y = f x)"
  by (cases r) auto

lemma map_ok_eq_Panic [simp]: "map_ok f r = Panic \<longleftrightarrow> r = Panic"
  by (cases r) auto

lemma map_err_eq_Ok [simp]: "map_err f r = Ok y \<longleftrightarrow> r = Ok y"
  by (cases r) auto

lemma map_err_eq_Panic [simp]: "map_err f r = Panic \<longleftrightarrow> r = Panic"
  by (cases r) auto

lemma expect_eq_Ok [simp]: "expect r = Ok y \<longleftrightarrow> r = Ok y"
  by (cases r) auto

lemma expect_not_Err [simp]: "expect r \<noteq> Err e"
  by (cases r) auto

lemma expect_some_eq_Ok [simp]: "expect_some r = Ok y \<longleftrightarrow> r = Some y"
  by (cases r) auto

lemma expect_some_eq_Panic [simp]: "expect_some r = Panic \<longleftrightarrow> r = None"
  by (cases r) auto

lemma ok_or_eq_Ok [simp]: "ok_or r e = Ok y \<longleftrightarrow> r = Some y"
  by (cases r) auto

lemma ok_or_not_Panic [simp]: "ok_or r e \<noteq> Panic"
  by (cases r) auto

lemma rust_assert_eq_Ok [simp]: "rust_assert b = Ok u \<longleftrightarrow> b"
  by (simp add: rust_assert_def)

lemma rust_assert_simps [simp]: "rust_assert True = Ok ()" "rust_assert False = Panic"
  by (simp_all add: rust_assert_def)

lemma is_ok_iff: "is_ok r \<longleftrightarrow> (\<exists>x. r = Ok x)"
  by (cases r) auto

section \<open>Checked machine arithmetic\<close>

definition checked_add :: "'a::len word \<Rightarrow> 'a word \<Rightarrow> 'a word option" where
  "checked_add x y = (if unat x + unat y < 2 ^ LENGTH('a) then Some (x + y) else None)"

definition checked_sub :: "'a::len word \<Rightarrow> 'a word \<Rightarrow> 'a word option" where
  "checked_sub x y = (if y \<le> x then Some (x - y) else None)"

definition checked_mul :: "'a::len word \<Rightarrow> 'a word \<Rightarrow> 'a word option" where
  "checked_mul x y = (if unat x * unat y < 2 ^ LENGTH('a) then Some (x * y) else None)"

text \<open>\<open>uN::try_from(usize)\<close>: the value if it fits.\<close>

definition try_from_nat :: "nat \<Rightarrow> 'a::len word option" where
  "try_from_nat n = (if n < 2 ^ LENGTH('a) then Some (of_nat n) else None)"

lemma unat_lt [simp]: "unat (x :: 'a::len word) < 2 ^ LENGTH('a)"
  by (rule unsigned_less)

lemma unat_bounds:
  "unat (a :: u8) < 256" "unat (b :: u16) < 65536" "unat (c :: u32) < 4294967296"
  "unat (d :: u64) < 18446744073709551616"
  "unat (e :: u128) < 340282366920938463463374607431768211456"
  using unat_lt [of a] unat_lt [of b] unat_lt [of c] unat_lt [of d] unat_lt [of e] by simp_all

lemma checked_add_Some [checked_iff]:
  "checked_add (x :: 'a::len word) y = Some z \<longleftrightarrow> unat z = unat x + unat y"
proof
  assume "checked_add x y = Some z"
  then have "unat x + unat y < 2 ^ LENGTH('a)" and "z = x + y"
    by (auto simp: checked_add_def split: if_splits)
  then show "unat z = unat x + unat y" by (simp add: unat_word_ariths)
next
  assume eq: "unat z = unat x + unat y"
  with unat_lt [of z] have "unat x + unat y < 2 ^ LENGTH('a)" by simp
  moreover from this eq have "z = x + y"
    by (simp add: word_unat_eq_iff unat_word_ariths)
  ultimately show "checked_add x y = Some z" by (simp add: checked_add_def)
qed

lemma checked_add_None [checked_iff]:
  "checked_add (x :: 'a::len word) y = None \<longleftrightarrow> 2 ^ LENGTH('a) \<le> unat x + unat y"
  by (auto simp: checked_add_def)

lemma checked_sub_Some [checked_iff]:
  "checked_sub (x :: 'a::len word) y = Some z \<longleftrightarrow> y \<le> x \<and> z = x - y"
  by (auto simp: checked_sub_def)

lemma checked_sub_None [checked_iff]: "checked_sub x y = None \<longleftrightarrow> x < y"
  by (auto simp: checked_sub_def)

lemma unat_sub_le: "y \<le> x \<Longrightarrow> unat (x - y) = unat x - unat (y :: 'a::len word)"
  by (simp add: unat_sub)

lemma checked_mul_Some [checked_iff]:
  "checked_mul (x :: 'a::len word) y = Some z \<longleftrightarrow> unat z = unat x * unat y"
proof
  assume "checked_mul x y = Some z"
  then have "unat x * unat y < 2 ^ LENGTH('a)" and "z = x * y"
    by (auto simp: checked_mul_def split: if_splits)
  then show "unat z = unat x * unat y" by (simp add: unat_word_ariths)
next
  assume eq: "unat z = unat x * unat y"
  with unat_lt [of z] have "unat x * unat y < 2 ^ LENGTH('a)" by simp
  moreover from this eq have "z = x * y"
    by (simp add: word_unat_eq_iff unat_word_ariths)
  ultimately show "checked_mul x y = Some z" by (simp add: checked_mul_def)
qed

lemma checked_mul_None [checked_iff]:
  "checked_mul (x :: 'a::len word) y = None \<longleftrightarrow> 2 ^ LENGTH('a) \<le> unat x * unat y"
  by (auto simp: checked_mul_def)

lemma unat_of_nat_lt:
  "n < 2 ^ LENGTH('a::len) \<Longrightarrow> unat (of_nat n :: 'a word) = n"
  by (simp add: unat_of_nat)

lemma try_from_nat_Some [checked_iff]:
  "(try_from_nat n :: 'a::len word option) = Some w \<longleftrightarrow> unat w = n"
  using unat_lt [of w] by (auto simp: try_from_nat_def unat_of_nat_lt)

lemma try_from_nat_None [checked_iff]:
  "(try_from_nat n :: 'a::len word option) = None \<longleftrightarrow> 2 ^ LENGTH('a) \<le> n"
  by (auto simp: try_from_nat_def)

lemma of_nat_checked_add [rust_simps]:
  "\<lbrakk>a < 2 ^ LENGTH('a); b < 2 ^ LENGTH('a)\<rbrakk> \<Longrightarrow>
    checked_add (of_nat a :: 'a::len word) (of_nat b) =
      (if a + b < 2 ^ LENGTH('a) then Some (of_nat (a + b)) else None)"
  by (simp add: checked_add_def unat_of_nat_lt)

lemma of_nat_checked_mul [rust_simps]:
  "\<lbrakk>a < 2 ^ LENGTH('a); b < 2 ^ LENGTH('a)\<rbrakk> \<Longrightarrow>
    checked_mul (of_nat a :: 'a::len word) (of_nat b) =
      (if a * b < 2 ^ LENGTH('a) then Some (of_nat (a * b)) else None)"
  by (simp add: checked_mul_def unat_of_nat_lt)

lemma of_nat_less_word [rust_simps]:
  "\<lbrakk>a < 2 ^ LENGTH('a); b < 2 ^ LENGTH('a)\<rbrakk> \<Longrightarrow> (of_nat a :: 'a::len word) < of_nat b \<longleftrightarrow> a < b"
  by (simp add: word_less_nat_alt unat_of_nat_lt)

lemma of_nat_checked_numeral [rust_simps]:
  "\<lbrakk>a < 2 ^ LENGTH('a); numeral k < (2 :: nat) ^ LENGTH('a)\<rbrakk> \<Longrightarrow>
    checked_add (of_nat a :: 'a::len word) (numeral k) =
      (if a + numeral k < 2 ^ LENGTH('a) then Some (of_nat (a + numeral k)) else None)"
  "\<lbrakk>a < 2 ^ LENGTH('a); numeral k < (2 :: nat) ^ LENGTH('a)\<rbrakk> \<Longrightarrow>
    checked_mul (of_nat a :: 'a::len word) (numeral k) =
      (if a * numeral k < 2 ^ LENGTH('a) then Some (of_nat (a * numeral k)) else None)"
  "\<lbrakk>a < 2 ^ LENGTH('a); numeral k < (2 :: nat) ^ LENGTH('a)\<rbrakk> \<Longrightarrow>
    numeral k < (of_nat a :: 'a word) \<longleftrightarrow> numeral k < a"
  using of_nat_checked_add [where ?'a = 'a, of a "numeral k"]
    of_nat_checked_mul [where ?'a = 'a, of a "numeral k"]
    of_nat_less_word [where ?'a = 'a, of "numeral k" a]
  by (simp_all del: of_nat_add of_nat_mult)

lemma of_nat_checked_add_one [rust_simps]:
  "a < 2 ^ LENGTH('a) \<Longrightarrow>
    checked_add (of_nat a :: 'a::len word) 1 =
      (if a + 1 < 2 ^ LENGTH('a) then Some (of_nat (a + 1)) else None)"
  using of_nat_checked_add [where ?'a = 'a, of a 1, OF _ one_less_power [OF _ len_gt_0]] by simp

lemma try_from_nat_lt [rust_simps]:
  "n < 2 ^ LENGTH('a) \<Longrightarrow> (try_from_nat n :: 'a::len word option) = Some (of_nat n)"
  by (simp add: try_from_nat_def)

lemma max_word_zero [simp]: "max k 0 = (k :: 'a::len word)" "max 0 k = (k :: 'a::len word)"
  by (simp_all add: max_def)

lemma of_nat_max_word [rust_simps]:
  "\<lbrakk>a < 2 ^ LENGTH('a); b < 2 ^ LENGTH('a)\<rbrakk> \<Longrightarrow>
    max (of_nat a :: 'a::len word) (of_nat b) = of_nat (max a b)"
  by (simp add: max_def word_le_nat_alt unat_of_nat_lt)

section \<open>Big-endian encodings\<close>

text \<open>
  \<open>to_be_bytes\<close> of an \<open>n\<close>-byte integer and \<open>from_be_bytes\<close>. A signed integer has the bytes of
  its two's complement, which is the same word.
\<close>

fun le_digits :: "nat \<Rightarrow> nat \<Rightarrow> u8 list" where
  "le_digits 0 x = []"
| "le_digits (Suc n) x = of_nat (x mod 256) # le_digits n (x div 256)"

definition to_be_bytes :: "nat \<Rightarrow> 'a::len word \<Rightarrow> u8 list" where
  "to_be_bytes n w = rev (le_digits n (unat w))"

definition be_value :: "u8 list \<Rightarrow> nat" where
  "be_value bs = foldl (\<lambda>a b. a * 256 + unat b) 0 bs"

definition from_be_bytes :: "u8 list \<Rightarrow> 'a::len word" where
  "from_be_bytes bs = of_nat (be_value bs)"

lemma length_le_digits [simp]: "length (le_digits n x) = n"
  by (induction n arbitrary: x) auto

lemma length_to_be_bytes [simp]: "length (to_be_bytes n w) = n"
  by (simp add: to_be_bytes_def)

lemma be_value_Nil [simp]: "be_value [] = 0"
  by (simp add: be_value_def)

lemma be_value_snoc [simp]: "be_value (bs @ [b]) = be_value bs * 256 + unat b"
  by (simp add: be_value_def)

lemma be_value_rev_le_digits: "be_value (rev (le_digits n x)) = x mod 256 ^ n"
proof (induction n arbitrary: x)
  case 0
  then show ?case by simp
next
  case (Suc n)
  have "x mod 256 ^ Suc n = 256 * (x div 256 mod 256 ^ n) + x mod 256"
    by (simp add: mod_mult2_eq)
  then show ?case by (simp add: Suc.IH unat_of_nat)
qed

lemma from_to_be_bytes [be_simps]:
  assumes "LENGTH('a::len) = 8 * n"
  shows "from_be_bytes (to_be_bytes n (w :: 'a word)) = w"
proof -
  have "(256 :: nat) ^ n = 2 ^ LENGTH('a)"
    using assms by (simp add: power_mult)
  moreover have "unat w < 2 ^ LENGTH('a)" by simp
  ultimately have "be_value (to_be_bytes n w) = unat w"
    by (simp add: to_be_bytes_def be_value_rev_le_digits)
  then show ?thesis by (simp add: from_be_bytes_def)
qed

lemma le_digits_be_value: "length bs = n \<Longrightarrow> rev (le_digits n (be_value bs)) = bs"
proof (induction n arbitrary: bs)
  case 0
  then show ?case by simp
next
  case (Suc n)
  from Suc.prems obtain cs b where bs: "bs = cs @ [b]" and len: "length cs = n"
    by (cases bs rule: rev_cases) auto
  have lt: "unat b < 256" using unat_lt [of b] by simp
  then have "(be_value bs) div 256 = be_value cs" "be_value bs mod 256 = unat b"
    by (simp_all add: bs)
  then show ?case by (simp add: Suc.IH [OF len] bs)
qed

lemma be_value_lt: "be_value bs < 256 ^ length bs"
proof (induction bs rule: rev_induct)
  case Nil
  then show ?case by simp
next
  case (snoc b bs)
  have "unat b < 256" using unat_lt [of b] by simp
  with snoc show ?case by simp
qed

lemma to_from_be_bytes [be_simps]:
  assumes "LENGTH('a::len) = 8 * n" and "length bs = n"
  shows "to_be_bytes n (from_be_bytes bs :: 'a word) = bs"
proof -
  have "(256 :: nat) ^ n = 2 ^ LENGTH('a)"
    using assms by (simp add: power_mult)
  with be_value_lt [of bs] assms(2) have "be_value bs < 2 ^ LENGTH('a)" by simp
  then have "unat (from_be_bytes bs :: 'a word) = be_value bs"
    by (simp add: from_be_bytes_def unat_of_nat_lt)
  with assms(2) show ?thesis by (simp add: to_be_bytes_def le_digits_be_value)
qed

lemma to_be_bytes_inj:
  assumes "LENGTH('a::len) = 8 * n"
  shows "to_be_bytes n (v :: 'a word) = to_be_bytes n w \<longleftrightarrow> v = w"
  by (metis from_to_be_bytes [OF assms])

section \<open>Ordered maps\<close>

text \<open>
  A \<open>BTreeMap\<close> is the list of its entries in increasing key order, the order in which it is
  iterated. \<open>btree_insert\<close> replaces the entry of an existing key.
\<close>

fun btree_insert :: "'k::linorder \<Rightarrow> 'v \<Rightarrow> ('k \<times> 'v) list \<Rightarrow> ('k \<times> 'v) list" where
  "btree_insert k v [] = [(k, v)]"
| "btree_insert k v ((k', v') # m) =
     (if k < k' then (k, v) # (k', v') # m
      else if k = k' then (k, v) # m
      else (k', v') # btree_insert k v m)"

fun btree_remove :: "'k::linorder \<Rightarrow> ('k \<times> 'v) list \<Rightarrow> ('k \<times> 'v) list" where
  "btree_remove k [] = []"
| "btree_remove k ((k', v') # m) = (if k = k' then m else (k', v') # btree_remove k m)"

abbreviation btree_wf :: "('k::linorder \<times> 'v) list \<Rightarrow> bool" where
  "btree_wf m \<equiv> sorted_wrt (<) (map fst m)"

lemma map_of_btree_insert [simp]: "map_of (btree_insert k v m) = (map_of m)(k \<mapsto> v)"
  by (induction m) auto

lemma fst_set_btree_insert [simp]:
  "fst ` set (btree_insert k v m) = insert k (fst ` set m)"
proof -
  have "dom (map_of (btree_insert k v m)) = insert k (dom (map_of m))" by simp
  then show ?thesis unfolding dom_map_of_conv_image_fst .
qed

lemma btree_insert_wf [simp]: "btree_wf m \<Longrightarrow> btree_wf (btree_insert k v m)"
proof (induction m)
  case Nil
  then show ?case by simp
next
  case (Cons e m)
  obtain k' v' where e: "e = (k', v')" by (cases e)
  have set: "set (map fst (btree_insert k v m)) = insert k (set (map fst m))" by simp
  from Cons show ?case
    using set by (auto simp: e simp del: set_map intro: less_trans)
qed

lemma btree_wf_distinct: "btree_wf m \<Longrightarrow> distinct (map fst m)"
  by (simp add: strict_sorted_iff flip: sorted_wrt_map)

lemma btree_wf_unique:
  assumes "btree_wf m" "btree_wf m'" "map_of m = map_of m'"
  shows "m = m'"
proof -
  have "sorted (map fst m)" "sorted (map fst m')" "distinct (map fst m)" "distinct (map fst m')"
    using assms by (simp_all add: strict_sorted_iff)
  moreover from assms(3) have "set m = set m'"
    using \<open>distinct (map fst m)\<close> \<open>distinct (map fst m')\<close>
    by (metis map_of_eq_Some_iff subrelI subset_antisym)
  ultimately show ?thesis
    by (intro map_sorted_distinct_set_unique [of fst]) (auto simp: distinct_map inj_on_Un)
qed

section \<open>Searching\<close>

text \<open>The index of the first element with a property, counted from \<open>i\<close>.\<close>

fun find_index :: "('a \<Rightarrow> bool) \<Rightarrow> 'a list \<Rightarrow> nat \<Rightarrow> nat option" where
  "find_index p [] i = None"
| "find_index p (x # xs) i = (if p x then Some i else find_index p xs (Suc i))"

lemma find_index_spec:
  "find_index p xs i = Some k \<longleftrightarrow> i \<le> k \<and> k < i + length xs \<and> p (xs ! (k - i))
    \<and> (\<forall>j < k - i. \<not> p (xs ! j))"
proof (induction xs arbitrary: i)
  case (Cons x xs)
  show ?case
  proof (cases "p x")
    case True
    then show ?thesis by (auto simp: nth_Cons split: nat.splits)
  next
    case False
    have "Suc i \<le> k \<Longrightarrow> (x # xs) ! (k - i) = xs ! (k - Suc i)"
      by (simp add: nth_Cons')
    moreover have "(\<forall>j < k - i. \<not> p ((x # xs) ! j)) \<longleftrightarrow> (\<forall>j < k - Suc i. \<not> p (xs ! j))"
      if "Suc i \<le> k"
      using that False by (auto simp: nth_Cons split: nat.splits)
    moreover have "p ((x # xs) ! (k - i)) \<Longrightarrow> i \<le> k \<Longrightarrow> Suc i \<le> k"
      using False by (cases "k = i") auto
    ultimately show ?thesis using False Cons.IH [of "Suc i"] by auto
  qed
qed simp

lemma find_index_None: "find_index p xs i = None \<longleftrightarrow> (\<forall>x \<in> set xs. \<not> p x)"
  by (induction xs arbitrary: i) auto

lemma map_filter_append: "List.map_filter f (xs @ ys) = List.map_filter f xs @ List.map_filter f ys"
  by (simp add: map_filter_def)

end
