(* ===== verification/Clarity_Data.thy ===== *)
theory Clarity_Data
  imports Prelude
begin

text \<open>
  The data of the Clarity VM that every component speaks about: names, principals, type
  signatures (\<open>clarity/src/vm/types/signatures.rs\<close>), values (\<open>clarity/src/vm/types/mod.rs\<close>),
  execution costs and the error enums (\<open>clarity/src/vm/errors.rs\<close>,
  \<open>clarity/src/vm/analysis/errors.rs\<close>). A Rust \<open>String\<close> is a HOL \<open>string\<close>, one \<open>char\<close> per
  byte; \<open>[u8; 20]\<close> is a byte list whose length is part of the well-formedness predicates.
  Value constructors carry the prefix V, and the two \<open>ASCII\<close>/\<open>UTF8\<close> enums of the source are
  told apart by the prefixes Str (type) and Char (value).
\<close>

type_synonym clarity_name = string
type_synonym contract_name = string

section \<open>Principals and identifiers\<close>

datatype standard_principal_data = StandardPrincipalData u8 "u8 list"

record qualified_contract_identifier =
  qci_issuer :: standard_principal_data
  qci_name :: contract_name

datatype principal_data =
    Standard standard_principal_data
  | Contract qualified_contract_identifier

record trait_identifier =
  ti_name :: clarity_name
  ti_contract_identifier :: qualified_contract_identifier

record asset_identifier =
  ai_contract_identifier :: qualified_contract_identifier
  ai_asset_name :: clarity_name

section \<open>Type signatures\<close>

datatype buffer_length = BufferLength u32
datatype string_utf8_length = StringUTF8Length u32
datatype string_subtype = StrASCII buffer_length | StrUTF8 string_utf8_length

datatype (plugins only: code size) type_signature =
    NoType
  | IntType
  | UIntType
  | BoolType
  | SequenceType sequence_subtype
  | PrincipalType
  | TupleType tuple_type_signature
  | OptionalType type_signature
  | ResponseType type_signature type_signature
  | TraitReferenceType trait_identifier
and sequence_subtype =
    BufferType buffer_length
  | ListType list_type_data
  | StringType string_subtype
and list_type_data = ListTypeData (ltd_max_len: u32) (ltd_entry_type: type_signature)
and tuple_type_signature =
    TupleTypeSignature (tts_type_map: "(clarity_name \<times> type_signature) list")

section \<open>Values\<close>

datatype char_type = CharASCII "u8 list" | CharUTF8 "u8 list list"

datatype (plugins only: code size) clarity_value =
    VInt i128
  | VUInt u128
  | VBool bool
  | VSequence sequence_data
  | VPrincipal principal_data
  | VTuple tuple_data
  | VOptional "clarity_value option"
  | VResponse bool clarity_value
and sequence_data =
    Buffer "u8 list"
  | ListSeq list_data
  | StringSeq char_type
and list_data = ListData (ld_data: "clarity_value list") (ld_type_signature: list_type_data)
and tuple_data =
    TupleData (td_type_signature: tuple_type_signature)
      (td_data_map: "(clarity_name \<times> clarity_value) list")

section \<open>Execution costs\<close>

record execution_cost =
  write_length :: u64
  write_count :: u64
  read_length :: u64
  read_count :: u64
  runtime :: u64

datatype cost_errors =
    CE_CostComputationFailed string
  | CE_CostOverflow
  | CE_CostBalanceExceeded execution_cost execution_cost
  | CE_MemoryBalanceExceeded u64 u64
  | CE_CostContractLoadFailure

section \<open>Errors\<close>

datatype (plugins only: ) check_errors =
    CostOverflow
  | CostBalanceExceeded execution_cost execution_cost
  | MemoryBalanceExceeded u64 u64
  | CostComputationFailed string
  | ValueTooLarge
  | ValueOutOfBounds
  | TypeSignatureTooDeep
  | ExpectedName
  | BadMatchOptionSyntax check_errors
  | BadMatchResponseSyntax check_errors
  | BadMatchInput type_signature
  | UnknownListConstructionFailure
  | ListTypesMustMatch
  | ConstructedListTooLarge
  | TypeError type_signature type_signature
  | TypeLiteralError type_signature type_signature
  | TypeValueError type_signature clarity_value
  | NoSuperType type_signature type_signature
  | InvalidTypeDescription
  | UnknownTypeName string
  | UnionTypeError "type_signature list" type_signature
  | UnionTypeValueError "type_signature list" clarity_value
  | ExpectedLiteral
  | ExpectedOptionalType type_signature
  | ExpectedResponseType type_signature
  | ExpectedOptionalOrResponseType type_signature
  | ExpectedOptionalValue clarity_value
  | ExpectedResponseValue clarity_value
  | ExpectedOptionalOrResponseValue clarity_value
  | CouldNotDetermineResponseOkType
  | CouldNotDetermineResponseErrType
  | UncheckedIntermediaryResponses
  | CouldNotDetermineMatchTypes
  | TypeAlreadyAnnotatedFailure
  | TypeAnnotationExpectedFailure
  | CheckerImplementationFailure
  | BadTokenName
  | DefineFTBadSignature
  | DefineNFTBadSignature
  | NoSuchNFT string
  | NoSuchFT string
  | BadTransferSTXArguments
  | BadTransferFTArguments
  | BadTransferNFTArguments
  | BadMintFTArguments
  | BadBurnFTArguments
  | BadWithdrawFTArguments
  | BadTupleFieldName
  | ExpectedTuple type_signature
  | NoSuchTupleField string tuple_type_signature
  | EmptyTuplesNotAllowed
  | BadTupleConstruction
  | TupleExpectsPairs
  | NoSuchDataVariable string
  | BadMapName
  | NoSuchMap string
  | DefineFunctionBadSignature
  | BadFunctionName
  | BadMapTypeDefinition
  | PublicFunctionMustReturnResponse type_signature
  | DefineVariableBadSignature
  | ReturnTypesMustMatch type_signature type_signature
  | CircularReference "string list"
  | NoSuchContract string
  | NoSuchPublicFunction string string
  | PublicFunctionNotReadOnly string string
  | ContractAlreadyExists string
  | ContractCallExpectName
  | NoSuchBlockInfoProperty string
  | GetBlockInfoExpectPropertyName
  | NameAlreadyUsed string
  | NonFunctionApplication
  | ExpectedListApplication
  | ExpectedSequence type_signature
  | MaxLengthOverflow
  | BadLetSyntax
  | BadSyntaxBinding
  | BadSyntaxExpectedListOfPairs
  | MaxContextDepthReached
  | UndefinedFunction string
  | UndefinedVariable string
  | RequiresAtLeastArguments nat nat
  | IncorrectArgumentCount nat nat
  | IfArmsMustMatch type_signature type_signature
  | MatchArmsMustMatch type_signature type_signature
  | DefaultTypesMustMatch type_signature type_signature
  | TooManyExpressions
  | IllegalOrUnknownFunctionApplication string
  | UnknownFunction string
  | NoSuchTrait string string
  | TraitReferenceUnknown string
  | TraitMethodUnknown string string
  | ExpectedTraitIdentifier
  | ImportTraitBadSignature
  | TraitReferenceNotAllowed
  | BadTraitImplementation string string
  | DefineTraitBadSignature
  | UnexpectedTraitOrFieldReference
  | TraitBasedContractCallInReadOnly
  | ContractOfExpectsTrait
  | InvalidCharactersDetected
  | InvalidSecp65k1Signature
  | WriteAttemptedInReadOnly
  | AtBlockClosureMustBeReadOnly


text \<open>Parser errors carry the prefix PE, runtime errors RT and interpreter errors IE.\<close>

datatype (plugins only: code) parse_errors =
    PE_CostOverflow
  | PE_CostBalanceExceeded execution_cost execution_cost
  | PE_MemoryBalanceExceeded u64 u64
  | PE_TooManyExpressions
  | PE_ExpressionStackDepthTooDeep
  | PE_FailedCapturingInput
  | PE_SeparatorExpected string
  | PE_SeparatorExpectedAfterColon string
  | PE_ProgramTooLarge
  | PE_IllegalVariableName string
  | PE_IllegalContractName string
  | PE_UnknownQuotedValue string
  | PE_FailedParsingIntValue string
  | PE_FailedParsingBuffer string
  | PE_FailedParsingHexValue string string
  | PE_FailedParsingPrincipal string
  | PE_FailedParsingField string
  | PE_FailedParsingRemainder string
  | PE_ClosingParenthesisUnexpected
  | PE_ClosingParenthesisExpected
  | PE_ClosingTupleLiteralUnexpected
  | PE_ClosingTupleLiteralExpected
  | PE_CircularReference "string list"
  | PE_TupleColonExpected nat
  | PE_TupleCommaExpected nat
  | PE_TupleItemExpected nat
  | PE_NameAlreadyUsed string
  | PE_TraitReferenceNotAllowed
  | PE_ImportTraitBadSignature
  | PE_DefineTraitBadSignature
  | PE_ImplTraitBadSignature
  | PE_TraitReferenceUnknown string
  | PE_CommaSeparatorUnexpected
  | PE_ColonSeparatorUnexpected
  | PE_InvalidCharactersDetected
  | PE_InvalidEscaping
  | PE_CostComputationFailed string

datatype (plugins only: code) runtime_error_type =
    RT_Arithmetic string
  | RT_ArithmeticOverflow
  | RT_ArithmeticUnderflow
  | RT_SupplyOverflow u128 u128
  | RT_SupplyUnderflow u128 u128
  | RT_DivisionByZero
  | RT_ParseError string
  | RT_ASTError parse_errors
  | RT_MaxStackDepthReached
  | RT_MaxContextDepthReached
  | RT_ListDimensionTooHigh
  | RT_BadTypeConstruction
  | RT_ValueTooLarge
  | RT_BadBlockHeight string
  | RT_TransferNonPositiveAmount
  | RT_NoSuchToken
  | RT_NotImplemented
  | RT_NoSenderInContext
  | RT_NonPositiveTokenSupply
  | RT_JSONParseError
  | RT_AttemptToFetchInTransientContext
  | RT_BadNameValue string string
  | RT_UnknownBlockHeaderHash "u8 list"
  | RT_BadBlockHash "u8 list"
  | RT_UnwrapFailure

datatype (plugins only: code) interpreter_error =
    IE_BadSender clarity_value
  | IE_BadSymbolicRepresentation string
  | IE_InterpreterError string
  | IE_UninitializedPersistedVariable
  | IE_FailedToConstructAssetTable
  | IE_FailedToConstructEventBatch
  | IE_SqliteError
  | IE_BadFileName
  | IE_FailedToCreateDataDirectory
  | IE_MarfFailure string
  | IE_FailureConstructingTupleWithType
  | IE_FailureConstructingListWithType
  | IE_InsufficientBalance
  | IE_CostContractLoadFailure
  | IE_DBError string

datatype short_return_type =
    ExpectedValue clarity_value
  | AssertionFailed clarity_value

text \<open>
  \<open>vm::errors::Error\<close>. The stack trace of a runtime error is absent wherever an error is
  raised (\<open>From<RuntimeErrorType>\<close>); the interpreter loop attaches it later.
\<close>

datatype vm_error =
    Unchecked check_errors
  | Interpreter interpreter_error
  | Runtime runtime_error_type "string list option"
  | ShortReturn short_return_type

type_synonym 'a interpreter_result = "(vm_error, 'a) result"

end
