(* ===== verification/Signatures.thy ===== *)
theory Signatures
  imports Clarity_Data
begin

text \<open>
  Type signatures of Clarity (\<open>clarity/src/vm/types/signatures.rs\<close>): size and depth
  computations, the failing constructors, admission between types and least supertypes. The
  definitions follow the source on \<open>u32\<close>/\<open>u8\<close> words. The specification level is the pair of
  natural-number measures \<open>tsize\<close> and \<open>tdepth\<close> together with \<open>wf_type\<close>, the predicate that a
  type was built by the constructors; the lemmas show that on well-formed types the word
  computations neither wrap nor panic, that the constructors establish \<open>wf_type\<close>, that
  admission is a preorder on the types of values and that \<open>least_supertype\<close> is an upper bound.
\<close>

named_theorems sig_simps \<open>unfolding rules for type signatures\<close>

section \<open>Constants and length types\<close>

definition MAX_VALUE_SIZE :: u32 where
  "MAX_VALUE_SIZE = 1024 * 1024"

definition MAX_TYPE_DEPTH :: u8 where
  "MAX_TYPE_DEPTH = 32"

definition WRAPPER_VALUE_SIZE :: u32 where
  "WRAPPER_VALUE_SIZE = 1"

definition buffer_length_try_from_u32 :: "u32 \<Rightarrow> (check_errors, buffer_length) result" where
  "buffer_length_try_from_u32 data =
     (if data > MAX_VALUE_SIZE then Err ValueTooLarge else Ok (BufferLength data))"

definition buffer_length_try_from_usize :: "nat \<Rightarrow> (check_errors, buffer_length) result" where
  "buffer_length_try_from_usize data =
     (if data > unat MAX_VALUE_SIZE then Err ValueTooLarge else Ok (BufferLength (of_nat data)))"

definition buffer_length_try_from_i128 :: "i128 \<Rightarrow> (check_errors, buffer_length) result" where
  "buffer_length_try_from_i128 data =
     (if sint data > int (unat MAX_VALUE_SIZE) then Err ValueTooLarge
      else if sint data < 0 then Err ValueOutOfBounds
      else Ok (BufferLength (ucast data)))"

definition string_utf8_length_try_from_u32 ::
    "u32 \<Rightarrow> (check_errors, string_utf8_length) result" where
  "string_utf8_length_try_from_u32 data =
     and_then (ok_or (checked_mul data 4) ValueTooLarge) (\<lambda>len.
       if len > MAX_VALUE_SIZE then Err ValueTooLarge else Ok (StringUTF8Length data))"

text \<open>A \<open>usize\<close> is a 64-bit word of which the natural number is the value.\<close>

definition string_utf8_length_try_from_usize ::
    "nat \<Rightarrow> (check_errors, string_utf8_length) result" where
  "string_utf8_length_try_from_usize data =
     (if data * 4 \<ge> 2 ^ 64 then Err ValueTooLarge
      else if data * 4 > unat MAX_VALUE_SIZE then Err ValueTooLarge
      else Ok (StringUTF8Length (of_nat data)))"

definition string_utf8_length_try_from_i128 ::
    "i128 \<Rightarrow> (check_errors, string_utf8_length) result" where
  "string_utf8_length_try_from_i128 data =
     (let len = sint data * 4 in
      if len < - (2 ^ 127) \<or> len \<ge> 2 ^ 127 then Err ValueTooLarge
      else if len > int (unat MAX_VALUE_SIZE) then Err ValueTooLarge
      else if sint data < 0 then Err ValueOutOfBounds
      else Ok (StringUTF8Length (ucast data)))"

fun u32_from_buffer_length :: "buffer_length \<Rightarrow> u32" where
  "u32_from_buffer_length (BufferLength v) = v"

fun u32_from_utf8_length :: "string_utf8_length \<Rightarrow> u32" where
  "u32_from_utf8_length (StringUTF8Length v) = v"

section \<open>Depth and size\<close>

fun depth :: "type_signature \<Rightarrow> u8"
and max_depth_loop :: "(clarity_name \<times> type_signature) list \<Rightarrow> u8 \<Rightarrow> u8" where
  "depth NoType = 1"
| "depth IntType = 1"
| "depth UIntType = 1"
| "depth BoolType = 1"
| "depth PrincipalType = 1"
| "depth (TraitReferenceType _) = 1"
| "depth (SequenceType (BufferType _)) = 1"
| "depth (SequenceType (StringType _)) = 1"
| "depth (TupleType (TupleTypeSignature type_map)) = 1 + max_depth_loop type_map 0"
| "depth (SequenceType (ListType (ListTypeData _ entry_type))) = 1 + depth entry_type"
| "depth (OptionalType t) = 1 + depth t"
| "depth (ResponseType t s) = 1 + max (depth t) (depth s)"
| "max_depth_loop [] m = m"
| "max_depth_loop ((_, t) # type_map) m = max_depth_loop type_map (max m (depth t))"

fun inner_type_size :: "type_signature \<Rightarrow> u32 option"
and list_type_size :: "list_type_data \<Rightarrow> u32 option"
and tuple_type_size :: "tuple_type_signature \<Rightarrow> u32 option"
and tuple_type_size_loop :: "(clarity_name \<times> type_signature) list \<Rightarrow> u32 \<Rightarrow> u32 option" where
  "inner_type_size NoType = Some 1"
| "inner_type_size IntType = Some 1"
| "inner_type_size UIntType = Some 1"
| "inner_type_size BoolType = Some 1"
| "inner_type_size PrincipalType = Some 1"
| "inner_type_size (TupleType tuple_sig) = tuple_type_size tuple_sig"
| "inner_type_size (SequenceType (BufferType _)) = Some (1 + 4)"
| "inner_type_size (SequenceType (ListType list_type)) = list_type_size list_type"
| "inner_type_size (SequenceType (StringType (StrASCII _))) = Some (1 + 4)"
| "inner_type_size (SequenceType (StringType (StrUTF8 _))) = Some (1 + 4)"
| "inner_type_size (OptionalType t) = Option.bind (inner_type_size t) (\<lambda>n. checked_add n 1)"
| "inner_type_size (ResponseType t s) =
     Option.bind (inner_type_size t) (\<lambda>n.
     Option.bind (inner_type_size s) (\<lambda>m.
     Option.bind (checked_add n m) (\<lambda>k. checked_add k 1)))"
| "inner_type_size (TraitReferenceType _) = Some 1"
| "list_type_size (ListTypeData _ entry_type) =
     Option.bind (inner_type_size entry_type) (\<lambda>n.
     Option.bind (checked_add n (4 + 1)) (\<lambda>total_size.
     if total_size > MAX_VALUE_SIZE then None else Some total_size))"
| "tuple_type_size (TupleTypeSignature type_map) =
     Option.bind (try_from_nat (length type_map)) (\<lambda>n.
     Option.bind (checked_mul n 2) (\<lambda>start.
     Option.bind (tuple_type_size_loop type_map start) (\<lambda>type_map_size.
     if type_map_size > MAX_VALUE_SIZE then None else Some type_map_size)))"
| "tuple_type_size_loop [] type_map_size = Some type_map_size"
| "tuple_type_size_loop ((name, t) # type_map) type_map_size =
     Option.bind (inner_type_size t) (\<lambda>n.
     Option.bind (checked_add type_map_size n) (\<lambda>s.
     Option.bind (checked_add s (of_nat (length name))) (tuple_type_size_loop type_map)))"

definition type_size :: "type_signature \<Rightarrow> (check_errors, u32) result" where
  "type_size t = ok_or (inner_type_size t) ValueTooLarge"

text \<open>
  \<open>inner_size\<close> returns an \<open>Option\<close>, but it calls the panicking \<open>size\<close> on component types: the
  outcomes are \<open>Ok\<close> (\<open>Some\<close>), \<open>Err ()\<close> (\<open>None\<close>) and \<open>Panic\<close>.
\<close>

fun inner_size :: "type_signature \<Rightarrow> (unit, u32) result"
and list_inner_size :: "list_type_data \<Rightarrow> (unit, u32) result"
and tuple_inner_size :: "tuple_type_signature \<Rightarrow> (unit, u32) result"
and tuple_inner_size_loop ::
    "(clarity_name \<times> type_signature) list \<Rightarrow> u32 \<Rightarrow> (unit, u32) result" where
  "inner_size NoType = Ok 1"
| "inner_size IntType = Ok 16"
| "inner_size UIntType = Ok 16"
| "inner_size BoolType = Ok 1"
| "inner_size PrincipalType = Ok 148"
| "inner_size (TupleType tuple_sig) = tuple_inner_size tuple_sig"
| "inner_size (SequenceType (BufferType len)) = Ok (4 + u32_from_buffer_length len)"
| "inner_size (SequenceType (StringType (StrASCII len))) = Ok (4 + u32_from_buffer_length len)"
| "inner_size (SequenceType (ListType list_type)) = list_inner_size list_type"
| "inner_size (SequenceType (StringType (StrUTF8 len))) = Ok (4 + 4 * u32_from_utf8_length len)"
| "inner_size (OptionalType t) =
     and_then (expect (inner_size t)) (\<lambda>n. ok_or (checked_add n WRAPPER_VALUE_SIZE) ())"
| "inner_size (ResponseType t s) =
     and_then (expect (inner_size t)) (\<lambda>t_size.
     and_then (expect (inner_size s)) (\<lambda>s_size.
     ok_or (checked_add (max t_size s_size) WRAPPER_VALUE_SIZE) ()))"
| "inner_size (TraitReferenceType _) = Ok 276"
| "list_inner_size (ListTypeData max_len entry_type) =
     and_then (expect (inner_size entry_type)) (\<lambda>n.
     and_then (ok_or (checked_mul n max_len) ()) (\<lambda>m.
     and_then (ok_or (list_type_size (ListTypeData max_len entry_type)) ()) (\<lambda>k.
     and_then (ok_or (checked_add m k) ()) (\<lambda>total_size.
     if total_size > MAX_VALUE_SIZE then Err () else Ok total_size))))"
| "tuple_inner_size (TupleTypeSignature type_map) =
     and_then (ok_or (try_from_nat (length type_map)) ()) (\<lambda>n.
     and_then (ok_or (checked_mul n 2) ()) (\<lambda>m.
     and_then (ok_or (tuple_type_size (TupleTypeSignature type_map)) ()) (\<lambda>k.
     and_then (ok_or (checked_add m k) ()) (\<lambda>start.
     and_then (tuple_inner_size_loop type_map start) (\<lambda>total_size.
     if total_size > MAX_VALUE_SIZE then Err () else Ok total_size)))))"
| "tuple_inner_size_loop [] total_size = Ok total_size"
| "tuple_inner_size_loop ((name, t) # type_map) total_size =
     and_then (expect (inner_size t)) (\<lambda>n.
     and_then (ok_or (checked_add total_size n) ()) (\<lambda>s.
     and_then (ok_or (checked_add s (of_nat (length name))) ()) (tuple_inner_size_loop type_map)))"

definition sig_size :: "type_signature \<Rightarrow> ('e, u32) result" where
  "sig_size t = expect (inner_size t)"

definition tuple_sig_size :: "tuple_type_signature \<Rightarrow> ('e, u32) result" where
  "tuple_sig_size ts = expect (tuple_inner_size ts)"

section \<open>Constructors\<close>

definition new_list :: "type_signature \<Rightarrow> u32 \<Rightarrow> (check_errors, list_type_data) result" where
  "new_list entry_type max_len =
     (let would_be_depth = 1 + depth entry_type in
      if would_be_depth > MAX_TYPE_DEPTH then Err TypeSignatureTooDeep
      else
        let list_data = ListTypeData max_len entry_type in
        and_then (map_err (\<lambda>_. ValueTooLarge) (list_inner_size list_data)) (\<lambda>would_be_size.
          if would_be_size > MAX_VALUE_SIZE then Err ValueTooLarge else Ok list_data))"

fun destruct :: "list_type_data \<Rightarrow> type_signature \<times> u32" where
  "destruct (ListTypeData max_len entry_type) = (entry_type, max_len)"

fun reduce_max_len :: "list_type_data \<Rightarrow> u32 \<Rightarrow> list_type_data" where
  "reduce_max_len (ListTypeData max_len entry_type) new_max_len =
     (if new_max_len \<le> max_len then ListTypeData new_max_len entry_type
      else ListTypeData max_len entry_type)"

definition new_option :: "type_signature \<Rightarrow> (check_errors, type_signature) result" where
  "new_option inner_type =
     and_then (sig_size inner_type) (\<lambda>n.
     let new_size = WRAPPER_VALUE_SIZE + n; new_depth = 1 + depth inner_type in
     if new_size > MAX_VALUE_SIZE then Err ValueTooLarge
     else if new_depth > MAX_TYPE_DEPTH then Err TypeSignatureTooDeep
     else Ok (OptionalType inner_type))"

definition new_response ::
    "type_signature \<Rightarrow> type_signature \<Rightarrow> (check_errors, type_signature) result" where
  "new_response ok_type err_type =
     and_then (sig_size ok_type) (\<lambda>ok_size.
     and_then (sig_size err_type) (\<lambda>err_size.
     let new_size = WRAPPER_VALUE_SIZE + max ok_size err_size;
         new_depth = 1 + max (depth ok_type) (depth err_type) in
     if new_size > MAX_VALUE_SIZE then Err ValueTooLarge
     else if new_depth > MAX_TYPE_DEPTH then Err TypeSignatureTooDeep
     else Ok (ResponseType ok_type err_type)))"

fun is_response_type :: "type_signature \<Rightarrow> bool" where
  "is_response_type (ResponseType _ _) = True"
| "is_response_type _ = False"

definition is_no_type :: "type_signature \<Rightarrow> bool" where
  "is_no_type t \<longleftrightarrow> t = NoType"

definition tuple_try_from_map ::
    "(clarity_name \<times> type_signature) list \<Rightarrow> (check_errors, tuple_type_signature) result" where
  "tuple_try_from_map type_map =
     (if length type_map = 0 then Err EmptyTuplesNotAllowed
      else if list_ex (\<lambda>(_, child_sig). 1 + depth child_sig > MAX_TYPE_DEPTH) type_map
        then Err TypeSignatureTooDeep
      else
        and_then (map_err (\<lambda>_. ValueTooLarge) (tuple_inner_size (TupleTypeSignature type_map)))
          (\<lambda>would_be_size. if would_be_size > MAX_VALUE_SIZE then Err ValueTooLarge
             else Ok (TupleTypeSignature type_map)))"

fun tuple_collect ::
    "(clarity_name \<times> type_signature) list \<Rightarrow> (clarity_name \<times> type_signature) list
      \<Rightarrow> (check_errors, (clarity_name \<times> type_signature) list) result" where
  "tuple_collect type_map [] = Ok type_map"
| "tuple_collect type_map ((name, type_info) # type_data) =
     (if map_of type_map name \<noteq> None then Err (NameAlreadyUsed name)
      else tuple_collect (btree_insert name type_info type_map) type_data)"

definition tuple_try_from_vec ::
    "(clarity_name \<times> type_signature) list \<Rightarrow> (check_errors, tuple_type_signature) result" where
  "tuple_try_from_vec type_data =
     (if length type_data = 0 then Err EmptyTuplesNotAllowed
      else and_then (tuple_collect [] type_data) tuple_try_from_map)"

fun tuple_len :: "tuple_type_signature \<Rightarrow> u64" where
  "tuple_len (TupleTypeSignature type_map) = of_nat (length type_map)"

fun field_type :: "tuple_type_signature \<Rightarrow> string \<Rightarrow> type_signature option" where
  "field_type (TupleTypeSignature type_map) field = map_of type_map field"

text \<open>\<open>BTreeMap::append\<close> moves every entry of the update into the map, replacing old ones.\<close>

fun sig_shallow_merge ::
    "tuple_type_signature \<Rightarrow> tuple_type_signature \<Rightarrow> tuple_type_signature" where
  "sig_shallow_merge (TupleTypeSignature type_map) (TupleTypeSignature upd) =
     TupleTypeSignature (fold (\<lambda>(k, v). btree_insert k v) upd type_map)"

definition list_of :: "type_signature \<Rightarrow> u32 \<Rightarrow> (check_errors, type_signature) result" where
  "list_of item_type max_len = map_ok (\<lambda>x. SequenceType (ListType x)) (new_list item_type max_len)"

definition empty_list :: list_type_data where
  "empty_list = ListTypeData 0 NoType"

definition empty_buffer :: "('e, type_signature) result" where
  "empty_buffer =
     and_then (expect (buffer_length_try_from_u32 0)) (\<lambda>l. Ok (SequenceType (BufferType l)))"

definition min_buffer :: "('e, type_signature) result" where
  "min_buffer =
     and_then (expect (buffer_length_try_from_u32 1)) (\<lambda>l. Ok (SequenceType (BufferType l)))"

definition min_string_ascii :: "('e, type_signature) result" where
  "min_string_ascii =
     and_then (expect (buffer_length_try_from_u32 1))
       (\<lambda>l. Ok (SequenceType (StringType (StrASCII l))))"

definition min_string_utf8 :: "('e, type_signature) result" where
  "min_string_utf8 =
     and_then (expect (string_utf8_length_try_from_u32 1))
       (\<lambda>l. Ok (SequenceType (StringType (StrUTF8 l))))"

definition max_buffer :: "('e, type_signature) result" where
  "max_buffer =
     and_then (expect (buffer_length_try_from_u32 MAX_VALUE_SIZE))
       (\<lambda>l. Ok (SequenceType (BufferType l)))"

fun unit_type :: "sequence_subtype \<Rightarrow> ('e, type_signature) result" where
  "unit_type (ListType list_data) = Ok (fst (destruct list_data))"
| "unit_type (BufferType _) = min_buffer"
| "unit_type (StringType (StrASCII _)) = min_string_ascii"
| "unit_type (StringType (StrUTF8 _)) = min_string_utf8"

section \<open>Admission\<close>

text \<open>\<open>admits_type\<close> returns a \<open>bool\<close> or panics; its error type is \<open>unit\<close> and never used.\<close>

fun admits_type :: "type_signature \<Rightarrow> type_signature \<Rightarrow> (unit, bool) result"
and tuple_admits :: "tuple_type_signature \<Rightarrow> tuple_type_signature \<Rightarrow> (unit, bool) result"
and tuple_admits_loop :: "(clarity_name \<times> type_signature) list
    \<Rightarrow> (clarity_name \<times> type_signature) list \<Rightarrow> (unit, bool) result" where
  "admits_type (SequenceType (ListType (ListTypeData my_len my_entry))) other =
     (case other of
        SequenceType (ListType (ListTypeData other_len other_entry)) \<Rightarrow>
          if other_len = 0 then Ok True
          else if my_len \<ge> other_len then admits_type my_entry other_entry
          else Ok False
      | _ \<Rightarrow> Ok False)"
| "admits_type (SequenceType (BufferType (BufferLength my_len))) other =
     (case other of
        SequenceType (BufferType (BufferLength other_len)) \<Rightarrow> Ok (my_len \<ge> other_len)
      | _ \<Rightarrow> Ok False)"
| "admits_type (SequenceType (StringType (StrASCII (BufferLength len)))) other =
     (case other of
        SequenceType (StringType (StrASCII (BufferLength other_len))) \<Rightarrow> Ok (len \<ge> other_len)
      | _ \<Rightarrow> Ok False)"
| "admits_type (SequenceType (StringType (StrUTF8 (StringUTF8Length len)))) other =
     (case other of
        SequenceType (StringType (StrUTF8 (StringUTF8Length other_len))) \<Rightarrow> Ok (len \<ge> other_len)
      | _ \<Rightarrow> Ok False)"
| "admits_type (OptionalType my_inner) other =
     (case other of
        OptionalType other_inner \<Rightarrow>
          if is_no_type other_inner then Ok True else admits_type my_inner other_inner
      | _ \<Rightarrow> Ok False)"
| "admits_type (ResponseType my_ok my_err) other =
     (case other of
        ResponseType other_ok other_err \<Rightarrow>
          if is_no_type other_ok then admits_type my_err other_err
          else if is_no_type other_err then admits_type my_ok other_ok
          else and_then (admits_type my_err other_err) (\<lambda>b.
            if b then admits_type my_ok other_ok else Ok False)
      | _ \<Rightarrow> Ok False)"
| "admits_type (TupleType tuple_sig) other =
     (case other of
        TupleType other_sig \<Rightarrow> tuple_admits tuple_sig other_sig
      | _ \<Rightarrow> Ok False)"
| "admits_type NoType other = Panic"
| "admits_type IntType other = Ok (other = IntType)"
| "admits_type UIntType other = Ok (other = UIntType)"
| "admits_type BoolType other = Ok (other = BoolType)"
| "admits_type PrincipalType other = Ok (other = PrincipalType)"
| "admits_type (TraitReferenceType t) other = Ok (other = TraitReferenceType t)"
| "tuple_admits (TupleTypeSignature type_map) other_sig =
     (if length type_map \<noteq> length (tts_type_map other_sig) then Ok False
      else tuple_admits_loop type_map (tts_type_map other_sig))"
| "tuple_admits_loop [] other_map = Ok True"
| "tuple_admits_loop ((name, my_type_sig) # type_map) other_map =
     (case map_of other_map name of
        Some other_type_sig \<Rightarrow>
          and_then (admits_type my_type_sig other_type_sig) (\<lambda>b.
            if b then tuple_admits_loop type_map other_map else Ok False)
      | None \<Rightarrow> Ok False)"

section \<open>Least supertype\<close>

text \<open>The last two arms of the match: \<open>NoType\<close> yields the other type, equal types themselves.\<close>

definition supertype_atom ::
    "type_signature \<Rightarrow> type_signature \<Rightarrow> (check_errors, type_signature) result" where
  "supertype_atom a b =
     (if a = NoType then Ok b else if b = NoType then Ok a
      else if a = b then Ok a else Err (TypeError a b))"

function (sequential) least_supertype ::
    "type_signature \<Rightarrow> type_signature \<Rightarrow> (check_errors, type_signature) result"
and factor_out_no_type ::
    "type_signature \<Rightarrow> type_signature \<Rightarrow> (check_errors, type_signature) result"
and least_supertype_fields :: "check_errors \<Rightarrow> (clarity_name \<times> type_signature) list
    \<Rightarrow> (clarity_name \<times> type_signature) list \<Rightarrow> (clarity_name \<times> type_signature) list
    \<Rightarrow> (check_errors, (clarity_name \<times> type_signature) list) result" where
  "least_supertype (TupleType (TupleTypeSignature types_a)) b =
     (case b of
        TupleType (TupleTypeSignature types_b) \<Rightarrow>
          and_then (least_supertype_fields (TypeError (TupleType (TupleTypeSignature types_a)) b)
              types_a types_b [])
            (\<lambda>type_map_out. expect (map_ok TupleType (tuple_try_from_map type_map_out)))
      | _ \<Rightarrow> supertype_atom (TupleType (TupleTypeSignature types_a)) b)"
| "least_supertype (SequenceType (ListType (ListTypeData len_a entry_a))) b =
     (case b of
        SequenceType (ListType (ListTypeData len_b entry_b)) \<Rightarrow>
          and_then (if len_a = 0 then Ok entry_b else if len_b = 0 then Ok entry_a
              else least_supertype entry_a entry_b)
            (\<lambda>entry_type. expect (list_of entry_type (max len_a len_b)))
      | _ \<Rightarrow> supertype_atom (SequenceType (ListType (ListTypeData len_a entry_a))) b)"
| "least_supertype (ResponseType ok_a err_a) b =
     (case b of
        ResponseType ok_b err_b \<Rightarrow>
          and_then (factor_out_no_type ok_a ok_b) (\<lambda>ok_type.
          and_then (factor_out_no_type err_a err_b) (\<lambda>err_type.
          new_response ok_type err_type))
      | _ \<Rightarrow> supertype_atom (ResponseType ok_a err_a) b)"
| "least_supertype (OptionalType some_a) b =
     (case b of
        OptionalType some_b \<Rightarrow> and_then (factor_out_no_type some_a some_b) new_option
      | _ \<Rightarrow> supertype_atom (OptionalType some_a) b)"
| "least_supertype (SequenceType (BufferType buff_a)) b =
     (case b of
        SequenceType (BufferType buff_b) \<Rightarrow>
          Ok (SequenceType (BufferType
            (if u32_from_buffer_length buff_a > u32_from_buffer_length buff_b
             then buff_a else buff_b)))
      | _ \<Rightarrow> supertype_atom (SequenceType (BufferType buff_a)) b)"
| "least_supertype (SequenceType (StringType (StrASCII string_a))) b =
     (case b of
        SequenceType (StringType (StrASCII string_b)) \<Rightarrow>
          Ok (SequenceType (StringType (StrASCII
            (if u32_from_buffer_length string_a > u32_from_buffer_length string_b
             then string_a else string_b))))
      | _ \<Rightarrow> supertype_atom (SequenceType (StringType (StrASCII string_a))) b)"
| "least_supertype (SequenceType (StringType (StrUTF8 string_a))) b =
     (case b of
        SequenceType (StringType (StrUTF8 string_b)) \<Rightarrow>
          Ok (SequenceType (StringType (StrUTF8
            (if u32_from_utf8_length string_a > u32_from_utf8_length string_b
             then string_a else string_b))))
      | _ \<Rightarrow> supertype_atom (SequenceType (StringType (StrUTF8 string_a))) b)"
| "least_supertype NoType b = supertype_atom NoType b"
| "least_supertype IntType b = supertype_atom IntType b"
| "least_supertype UIntType b = supertype_atom UIntType b"
| "least_supertype BoolType b = supertype_atom BoolType b"
| "least_supertype PrincipalType b = supertype_atom PrincipalType b"
| "least_supertype (TraitReferenceType t) b = supertype_atom (TraitReferenceType t) b"
| "factor_out_no_type a b =
     (if is_no_type a then Ok b else if is_no_type b then Ok a else least_supertype a b)"
| "least_supertype_fields err [] types_b type_map_out = Ok type_map_out"
| "least_supertype_fields err ((name, entry_a) # types_a) types_b type_map_out =
     and_then (ok_or (map_of types_b name) err) (\<lambda>entry_b.
     and_then (least_supertype entry_a entry_b) (\<lambda>entry_out.
     least_supertype_fields err types_a types_b (btree_insert name entry_out type_map_out)))"
  by pat_completeness auto

termination
  by (relation "measure (\<lambda>x. case x of
        Inl (a, b) \<Rightarrow> 2 * size a
      | Inr (Inl (a, b)) \<Rightarrow> 2 * size a + 1
      | Inr (Inr (err, types_a, types_b, out)) \<Rightarrow> 2 * size_list (size_prod (\<lambda>_. 0) size) types_a)") auto

fun parent_fold ::
    "type_signature \<Rightarrow> type_signature list \<Rightarrow> (check_errors, type_signature) result" where
  "parent_fold current_entry_type [] = Ok current_entry_type"
| "parent_fold current_entry_type (next_entry # rest) =
     and_then (least_supertype current_entry_type next_entry) (\<lambda>t. parent_fold t rest)"

fun parent_list_type :: "type_signature list \<Rightarrow> (check_errors, list_type_data) result" where
  "parent_list_type [] = Ok empty_list"
| "parent_list_type (first # rest) =
     and_then (parent_fold first rest) (\<lambda>current_entry_type.
     and_then (ok_or (try_from_nat (length (first # rest))) ValueTooLarge) (\<lambda>len.
     new_list current_entry_type len))"


section \<open>Specification level\<close>

text \<open>Depth, type size and value size as natural numbers, with no wrap-around and no cap.\<close>

fun tdepth :: "type_signature \<Rightarrow> nat"
and fields_depth :: "(clarity_name \<times> type_signature) list \<Rightarrow> nat" where
  "tdepth NoType = 1"
| "tdepth IntType = 1"
| "tdepth UIntType = 1"
| "tdepth BoolType = 1"
| "tdepth PrincipalType = 1"
| "tdepth (TraitReferenceType _) = 1"
| "tdepth (SequenceType (BufferType _)) = 1"
| "tdepth (SequenceType (StringType _)) = 1"
| "tdepth (TupleType (TupleTypeSignature m)) = 1 + fields_depth m"
| "tdepth (SequenceType (ListType (ListTypeData _ e))) = 1 + tdepth e"
| "tdepth (OptionalType t) = 1 + tdepth t"
| "tdepth (ResponseType t s) = 1 + max (tdepth t) (tdepth s)"
| "fields_depth [] = 0"
| "fields_depth ((_, t) # m) = max (tdepth t) (fields_depth m)"

fun ttsize :: "type_signature \<Rightarrow> nat"
and fields_ttsize :: "(clarity_name \<times> type_signature) list \<Rightarrow> nat" where
  "ttsize NoType = 1"
| "ttsize IntType = 1"
| "ttsize UIntType = 1"
| "ttsize BoolType = 1"
| "ttsize PrincipalType = 1"
| "ttsize (TraitReferenceType _) = 1"
| "ttsize (SequenceType (BufferType _)) = 5"
| "ttsize (SequenceType (StringType _)) = 5"
| "ttsize (TupleType (TupleTypeSignature m)) = 2 * length m + fields_ttsize m"
| "ttsize (SequenceType (ListType (ListTypeData _ e))) = ttsize e + 5"
| "ttsize (OptionalType t) = ttsize t + 1"
| "ttsize (ResponseType t s) = ttsize t + ttsize s + 1"
| "fields_ttsize [] = 0"
| "fields_ttsize ((n, t) # m) = ttsize t + length n + fields_ttsize m"

fun tsize :: "type_signature \<Rightarrow> nat"
and fields_tsize :: "(clarity_name \<times> type_signature) list \<Rightarrow> nat" where
  "tsize NoType = 1"
| "tsize IntType = 16"
| "tsize UIntType = 16"
| "tsize BoolType = 1"
| "tsize PrincipalType = 148"
| "tsize (TraitReferenceType _) = 276"
| "tsize (SequenceType (BufferType (BufferLength n))) = 4 + unat n"
| "tsize (SequenceType (StringType (StrASCII (BufferLength n)))) = 4 + unat n"
| "tsize (SequenceType (StringType (StrUTF8 (StringUTF8Length n)))) = 4 + 4 * unat n"
| "tsize (TupleType (TupleTypeSignature m)) =
     2 * length m + (2 * length m + fields_ttsize m) + fields_tsize m"
| "tsize (SequenceType (ListType (ListTypeData n e))) = tsize e * unat n + (ttsize e + 5)"
| "tsize (OptionalType t) = tsize t + 1"
| "tsize (ResponseType t s) = max (tsize t) (tsize s) + 1"
| "fields_tsize [] = 0"
| "fields_tsize ((n, t) # m) = tsize t + length n + fields_tsize m"

text \<open>
  A type is well-formed when it could have been returned by the constructors: lengths within
  the newtype bounds, and every composite within \<open>MAX_TYPE_DEPTH\<close> and \<open>MAX_VALUE_SIZE\<close>.
  Field names are at most \<open>MAX_STRING_LEN\<close> = 128 bytes long
  (\<open>clarity/src/vm/representations.rs\<close>).
\<close>

fun wf_type :: "type_signature \<Rightarrow> bool"
and wf_fields :: "(clarity_name \<times> type_signature) list \<Rightarrow> bool" where
  "wf_type NoType = True"
| "wf_type IntType = True"
| "wf_type UIntType = True"
| "wf_type BoolType = True"
| "wf_type PrincipalType = True"
| "wf_type (TraitReferenceType _) = True"
| "wf_type (SequenceType (BufferType (BufferLength n))) = (unat n \<le> 1048576)"
| "wf_type (SequenceType (StringType (StrASCII (BufferLength n)))) = (unat n \<le> 1048576)"
| "wf_type (SequenceType (StringType (StrUTF8 (StringUTF8Length n)))) = (4 * unat n \<le> 1048576)"
| "wf_type (TupleType (TupleTypeSignature m)) =
     (m \<noteq> [] \<and> btree_wf m \<and> wf_fields m \<and> fields_depth m < 32
      \<and> tsize (TupleType (TupleTypeSignature m)) \<le> 1048576)"
| "wf_type (SequenceType (ListType (ListTypeData n e))) =
     (wf_type e \<and> tdepth e < 32 \<and> tsize (SequenceType (ListType (ListTypeData n e))) \<le> 1048576)"
| "wf_type (OptionalType t) = (wf_type t \<and> tdepth t < 32 \<and> tsize t + 1 \<le> 1048576)"
| "wf_type (ResponseType t s) =
     (wf_type t \<and> wf_type s \<and> tdepth t < 32 \<and> tdepth s < 32
      \<and> tsize t + 1 \<le> 1048576 \<and> tsize s + 1 \<le> 1048576)"
| "wf_fields [] = True"
| "wf_fields ((n, t) # m) = (length n \<le> 128 \<and> wf_type t \<and> wf_fields m)"

text \<open>
  The types on which admission is reflexive: \<open>NoType\<close> stands only under an option, in one half
  of a response or as the entry type of an empty list. The types of values are of this kind.
\<close>

fun concrete_type :: "type_signature \<Rightarrow> bool"
and concrete_fields :: "(clarity_name \<times> type_signature) list \<Rightarrow> bool" where
  "concrete_type NoType = False"
| "concrete_type IntType = True"
| "concrete_type UIntType = True"
| "concrete_type BoolType = True"
| "concrete_type PrincipalType = True"
| "concrete_type (TraitReferenceType _) = True"
| "concrete_type (SequenceType (BufferType _)) = True"
| "concrete_type (SequenceType (StringType _)) = True"
| "concrete_type (TupleType (TupleTypeSignature m)) = concrete_fields m"
| "concrete_type (SequenceType (ListType (ListTypeData n e))) = (n = 0 \<or> concrete_type e)"
| "concrete_type (OptionalType t) = (t = NoType \<or> concrete_type t)"
| "concrete_type (ResponseType t s) =
     ((t = NoType \<and> concrete_type s) \<or> (s = NoType \<and> concrete_type t)
      \<or> (concrete_type t \<and> concrete_type s))"
| "concrete_fields [] = True"
| "concrete_fields ((_, t) # m) = (concrete_type t \<and> concrete_fields m)"

text \<open>
  Two types agree on their tuples when tuples in corresponding positions have the same number
  of fields.
\<close>

fun same_fields :: "type_signature \<Rightarrow> type_signature \<Rightarrow> bool"
and same_fields_loop :: "(clarity_name \<times> type_signature) list
    \<Rightarrow> (clarity_name \<times> type_signature) list \<Rightarrow> bool" where
  "same_fields (TupleType (TupleTypeSignature ma)) b =
     (case b of
        TupleType (TupleTypeSignature mb) \<Rightarrow> length ma = length mb \<and> same_fields_loop ma mb
      | _ \<Rightarrow> True)"
| "same_fields (SequenceType (ListType (ListTypeData _ e))) b =
     (case b of SequenceType (ListType (ListTypeData _ f)) \<Rightarrow> same_fields e f | _ \<Rightarrow> True)"
| "same_fields (OptionalType t) b = (case b of OptionalType u \<Rightarrow> same_fields t u | _ \<Rightarrow> True)"
| "same_fields (ResponseType t s) b =
     (case b of ResponseType u v \<Rightarrow> same_fields t u \<and> same_fields s v | _ \<Rightarrow> True)"
| "same_fields (SequenceType (BufferType _)) b = True"
| "same_fields (SequenceType (StringType _)) b = True"
| "same_fields NoType b = True"
| "same_fields IntType b = True"
| "same_fields UIntType b = True"
| "same_fields BoolType b = True"
| "same_fields PrincipalType b = True"
| "same_fields (TraitReferenceType _) b = True"
| "same_fields_loop [] mb = True"
| "same_fields_loop ((n, t) # ma) mb =
     ((case map_of mb n of Some u \<Rightarrow> same_fields t u | None \<Rightarrow> True) \<and> same_fields_loop ma mb)"

section \<open>Lemmas on sizes and depths\<close>

lemma unat_MAX_VALUE_SIZE [simp]: "unat MAX_VALUE_SIZE = 1048576"
  by (simp add: MAX_VALUE_SIZE_def)

lemma type_induct [case_names NoType IntType UIntType BoolType PrincipalType Trait Buffer ASCII
    UTF8 List Optional Response Tuple]:
  assumes "P NoType" "P IntType" "P UIntType" "P BoolType" "P PrincipalType"
    and "\<And>i. P (TraitReferenceType i)"
    and "\<And>n. P (SequenceType (BufferType (BufferLength n)))"
    and "\<And>n. P (SequenceType (StringType (StrASCII (BufferLength n))))"
    and "\<And>n. P (SequenceType (StringType (StrUTF8 (StringUTF8Length n))))"
    and "\<And>n e. P e \<Longrightarrow> P (SequenceType (ListType (ListTypeData n e)))"
    and "\<And>t. P t \<Longrightarrow> P (OptionalType t)"
    and "\<And>t s. P t \<Longrightarrow> P s \<Longrightarrow> P (ResponseType t s)"
    and "\<And>m. (\<And>n t. (n, t) \<in> set m \<Longrightarrow> P t) \<Longrightarrow> P (TupleType (TupleTypeSignature m))"
  shows "P t"
proof (induction t rule: measure_induct_rule [of size])
  case (less t)
  have fields: "size u < size (TupleType (TupleTypeSignature m))" if "(n, u) \<in> set m" for n u m
    using that by (induction m) auto
  show ?case
    using less.IH by (cases t rule: wf_type.cases) (auto intro!: assms dest: fields)
qed

lemma wf_fieldsD:
  "wf_fields m \<Longrightarrow> (n, t) \<in> set m \<Longrightarrow> wf_type t \<and> length n \<le> 128"
  by (induction m) auto

lemma fields_depth_le: "(n, t) \<in> set m \<Longrightarrow> tdepth t \<le> fields_depth m"
  by (induction m) auto

lemma tdepth_pos: "0 < tdepth t"
  by (cases t rule: wf_type.cases) auto

lemma wf_tdepth: "wf_type t \<Longrightarrow> tdepth t \<le> 32"
  by (cases t rule: wf_type.cases) auto

lemma wf_tsize: "wf_type t \<Longrightarrow> tsize t \<le> 1048580"
  by (cases t rule: wf_type.cases) auto

lemma max_depth_loop_eq:
  "\<lbrakk>\<forall>(n, t) \<in> set m. depth t = of_nat (tdepth t); fields_depth m < 256\<rbrakk> \<Longrightarrow>
    max_depth_loop m k = max k (of_nat (fields_depth m))"
  by (induction m arbitrary: k)
    (auto simp: of_nat_max_word [symmetric] max.assoc simp del: of_nat_max)

lemma depth_eq: "wf_type t \<Longrightarrow> depth t = of_nat (tdepth t)"
proof (induction t rule: type_induct)
  case (Response t s)
  then show ?case by (simp add: of_nat_max_word del: of_nat_max)
next
  case (Tuple m)
  then have "\<forall>(n, t) \<in> set m. depth t = of_nat (tdepth t)" by (auto dest: wf_fieldsD)
  with Tuple.prems show ?case by (simp add: max_depth_loop_eq)
qed simp_all

lemma tuple_type_size_loop_eq:
  "\<lbrakk>\<forall>(n, t) \<in> set m.
      inner_type_size t = (if ttsize t < 2 ^ 32 then Some (of_nat (ttsize t)) else None);
    wf_fields m; k < 2 ^ 32\<rbrakk> \<Longrightarrow>
    tuple_type_size_loop m (of_nat k) =
      (if k + fields_ttsize m < 2 ^ 32 then Some (of_nat (k + fields_ttsize m)) else None)"
  by (induction m arbitrary: k)
    (auto simp: rust_simps add.assoc bind_eq_None_conv simp del: of_nat_add split: if_splits)

lemma inner_type_size_eq:
  "wf_type t \<Longrightarrow>
    inner_type_size t = (if ttsize t < 2 ^ 32 then Some (of_nat (ttsize t)) else None)"
proof (induction t rule: type_induct)
  case (List n e)
  then show ?case
    by (simp add: rust_simps MAX_VALUE_SIZE_def del: of_nat_add)
next
  case (Tuple m)
  then have "\<forall>(n, t) \<in> set m.
      inner_type_size t = (if ttsize t < 2 ^ 32 then Some (of_nat (ttsize t)) else None)"
    by (auto dest: wf_fieldsD)
  moreover from Tuple.prems have "wf_fields m" "2 * length m + fields_ttsize m \<le> 1048576" by auto
  ultimately show ?case
    using tuple_type_size_loop_eq [of m "length m * 2"]
    by (simp add: rust_simps MAX_VALUE_SIZE_def mult.commute del: of_nat_mult of_nat_add)
next
  case (Optional t)
  then show ?case by (simp add: rust_simps del: of_nat_add of_nat_Suc)
next
  case (Response t s)
  then show ?case by (auto simp add: rust_simps simp del: of_nat_add of_nat_Suc)
qed simp_all


lemma tuple_inner_size_loop_eq:
  "\<lbrakk>\<forall>(n, t) \<in> set m. inner_size t = Ok (of_nat (tsize t)); wf_fields m; k < 2 ^ 32\<rbrakk> \<Longrightarrow>
    tuple_inner_size_loop m (of_nat k) =
      (if k + fields_tsize m < 2 ^ 32 then Ok (of_nat (k + fields_tsize m)) else Err ())"
proof (induction m arbitrary: k)
  case (Cons f m)
  obtain n t where f: "f = (n, t)" by (cases f)
  with Cons.prems have "tsize t < 2 ^ 32" by (auto dest: wf_tsize)
  with Cons f show ?case
    by (auto simp: rust_simps add.assoc simp del: of_nat_add)
qed simp

lemma tuple_inner_size_eq:
  assumes "\<forall>(n, t) \<in> set m. inner_size t = Ok (of_nat (tsize t))" and wf: "wf_fields m"
  shows "tuple_inner_size (TupleTypeSignature m) =
    (if tsize (TupleType (TupleTypeSignature m)) \<le> 1048576
     then Ok (of_nat (tsize (TupleType (TupleTypeSignature m)))) else Err ())"
proof -
  define start where "start = 2 * length m + fields_ttsize m"
  have types: "\<forall>(n, t) \<in> set m.
      inner_type_size t = (if ttsize t < 2 ^ 32 then Some (of_nat (ttsize t)) else None)"
    using wf by (auto dest: wf_fieldsD simp: inner_type_size_eq)
  have ts: "tuple_type_size (TupleTypeSignature m) =
      (if start \<le> 1048576 then Some (of_nat start) else None)"
  proof (cases "length m * 2 < 2 ^ 32")
    case True
    with tuple_type_size_loop_eq [OF types wf, of "length m * 2"] show ?thesis
      by (auto simp: start_def rust_simps MAX_VALUE_SIZE_def mult.commute
          simp del: of_nat_mult of_nat_add)
  next
    case False
    then show ?thesis
      by (cases "length m < 2 ^ 32") (auto simp: start_def rust_simps try_from_nat_def)
  qed
  have tz: "tsize (TupleType (TupleTypeSignature m)) = length m * 2 + start + fields_tsize m"
    by (simp add: start_def)
  let ?size = "length m * 2 + start + fields_tsize m"
  have "tuple_inner_size (TupleTypeSignature m) =
      (if ?size \<le> 1048576 then Ok (of_nat ?size) else Err ())"
  proof (cases "start \<le> 1048576")
    case True
    then have "length m * 2 + start < 2 ^ 32" by (simp add: start_def)
    with True tuple_inner_size_loop_eq [OF assms, of "length m * 2 + start"] ts show ?thesis
      by (auto simp: rust_simps MAX_VALUE_SIZE_def simp del: of_nat_mult of_nat_add
          tuple_type_size.simps)
  next
    case False
    then show ?thesis
      by (cases "length m < 2 ^ 32")
        (auto simp: ts try_from_nat_def and_then_eq_Err simp del: tuple_type_size.simps
          split: option.split)
  qed
  then show ?thesis by (simp only: tz)
qed

lemma list_inner_size_eq:
  assumes "inner_size e = Ok (of_nat (tsize e))" "wf_type e"
  shows "list_inner_size (ListTypeData n e) =
    (if tsize (SequenceType (ListType (ListTypeData n e))) \<le> 1048576
     then Ok (of_nat (tsize (SequenceType (ListType (ListTypeData n e))))) else Err ())"
proof -
  have n: "n = of_nat (unat n)" by simp
  have bounds: "tsize e < 2 ^ 32" "unat n < 2 ^ 32"
    using wf_tsize [OF assms(2)] unat_lt [of n] by simp_all
  have lt: "list_type_size (ListTypeData n e) =
      (if ttsize e + 5 \<le> 1048576 then Some (of_nat (ttsize e + 5)) else None)"
    using assms(2)
    by (auto simp: inner_type_size_eq rust_simps MAX_VALUE_SIZE_def simp del: of_nat_add)
  have mul: "checked_mul (of_nat (tsize e)) n =
      (if tsize e * unat n < 2 ^ 32 then Some (of_nat (tsize e * unat n)) else None)"
    by (subst n, subst of_nat_checked_mul) (use bounds in simp_all)
  show ?thesis
    using assms bounds
    by (auto simp: lt mul rust_simps MAX_VALUE_SIZE_def add.assoc
        simp del: of_nat_add of_nat_mult list_type_size.simps)
qed

lemma inner_size_eq: "wf_type t \<Longrightarrow> inner_size t = Ok (of_nat (tsize t))"
proof (induction t rule: type_induct)
  case (Tuple m)
  then have "\<forall>(n, t) \<in> set m. inner_size t = Ok (of_nat (tsize t))"
    by (auto dest: wf_fieldsD)
  with Tuple.prems show ?case
    by (simp add: tuple_inner_size_eq del: tsize.simps tuple_inner_size.simps)
next
  case (List n e)
  then show ?case
    by (simp add: list_inner_size_eq del: tsize.simps list_inner_size.simps)
next
  case (Optional t)
  then show ?case by (simp add: rust_simps WRAPPER_VALUE_SIZE_def)
next
  case (Response t s)
  then show ?case
    by (simp add: rust_simps WRAPPER_VALUE_SIZE_def del: of_nat_max)
qed simp_all

lemma sig_size_eq [simp]: "wf_type t \<Longrightarrow> sig_size t = Ok (of_nat (tsize t))"
  by (simp add: sig_size_def inner_size_eq)

lemma new_list_eq:
  assumes "wf_type e"
  shows "new_list e n =
    (if 32 \<le> tdepth e then Err TypeSignatureTooDeep
     else if tsize (SequenceType (ListType (ListTypeData n e))) \<le> 1048576
       then Ok (ListTypeData n e) else Err ValueTooLarge)"
proof -
  have "MAX_TYPE_DEPTH < 1 + depth e \<longleftrightarrow> 32 \<le> tdepth e"
    using wf_tdepth [OF assms] of_nat_less_word [where ?'a = 8, of 32 "1 + tdepth e"]
    by (auto simp: MAX_TYPE_DEPTH_def depth_eq assms)
  moreover have "\<not> MAX_VALUE_SIZE < (of_nat k :: u32)" if "k \<le> 1048576" for k
    using that by (simp add: MAX_VALUE_SIZE_def rust_simps)
  ultimately show ?thesis
    unfolding new_list_def Let_def list_inner_size_eq [OF inner_size_eq [OF assms] assms]
    by (simp del: tsize.simps)
qed


lemma depth_exceeds_iff:
  "tdepth t \<le> 32 \<Longrightarrow> MAX_TYPE_DEPTH < 1 + (of_nat (tdepth t) :: u8) \<longleftrightarrow> 32 \<le> tdepth t"
  using of_nat_less_word [where ?'a = 8, of 32 "1 + tdepth t"] by (auto simp: MAX_TYPE_DEPTH_def)

lemma size_exceeds_iff:
  "k \<le> 1048580 \<Longrightarrow> MAX_VALUE_SIZE < WRAPPER_VALUE_SIZE + (of_nat k :: u32) \<longleftrightarrow> 1048576 < k + 1"
  using of_nat_less_word [where ?'a = 32, of 1048576 "1 + k"]
  by (simp add: MAX_VALUE_SIZE_def WRAPPER_VALUE_SIZE_def)

lemma new_option_eq:
  assumes "wf_type t"
  shows "new_option t =
    (if 1048576 < tsize t + 1 then Err ValueTooLarge
     else if 32 \<le> tdepth t then Err TypeSignatureTooDeep
     else Ok (OptionalType t))"
  using assms wf_tdepth [OF assms] wf_tsize [OF assms]
  by (simp add: new_option_def depth_eq depth_exceeds_iff size_exceeds_iff)

lemma new_response_eq:
  assumes "wf_type t" "wf_type s"
  shows "new_response t s =
    (if 1048576 < max (tsize t) (tsize s) + 1 then Err ValueTooLarge
     else if 32 \<le> max (tdepth t) (tdepth s) then Err TypeSignatureTooDeep
     else Ok (ResponseType t s))"
proof -
  have "max (depth t) (depth s) = of_nat (max (tdepth t) (tdepth s))"
    using assms wf_tdepth [OF assms(1)] wf_tdepth [OF assms(2)]
    by (simp add: depth_eq of_nat_max_word del: of_nat_max)
  moreover have "max (of_nat (tsize t)) (of_nat (tsize s) :: u32) =
      of_nat (max (tsize t) (tsize s))"
    using wf_tsize [OF assms(1)] wf_tsize [OF assms(2)]
    by (simp add: of_nat_max_word del: of_nat_max)
  moreover have "MAX_TYPE_DEPTH < 1 + (of_nat (max (tdepth t) (tdepth s)) :: u8) \<longleftrightarrow>
      32 \<le> max (tdepth t) (tdepth s)"
    using wf_tdepth [OF assms(1)] wf_tdepth [OF assms(2)] depth_exceeds_iff [of t]
      depth_exceeds_iff [of s]
    by (simp add: max_def)
  moreover have "MAX_VALUE_SIZE < WRAPPER_VALUE_SIZE + (of_nat (max (tsize t) (tsize s)) :: u32)
      \<longleftrightarrow> 1048576 < max (tsize t) (tsize s) + 1"
    using wf_tsize [OF assms(1)] wf_tsize [OF assms(2)] by (intro size_exceeds_iff) simp
  ultimately show ?thesis
    using assms by (simp add: new_response_def del: of_nat_max)
qed

lemma fields_depth_ge_iff: "0 < k \<Longrightarrow> k \<le> fields_depth m \<longleftrightarrow> (\<exists>(n, t) \<in> set m. k \<le> tdepth t)"
  by (induction m) (auto simp: le_max_iff_disj)

lemma tuple_try_from_map_eq:
  assumes "wf_fields m"
  shows "tuple_try_from_map m =
    (if m = [] then Err EmptyTuplesNotAllowed
     else if 32 \<le> fields_depth m then Err TypeSignatureTooDeep
     else if tsize (TupleType (TupleTypeSignature m)) \<le> 1048576
       then Ok (TupleTypeSignature m) else Err ValueTooLarge)"
proof -
  have "(n, t) \<in> set m \<Longrightarrow> MAX_TYPE_DEPTH < 1 + depth t \<longleftrightarrow> 32 \<le> tdepth t" for n t
    using assms by (metis depth_eq depth_exceeds_iff wf_fieldsD wf_tdepth)
  then have "list_ex (\<lambda>(_, t). MAX_TYPE_DEPTH < 1 + depth t) m \<longleftrightarrow> 32 \<le> fields_depth m"
    by (fastforce simp: list_ex_iff fields_depth_ge_iff)
  moreover have "\<forall>(n, t) \<in> set m. inner_size t = Ok (of_nat (tsize t))"
    using assms by (auto dest: wf_fieldsD inner_size_eq)
  moreover have "\<not> MAX_VALUE_SIZE < (of_nat k :: u32)" if "k \<le> 1048576" for k
    using that by (simp add: MAX_VALUE_SIZE_def rust_simps)
  ultimately show ?thesis
    using assms by (auto simp: tuple_try_from_map_def tuple_inner_size_eq
        simp del: tsize.simps tuple_inner_size.simps)
qed

lemmas constructor_eqs = new_list_eq new_option_eq new_response_eq tuple_try_from_map_eq

lemma new_list_wf: "wf_type e \<Longrightarrow> new_list e n = Ok l \<Longrightarrow> wf_type (SequenceType (ListType l))"
  by (auto simp: new_list_eq split: if_splits)

lemma list_of_wf: "wf_type e \<Longrightarrow> list_of e n = Ok t \<Longrightarrow> wf_type t"
  by (auto simp: list_of_def dest: new_list_wf)

lemma new_option_wf: "wf_type e \<Longrightarrow> new_option e = Ok t \<Longrightarrow> wf_type t"
  by (auto simp: new_option_eq split: if_splits)

lemma new_response_wf: "wf_type e \<Longrightarrow> wf_type f \<Longrightarrow> new_response e f = Ok t \<Longrightarrow> wf_type t"
  by (auto simp: new_response_eq split: if_splits)

lemma tuple_try_from_map_wf:
  "\<lbrakk>wf_fields m; btree_wf m; tuple_try_from_map m = Ok ts\<rbrakk> \<Longrightarrow> wf_type (TupleType ts)"
  by (auto simp: tuple_try_from_map_eq split: if_splits)

lemma wf_fields_iff: "wf_fields m \<longleftrightarrow> (\<forall>(n, t) \<in> set m. length n \<le> 128 \<and> wf_type t)"
  by (induction m) auto

lemma btree_mem_iff: "btree_wf m \<Longrightarrow> (k, v) \<in> set m \<longleftrightarrow> map_of m k = Some v"
  by (simp add: btree_wf_distinct map_of_eq_Some_iff)

lemma set_btree_insert:
  "btree_wf m \<Longrightarrow> set (btree_insert k v m) = insert (k, v) {e \<in> set m. fst e \<noteq> k}"
  by (auto simp: btree_mem_iff split: if_splits)

lemma wf_fields_btree_insert:
  "\<lbrakk>wf_fields m; btree_wf m; length n \<le> 128; wf_type t\<rbrakk> \<Longrightarrow> wf_fields (btree_insert n t m)"
  by (auto simp: wf_fields_iff set_btree_insert)

lemma tuple_collect_wf:
  "\<lbrakk>tuple_collect m d = Ok m'; wf_fields m; btree_wf m; wf_fields d\<rbrakk> \<Longrightarrow>
    wf_fields m' \<and> btree_wf m' \<and> map_of m' = map_of (rev d @ m)"
proof (induction m d rule: tuple_collect.induct)
  case (2 m n t d)
  then have "wf_fields m' \<and> btree_wf m' \<and> map_of m' = map_of (rev d @ btree_insert n t m)"
    by (auto simp: wf_fields_btree_insert split: if_splits)
  then show ?case by (auto simp: map_add_def fun_eq_iff split: option.splits)
qed simp

lemma tuple_try_from_vec_wf:
  "\<lbrakk>wf_fields d; tuple_try_from_vec d = Ok ts\<rbrakk> \<Longrightarrow> wf_type (TupleType ts)"
  by (auto simp: tuple_try_from_vec_def split: if_splits
      dest!: tuple_collect_wf intro: tuple_try_from_map_wf)


section \<open>Lemmas on admission and least supertypes\<close>

lemma tuple_admits_loop_True:
  "tuple_admits_loop m om = Ok True \<longleftrightarrow>
    (\<forall>(n, t) \<in> set m. \<exists>u. map_of om n = Some u \<and> admits_type t u = Ok True)"
  by (induction m) (auto split: option.splits if_splits simp: ex_bool_eq)

lemma concrete_fields_iff: "concrete_fields m \<longleftrightarrow> (\<forall>(n, t) \<in> set m. concrete_type t)"
  by (induction m) auto

lemma wf_tupleD:
  assumes "wf_type (TupleType (TupleTypeSignature m))"
  shows "btree_wf m" "distinct (map fst m)" "m \<noteq> []"
    "(n, t) \<in> set m \<Longrightarrow> wf_type t" "(n, t) \<in> set m \<Longrightarrow> length n \<le> 128"
    "map_of m n = Some t \<longleftrightarrow> (n, t) \<in> set m"
  using assms btree_mem_iff [of m n t] by (auto dest: wf_fieldsD btree_wf_distinct)

lemma admits_type_not_NoType [simp]: "admits_type t NoType \<noteq> Ok True"
  by (cases t rule: wf_type.cases) auto

lemma admits_List_iff:
  "admits_type (SequenceType (ListType (ListTypeData n e))) b = Ok True \<longleftrightarrow>
    (\<exists>m f. b = SequenceType (ListType (ListTypeData m f)) \<and>
      (m = 0 \<or> m \<le> n \<and> admits_type e f = Ok True))"
  by (cases b rule: wf_type.cases) auto

lemma admits_Buffer_iff:
  "admits_type (SequenceType (BufferType (BufferLength n))) b = Ok True \<longleftrightarrow>
    (\<exists>m. b = SequenceType (BufferType (BufferLength m)) \<and> m \<le> n)"
  by (cases b rule: wf_type.cases) auto

lemma admits_ASCII_iff:
  "admits_type (SequenceType (StringType (StrASCII (BufferLength n)))) b = Ok True \<longleftrightarrow>
    (\<exists>m. b = SequenceType (StringType (StrASCII (BufferLength m))) \<and> m \<le> n)"
  by (cases b rule: wf_type.cases) auto

lemma admits_UTF8_iff:
  "admits_type (SequenceType (StringType (StrUTF8 (StringUTF8Length n)))) b = Ok True \<longleftrightarrow>
    (\<exists>m. b = SequenceType (StringType (StrUTF8 (StringUTF8Length m))) \<and> m \<le> n)"
  by (cases b rule: wf_type.cases) auto

lemma admits_Optional_iff:
  "admits_type (OptionalType t) b = Ok True \<longleftrightarrow>
    (\<exists>u. b = OptionalType u \<and> (u = NoType \<or> admits_type t u = Ok True))"
  by (cases b rule: wf_type.cases) (auto simp: is_no_type_def)

lemma admits_Response_iff:
  "admits_type (ResponseType t s) b = Ok True \<longleftrightarrow>
    (\<exists>u v. b = ResponseType u v \<and>
      (u = NoType \<and> admits_type s v = Ok True \<or> v = NoType \<and> admits_type t u = Ok True
       \<or> admits_type t u = Ok True \<and> admits_type s v = Ok True))"
  by (cases b rule: wf_type.cases) (auto simp: is_no_type_def ex_bool_eq)

lemma admits_Tuple_iff:
  "admits_type (TupleType (TupleTypeSignature m)) b = Ok True \<longleftrightarrow>
    (\<exists>mb. b = TupleType (TupleTypeSignature mb) \<and> length m = length mb \<and>
      (\<forall>(n, t) \<in> set m. \<exists>u. map_of mb n = Some u \<and> admits_type t u = Ok True))"
  by (cases b rule: wf_type.cases) (auto simp: tuple_admits_loop_True)

lemmas admits_iffs = admits_List_iff admits_Buffer_iff admits_ASCII_iff admits_UTF8_iff
  admits_Optional_iff admits_Response_iff admits_Tuple_iff

declare admits_type.simps(1-7) [simp del]

lemma admits_refl_iff:
  "wf_type t \<Longrightarrow> admits_type t t = Ok True \<longleftrightarrow> concrete_type t"
proof (induction t rule: type_induct)
  case (Tuple m)
  have "(n, t) \<in> set m \<Longrightarrow> map_of m n = Some t" for n t
    using wf_tupleD [OF Tuple.prems] by simp
  moreover have "(n, t) \<in> set m \<Longrightarrow> admits_type t t = Ok True \<longleftrightarrow> concrete_type t" for n t
    using Tuple.IH wf_tupleD(4) [OF Tuple.prems] by blast
  ultimately show ?case
    by (fastforce simp: admits_iffs concrete_fields_iff)
qed (auto simp: admits_iffs)

lemma admits_trans:
  "\<lbrakk>admits_type a b = Ok True; admits_type b c = Ok True\<rbrakk> \<Longrightarrow> admits_type a c = Ok True"
proof (induction a arbitrary: b c rule: type_induct)
  case (Tuple m)
  then obtain mb mc where bc: "b = TupleType (TupleTypeSignature mb)"
      "c = TupleType (TupleTypeSignature mc)"
    by (auto simp: admits_iffs)
  with Tuple.prems have
    "\<And>n t. (n, t) \<in> set m \<Longrightarrow> \<exists>u. map_of mb n = Some u \<and> admits_type t u = Ok True"
    "\<And>n t. (n, t) \<in> set mb \<Longrightarrow> \<exists>u. map_of mc n = Some u \<and> admits_type t u = Ok True"
    by (auto simp: admits_iffs)
  then have "\<exists>u. map_of mc n = Some u \<and> admits_type t u = Ok True" if "(n, t) \<in> set m" for n t
    using that Tuple.IH [OF that] by (blast dest: map_of_SomeD)
  with Tuple.prems show ?case by (auto simp: bc admits_iffs)
next
  case (List n e)
  from List.prems show ?case 
    by (auto simp: admits_iffs) (blast intro: List.IH order_trans)+
next
  case (Optional t)
  from Optional.prems show ?case
    by (auto simp: admits_iffs) (blast intro: Optional.IH)+
next
  case (Response t s)
  from Response.prems show ?case
    by (auto simp: admits_iffs) (blast intro: Response.IH)+
qed (auto simp: admits_iffs)

text \<open>What the field loop of \<open>least_supertype\<close> computes.\<close>

lemma least_supertype_fields_spec:
  assumes "least_supertype_fields err ma mb out = Ok out'" "distinct (map fst ma)" "btree_wf out"
  shows "btree_wf out' \<and> (\<forall>n. map_of ma n = None \<longrightarrow> map_of out' n = map_of out n) \<and>
    (\<forall>(n, ta) \<in> set ma. \<exists>tb t. map_of mb n = Some tb \<and> least_supertype ta tb = Ok t
      \<and> map_of out' n = Some t)"
  using assms
proof (induction ma arbitrary: out)
  case (Cons f ma)
  obtain n ta where f: "f = (n, ta)" by (cases f)
  from Cons.prems obtain tb t where step: "map_of mb n = Some tb" "least_supertype ta tb = Ok t"
      "least_supertype_fields err ma mb (btree_insert n t out) = Ok out'"
    by (auto simp: f)
  from Cons.prems(2) have n: "map_of ma n = None" by (auto simp: f map_of_eq_None_iff)
  from Cons.IH [OF step(3)] Cons.prems(2,3) have
    IH: "btree_wf out'" "\<forall>k. map_of ma k = None \<longrightarrow> map_of out' k = map_of (btree_insert n t out) k"
      "\<forall>(n, ta) \<in> set ma. \<exists>tb t. map_of mb n = Some tb \<and> least_supertype ta tb = Ok t
        \<and> map_of out' n = Some t"
    by (simp_all add: f)
  from IH(2) n have "map_of out' n = Some t" by simp
  with IH step(1,2) show ?case by (simp add: f)
qed simp

lemma least_supertype_Tuple_iff:
  "least_supertype (TupleType (TupleTypeSignature ma)) b = Ok t \<longleftrightarrow>
    (\<exists>mb out ts. b = TupleType (TupleTypeSignature mb) \<and>
      least_supertype_fields (TypeError (TupleType (TupleTypeSignature ma)) b) ma mb [] = Ok out \<and>
      tuple_try_from_map out = Ok ts \<and> t = TupleType ts)
    \<or> b = NoType \<and> t = TupleType (TupleTypeSignature ma)"
  by (cases b rule: wf_type.cases) (auto simp: supertype_atom_def)

lemma least_supertype_List_iff:
  "least_supertype (SequenceType (ListType (ListTypeData n e))) b = Ok t \<longleftrightarrow>
    (\<exists>m f g. b = SequenceType (ListType (ListTypeData m f)) \<and>
      (if n = 0 then g = f else if m = 0 then g = e else least_supertype e f = Ok g) \<and>
      list_of g (max n m) = Ok t)
    \<or> b = NoType \<and> t = SequenceType (ListType (ListTypeData n e))"
  by (cases b rule: wf_type.cases) (auto simp: supertype_atom_def)

lemma least_supertype_Optional_iff:
  "least_supertype (OptionalType u) b = Ok t \<longleftrightarrow>
    (\<exists>v w. b = OptionalType v \<and> factor_out_no_type u v = Ok w \<and> new_option w = Ok t)
    \<or> b = NoType \<and> t = OptionalType u"
  by (cases b rule: wf_type.cases) (auto simp: supertype_atom_def)

lemma least_supertype_Response_iff:
  "least_supertype (ResponseType p q) b = Ok t \<longleftrightarrow>
    (\<exists>r s u v. b = ResponseType r s \<and> factor_out_no_type p r = Ok u \<and>
      factor_out_no_type q s = Ok v \<and> new_response u v = Ok t)
    \<or> b = NoType \<and> t = ResponseType p q"
  by (cases b rule: wf_type.cases) (auto simp: supertype_atom_def)

lemma least_supertype_leaf_iffs:
  "least_supertype (SequenceType (BufferType (BufferLength n))) b = Ok t \<longleftrightarrow>
    (\<exists>m. b = SequenceType (BufferType (BufferLength m)) \<and>
      t = SequenceType (BufferType (BufferLength (max n m))))
    \<or> b = NoType \<and> t = SequenceType (BufferType (BufferLength n))"
  "least_supertype (SequenceType (StringType (StrASCII (BufferLength n)))) b = Ok t \<longleftrightarrow>
    (\<exists>m. b = SequenceType (StringType (StrASCII (BufferLength m))) \<and>
      t = SequenceType (StringType (StrASCII (BufferLength (max n m)))))
    \<or> b = NoType \<and> t = SequenceType (StringType (StrASCII (BufferLength n)))"
  "least_supertype (SequenceType (StringType (StrUTF8 (StringUTF8Length k)))) b = Ok t \<longleftrightarrow>
    (\<exists>m. b = SequenceType (StringType (StrUTF8 (StringUTF8Length m))) \<and>
      t = SequenceType (StringType (StrUTF8 (StringUTF8Length (max k m)))))
    \<or> b = NoType \<and> t = SequenceType (StringType (StrUTF8 (StringUTF8Length k)))"
  by (cases b rule: wf_type.cases; auto simp: supertype_atom_def max_def)+

lemmas least_supertype_iffs = least_supertype_Tuple_iff least_supertype_List_iff
  least_supertype_Optional_iff least_supertype_Response_iff least_supertype_leaf_iffs

declare least_supertype.simps(1-7) [simp del]

lemma max_word_cases:
  "unat (max x y) \<le> k \<longleftrightarrow> unat x \<le> k \<and> unat (y :: 'a::len word) \<le> k"
  by (auto simp: max_def word_le_nat_alt)

lemma least_supertype_TupleE:
  assumes "least_supertype (TupleType (TupleTypeSignature ma)) b = Ok t" "btree_wf ma" "b \<noteq> NoType"
  obtains mb out where "b = TupleType (TupleTypeSignature mb)" "t = TupleType (TupleTypeSignature out)"
    "tuple_try_from_map out = Ok (TupleTypeSignature out)" "btree_wf out" "length out = length ma"
    "\<And>n u. (n, u) \<in> set out \<Longrightarrow> \<exists>ta tb. (n, ta) \<in> set ma \<and> map_of ma n = Some ta
      \<and> map_of mb n = Some tb \<and> least_supertype ta tb = Ok u"
    "\<And>n ta. (n, ta) \<in> set ma \<Longrightarrow> \<exists>tb u. map_of mb n = Some tb \<and> least_supertype ta tb = Ok u
      \<and> map_of out n = Some u"
proof -
  from assms obtain mb out ts err where b: "b = TupleType (TupleTypeSignature mb)"
    and out: "least_supertype_fields err ma mb [] = Ok out"
    and ts: "tuple_try_from_map out = Ok ts" "t = TupleType ts"
    unfolding least_supertype_Tuple_iff by blast
  from ts have ts': "ts = TupleTypeSignature out"
    by (auto simp: tuple_try_from_map_def split: if_splits)
  note da = btree_wf_distinct [OF assms(2)]
  note spec = least_supertype_fields_spec [OF out da]
  then have bt: "btree_wf out" by simp
  have none: "map_of ma n = None \<Longrightarrow> map_of out n = None" for n using spec by simp
  have total: "\<exists>tb u. map_of mb n = Some tb \<and> least_supertype ta tb = Ok u
      \<and> map_of out n = Some u" if "(n, ta) \<in> set ma" for n ta
    using spec that by auto
  have fields: "\<exists>ta tb. (n, ta) \<in> set ma \<and> map_of ma n = Some ta
      \<and> map_of mb n = Some tb \<and> least_supertype ta tb = Ok u" if "(n, u) \<in> set out" for n u
  proof -
    from that bt have u: "map_of out n = Some u" by (simp add: btree_mem_iff)
    then have "map_of ma n \<noteq> None" using none [of n] by auto
    then obtain ta where ta: "map_of ma n = Some ta" by blast
    with total [of n ta] u show ?thesis by (auto dest: map_of_SomeD)
  qed
  have "n \<in> dom (map_of out) \<longleftrightarrow> n \<in> dom (map_of ma)" for n
  proof (cases "map_of ma n")
    case None
    with none [of n] show ?thesis by (simp add: domIff)
  next
    case (Some ta)
    with total [of n ta] show ?thesis by (auto dest: map_of_SomeD)
  qed
  then have "set (map fst out) = set (map fst ma)"
    by (simp add: dom_map_of_conv_image_fst set_eq_iff)
  then have len: "length out = length ma"
    using da btree_wf_distinct [OF bt] by (metis distinct_card length_map)
  show thesis
    by (rule that [OF b _ _ bt len fields total]) (use ts ts' in simp_all)
qed

lemma least_supertype_wf:
  "\<lbrakk>least_supertype a b = Ok t; wf_type a; wf_type b\<rbrakk> \<Longrightarrow> wf_type t"
proof (induction a arbitrary: b t rule: type_induct)
  case (Tuple ma)
  show ?case
  proof (cases "b = NoType")
    case False
    with Tuple.prems obtain mb out where b: "b = TupleType (TupleTypeSignature mb)"
      and t: "t = TupleType (TupleTypeSignature out)"
      and out: "tuple_try_from_map out = Ok (TupleTypeSignature out)" "btree_wf out"
      and fields: "\<And>n u. (n, u) \<in> set out \<Longrightarrow> \<exists>ta tb. (n, ta) \<in> set ma \<and> map_of ma n = Some ta
        \<and> map_of mb n = Some tb \<and> least_supertype ta tb = Ok u"
      by (auto elim!: least_supertype_TupleE)
    have "length n \<le> 128 \<and> wf_type u" if "(n, u) \<in> set out" for n u
      using fields [OF that] Tuple.IH wf_tupleD(4,5) [OF Tuple.prems(2)]
        wf_tupleD(4) [OF Tuple.prems(3) [unfolded b]] by (blast dest: map_of_SomeD)
    then have "wf_fields out" by (auto simp: wf_fields_iff)
    with out show ?thesis unfolding t by (blast intro: tuple_try_from_map_wf)
  qed (use Tuple.prems in \<open>auto simp: least_supertype_iffs\<close>)
next
  case (List n e)
  show ?case
  proof (cases "b = NoType")
    case False
    with List.prems obtain m f g where b: "b = SequenceType (ListType (ListTypeData m f))"
      and g: "if n = 0 then g = f else if m = 0 then g = e else least_supertype e f = Ok g"
      and t: "list_of g (max n m) = Ok t"
      by (auto simp: least_supertype_iffs)
    have "wf_type e" "wf_type f" using List.prems b by simp_all
    with g have "wf_type g" by (auto split: if_splits dest: List.IH)
    then show ?thesis using t by (rule list_of_wf)
  qed (use List.prems in \<open>auto simp: least_supertype_iffs\<close>)
next
  case (Optional u)
  then have "factor_out_no_type u v = Ok w \<Longrightarrow> wf_type u \<Longrightarrow> wf_type v \<Longrightarrow> wf_type w" for v w
    by (auto split: if_splits)
  with Optional.prems show ?case
    by (auto simp: least_supertype_iffs simp del: factor_out_no_type.simps intro: new_option_wf [rotated])
next
  case (Response p q)
  then have "factor_out_no_type p v = Ok w \<Longrightarrow> wf_type p \<Longrightarrow> wf_type v \<Longrightarrow> wf_type w"
    "factor_out_no_type q v = Ok w \<Longrightarrow> wf_type q \<Longrightarrow> wf_type v \<Longrightarrow> wf_type w" for v w
    by (auto split: if_splits)
  with Response.prems show ?case
    by (auto simp: least_supertype_iffs simp del: factor_out_no_type.simps
        intro: new_response_wf [rotated 2])
qed (auto simp: least_supertype_iffs supertype_atom_def max_word_cases max_def split: if_splits)

lemma same_fields_loop_iff:
  "same_fields_loop ma mb \<longleftrightarrow>
    (\<forall>(n, t) \<in> set ma. \<forall>u. map_of mb n = Some u \<longrightarrow> same_fields t u)"
  by (induction ma) (auto split: option.splits)

lemma list_of_eq_Ok:
  "list_of e n = Ok t \<Longrightarrow> t = SequenceType (ListType (ListTypeData n e))"
  by (auto simp: list_of_def new_list_def Let_def split: if_splits)

lemma new_option_eq_Ok: "new_option u = Ok t \<Longrightarrow> t = OptionalType u"
  by (auto simp: new_option_def Let_def split: if_splits)

lemma new_response_eq_Ok: "new_response u v = Ok t \<Longrightarrow> t = ResponseType u v"
  by (auto simp: new_response_def Let_def split: if_splits)

lemmas constructor_OkD = list_of_eq_Ok new_option_eq_Ok new_response_eq_Ok

lemma least_supertype_upper:
  "\<lbrakk>least_supertype a b = Ok t; wf_type a; wf_type b; concrete_type a; concrete_type b\<rbrakk> \<Longrightarrow>
    admits_type t a = Ok True \<and> (same_fields a b \<longrightarrow> admits_type t b = Ok True)"
proof (induction a arbitrary: b t rule: type_induct)
  case (Tuple ma)
  have "b \<noteq> NoType" using Tuple.prems(5) by auto
  with Tuple.prems obtain mb out where b: "b = TupleType (TupleTypeSignature mb)"
    and t: "t = TupleType (TupleTypeSignature out)" "length out = length ma"
    and fields: "\<And>n u. (n, u) \<in> set out \<Longrightarrow> \<exists>ta tb. (n, ta) \<in> set ma \<and> map_of ma n = Some ta
      \<and> map_of mb n = Some tb \<and> least_supertype ta tb = Ok u"
    by (auto elim!: least_supertype_TupleE)
  have "\<exists>ta tb. map_of ma n = Some ta \<and> map_of mb n = Some tb \<and> admits_type u ta = Ok True
      \<and> (same_fields_loop ma mb \<longrightarrow> admits_type u tb = Ok True)" if "(n, u) \<in> set out" for n u
  proof -
    from fields [OF that] obtain ta tb where f: "(n, ta) \<in> set ma" "map_of ma n = Some ta"
      "map_of mb n = Some tb" "least_supertype ta tb = Ok u" by blast
    moreover have "wf_type ta" "wf_type tb" "concrete_type ta" "concrete_type tb"
      using f wf_tupleD(4) [OF Tuple.prems(2)] wf_tupleD(4) [OF Tuple.prems(3) [unfolded b]]
        Tuple.prems(4,5)
      by (auto simp: b concrete_fields_iff dest!: map_of_SomeD)
    moreover have "same_fields_loop ma mb \<Longrightarrow> same_fields ta tb"
      using f by (auto simp: same_fields_loop_iff)
    ultimately show ?thesis using Tuple.IH [OF f(1)] by blast
  qed
  then show ?case
    using t by (fastforce simp: b admits_iffs)
next
  case (List n e)
  then obtain m f g where b: "b = SequenceType (ListType (ListTypeData m f))"
    and g: "if n = 0 then g = f else if m = 0 then g = e else least_supertype e f = Ok g"
    and t: "t = SequenceType (ListType (ListTypeData (max n m) g))"
    by (auto simp: least_supertype_iffs dest: constructor_OkD)
  have "n \<noteq> 0 \<Longrightarrow> admits_type g e = Ok True"
    using g List.prems(2-5) List.IH by (auto simp: b admits_refl_iff split: if_splits)
  moreover have "m \<noteq> 0 \<Longrightarrow> same_fields e f \<Longrightarrow> admits_type g f = Ok True"
    using g List.prems(2-5) List.IH by (auto simp: b admits_refl_iff split: if_splits)
  ultimately show ?case by (auto simp: b t admits_iffs)
next
  case (Optional u)
  then obtain v w where "b = OptionalType v" "factor_out_no_type u v = Ok w" "t = OptionalType w"
    by (auto simp: least_supertype_iffs simp del: factor_out_no_type.simps dest: constructor_OkD)
  with Optional show ?case
    by (auto simp: admits_iffs is_no_type_def admits_refl_iff split: if_splits)
next
  case (Response p q)
  then obtain r s u v where b: "b = ResponseType r s" and t: "t = ResponseType u v"
    and f: "factor_out_no_type p r = Ok u" "factor_out_no_type q s = Ok v"
    by (auto simp: least_supertype_iffs simp del: factor_out_no_type.simps dest: constructor_OkD)
  have wf: "wf_type p" "wf_type q" "wf_type r" "wf_type s" using Response.prems(2,3) b by auto
  have "concrete_type p \<Longrightarrow> admits_type u p = Ok True"
    and "concrete_type q \<Longrightarrow> admits_type v q = Ok True"
    and "concrete_type r \<Longrightarrow> same_fields p r \<Longrightarrow> admits_type u r = Ok True"
    and "concrete_type s \<Longrightarrow> same_fields q s \<Longrightarrow> admits_type v s = Ok True"
    using f wf Response.prems(4,5) Response.IH
    by (auto simp: b is_no_type_def admits_refl_iff split: if_splits)
  with Response.prems(4,5) show ?case by (auto simp: b t admits_iffs)
qed (auto simp: least_supertype_iffs supertype_atom_def admits_iffs split: if_splits)

lemma least_supertype_NoType: "least_supertype a b = Ok NoType \<Longrightarrow> a = NoType \<and> b = NoType"
  by (cases a rule: wf_type.cases)
    (auto simp: least_supertype_iffs supertype_atom_def split: if_splits dest: constructor_OkD)

lemma least_supertype_least:
  "\<lbrakk>least_supertype a b = Ok t; admits_type c a = Ok True; admits_type c b = Ok True;
    wf_type a; wf_type b\<rbrakk> \<Longrightarrow> admits_type c t = Ok True"
proof (induction a arbitrary: b c t rule: type_induct)
  case (Tuple ma)
  have "b \<noteq> NoType" using Tuple.prems(3) by auto
  with Tuple.prems(1,4) obtain mb out where b: "b = TupleType (TupleTypeSignature mb)"
    and t: "t = TupleType (TupleTypeSignature out)" "length out = length ma"
    and fields: "\<And>n ta. (n, ta) \<in> set ma \<Longrightarrow> \<exists>tb u. map_of mb n = Some tb
      \<and> least_supertype ta tb = Ok u \<and> map_of out n = Some u"
    by (auto elim!: least_supertype_TupleE)
  from Tuple.prems(2) obtain mc where c: "c = TupleType (TupleTypeSignature mc)"
    by (cases c rule: wf_type.cases) (auto simp: admits_iffs)
  have "\<exists>u. map_of out n = Some u \<and> admits_type tc u = Ok True" if "(n, tc) \<in> set mc" for n tc
  proof -
    from that Tuple.prems(2,3) obtain ta tb where ab: "map_of ma n = Some ta"
      "map_of mb n = Some tb" "admits_type tc ta = Ok True" "admits_type tc tb = Ok True"
      by (fastforce simp: b c admits_iffs)
    then have mem: "(n, ta) \<in> set ma" "(n, tb) \<in> set mb" by (auto dest: map_of_SomeD)
    then have "wf_type ta" "wf_type tb"
      using Tuple.prems(4,5) by (auto simp: b dest: wf_fieldsD)
    with ab fields [OF mem(1)] Tuple.IH [OF mem(1)] show ?thesis by fastforce
  qed
  then show ?case using Tuple.prems(2) t by (auto simp: c admits_iffs)
next
  case (List n e)
  then obtain m f g where b: "b = SequenceType (ListType (ListTypeData m f))"
    and g: "if n = 0 then g = f else if m = 0 then g = e else least_supertype e f = Ok g"
    and t: "t = SequenceType (ListType (ListTypeData (max n m) g))"
    by (auto simp: least_supertype_iffs dest: constructor_OkD)
  from List.prems(2) obtain k h where c: "c = SequenceType (ListType (ListTypeData k h))"
    by (cases c rule: wf_type.cases) (auto simp: admits_iffs)
  from List.prems g show ?case
    by (auto simp: b c t admits_iffs split: if_splits intro: List.IH)
next
  case (Optional u)
  then obtain v w where b: "b = OptionalType v" "factor_out_no_type u v = Ok w" "t = OptionalType w"
    by (auto simp: least_supertype_iffs simp del: factor_out_no_type.simps dest: constructor_OkD)
  from Optional.prems(2) obtain h where c: "c = OptionalType h"
    by (cases c rule: wf_type.cases) (auto simp: admits_iffs)
  from Optional.prems b show ?case
    by (auto simp: c admits_iffs is_no_type_def split: if_splits intro: Optional.IH)
next
  case (Response p q)
  then obtain r s u v where b: "b = ResponseType r s" and t: "t = ResponseType u v"
    and f: "factor_out_no_type p r = Ok u" "factor_out_no_type q s = Ok v"
    by (auto simp: least_supertype_iffs simp del: factor_out_no_type.simps dest: constructor_OkD)
  from Response.prems(2) obtain h k where c: "c = ResponseType h k"
    by (cases c rule: wf_type.cases) (auto simp: admits_iffs)
  have "wf_type p" "wf_type q" "wf_type r" "wf_type s" using Response.prems(4,5) b by auto
  with f have hu: "(p = NoType \<or> admits_type h p = Ok True) \<Longrightarrow>
      (r = NoType \<or> admits_type h r = Ok True) \<Longrightarrow> u = NoType \<or> admits_type h u = Ok True"
    and kv: "(q = NoType \<or> admits_type k q = Ok True) \<Longrightarrow>
      (s = NoType \<or> admits_type k s = Ok True) \<Longrightarrow> v = NoType \<or> admits_type k v = Ok True"
    by (auto simp: is_no_type_def split: if_splits intro: Response.IH)
  from f have nn: "u = NoType \<Longrightarrow> p = NoType \<and> r = NoType" "v = NoType \<Longrightarrow> q = NoType \<and> s = NoType"
    by (auto simp: is_no_type_def split: if_splits dest: least_supertype_NoType)
  from Response.prems(2,3) hu kv nn show ?case by (auto simp: b c t admits_iffs)
qed (auto simp: least_supertype_iffs supertype_atom_def admits_iffs max_def split: if_splits)

section \<open>Properties\<close>



text \<open>C18: Exact behaviour of the type constructors on well-formed component types: they return
  the composite exactly when depth and size stay within the limits, the documented error
  otherwise, never panic, and what they return is well-formed.\<close>

theorem constructors_exact:
  assumes "wf_type t" "wf_type s"
  shows "new_list t n =
      (if 32 \<le> tdepth t then Err TypeSignatureTooDeep
       else if tsize (SequenceType (ListType (ListTypeData n t))) \<le> 1048576
         then Ok (ListTypeData n t) else Err ValueTooLarge)
    \<and> new_option t =
      (if 1048576 < tsize t + 1 then Err ValueTooLarge
       else if 32 \<le> tdepth t then Err TypeSignatureTooDeep else Ok (OptionalType t))
    \<and> new_response t s =
      (if 1048576 < max (tsize t) (tsize s) + 1 then Err ValueTooLarge
       else if 32 \<le> max (tdepth t) (tdepth s) then Err TypeSignatureTooDeep
       else Ok (ResponseType t s))
    \<and> (\<forall>u. list_of t n = Ok u \<or> new_option t = Ok u \<or> new_response t s = Ok u \<longrightarrow> wf_type u)"
  using assms new_list_eq new_option_eq new_response_eq list_of_wf new_option_wf new_response_wf
  by blast

theorem constructors_exact_witness:
  "new_list BoolType 1048576 = Err ValueTooLarge \<and> new_option BoolType = Ok (OptionalType BoolType)
    \<and> new_response BoolType IntType = Ok (ResponseType BoolType IntType)"
  using constructors_exact [of BoolType IntType 1048576] by simp

text \<open>C26: A tuple type built from a list of named types is well-formed, holds exactly the given
  fields, and a duplicate or empty field list is an error.\<close>

theorem tuple_try_from_vec_correct:
  assumes "wf_fields d"
  shows "(\<forall>ts. tuple_try_from_vec d = Ok ts \<longrightarrow> wf_type (TupleType ts) \<and> distinct (map fst d)
      \<and> (\<forall>n. field_type ts n = map_of d n))
    \<and> (d = [] \<longrightarrow> tuple_try_from_vec d = Err EmptyTuplesNotAllowed)"
proof (intro conjI allI impI)
  fix ts
  have collect: "tuple_collect m d = Ok m' \<Longrightarrow> distinct (map fst d) \<and> fst ` set d \<inter> dom (map_of m) = {}"
    for m m'
    by (induction m d rule: tuple_collect.induct) (auto split: if_splits simp: domIff)
  assume ts: "tuple_try_from_vec d = Ok ts"
  then obtain m' where m': "tuple_collect [] d = Ok m'" "ts = TupleTypeSignature m'"
    by (auto simp: tuple_try_from_vec_def tuple_try_from_map_def split: if_splits)
  have "map_of m' = map_of (rev d)" using tuple_collect_wf [OF m'(1)] assms by simp
  also have "\<dots> = map_of d" using collect [OF m'(1)]
    by (subst map_of_inject_set) (simp_all add: rev_map [symmetric])
  finally show "field_type ts n = map_of d n" for n using m' by simp
  show "wf_type (TupleType ts)" "distinct (map fst d)"
    using collect [OF m'(1)] tuple_try_from_vec_wf [OF assms ts] by simp_all
qed (simp add: tuple_try_from_vec_def)

theorem tuple_try_from_vec_correct_witness:
  "field_type (TupleTypeSignature [(''a'', BoolType), (''b'', IntType)]) ''b'' = Some IntType"
  using tuple_try_from_vec_correct [of "[(''b'', IntType), (''a'', BoolType)]"]
    tuple_try_from_map_eq [of "[(''a'', BoolType), (''b'', IntType)]"]
  by (simp add: tuple_try_from_vec_def)

text \<open>C27: Admission between types is a preorder: transitive, and reflexive on a well-formed type
  exactly when its \<open>NoType\<close> parts stand where values leave them open.\<close>

theorem admits_preorder:
  "(admits_type a b = Ok True \<longrightarrow> admits_type b c = Ok True \<longrightarrow> admits_type a c = Ok True)
    \<and> (wf_type a \<longrightarrow> (admits_type a a = Ok True \<longleftrightarrow> concrete_type a))"
  using admits_trans admits_refl_iff by blast

theorem admits_preorder_witness:
  "admits_type (OptionalType IntType) (OptionalType NoType) = Ok True
    \<and> admits_type (OptionalType IntType) (OptionalType IntType) = Ok True"
  using admits_preorder [of "OptionalType IntType" "OptionalType IntType" "OptionalType NoType"]
  by (simp add: admits_iffs)




text \<open>The doc comment promises a constructor's error, but for lists the constructor is followed
  by \<open>expect\<close>: two well-formed list types whose combination is too large make
  \<open>least_supertype\<close> panic.\<close>

lemma least_supertype_panics:
  "let buff = (\<lambda>n. SequenceType (BufferType (BufferLength n)));
       a = SequenceType (ListType (ListTypeData 10 (buff 100000)));
       b = SequenceType (ListType (ListTypeData 100000 (buff 1)))
   in wf_type a \<and> wf_type b \<and> least_supertype a b = Panic"
  using new_list_eq [of "SequenceType (BufferType (BufferLength 100000))" 100000]
  by (simp add: least_supertype.simps(2,5) list_of_def max_def)

text \<open>\<open>shallow_merge\<close> checks no size: the merge of two well-formed tuple types can be a type
  on which the infallible \<open>size\<close> panics.\<close>

lemma shallow_merge_unchecked:
  "let buff = (\<lambda>n. SequenceType (BufferType (BufferLength n)));
       a = TupleTypeSignature [(''a'', buff 600000)];
       b = TupleTypeSignature [(''b'', buff 600000)]
   in wf_type (TupleType a) \<and> wf_type (TupleType b)
      \<and> sig_size (TupleType (sig_shallow_merge a b)) = (Panic :: (unit, u32) result)"
  by (simp add: sig_size_def checked_add_def checked_mul_def try_from_nat_def MAX_VALUE_SIZE_def)

end
