(* ===== verification/Strings.thy ===== *)
theory Strings
  imports Clarity_Data
begin

text \<open>
  Byte-level strings: the ASCII classes and the UTF-8 validation of the Rust standard library on
  byte lists, the conversion between byte lists and HOL strings, and the guarded names of
  \<open>clarity/src/vm/representations.rs\<close>. The two name regular expressions are written out as
  recognisers. The lemmas show that splitting a UTF-8 string into encoded characters is the
  inverse of concatenation and that accepted names are ASCII, so that they survive a trip
  through bytes.
\<close>

section \<open>Bytes and characters\<close>

definition is_ascii_alphanumeric :: "u8 \<Rightarrow> bool" where
  "is_ascii_alphanumeric b \<longleftrightarrow> (0x30 \<le> b \<and> b \<le> 0x39) \<or> (0x41 \<le> b \<and> b \<le> 0x5A) \<or> (0x61 \<le> b \<and> b \<le> 0x7A)"

definition is_ascii_punctuation :: "u8 \<Rightarrow> bool" where
  "is_ascii_punctuation b \<longleftrightarrow> (0x21 \<le> b \<and> b \<le> 0x2F) \<or> (0x3A \<le> b \<and> b \<le> 0x40)
     \<or> (0x5B \<le> b \<and> b \<le> 0x60) \<or> (0x7B \<le> b \<and> b \<le> 0x7E)"

definition is_ascii_whitespace :: "u8 \<Rightarrow> bool" where
  "is_ascii_whitespace b \<longleftrightarrow> b = 0x20 \<or> b = 0x09 \<or> b = 0x0A \<or> b = 0x0C \<or> b = 0x0D"

definition utf8_cont :: "u8 \<Rightarrow> bool" where
  "utf8_cont b \<longleftrightarrow> 0x80 \<le> b \<and> b \<le> 0xBF"

text \<open>One well-formed encoded character.\<close>

fun utf8_char :: "u8 list \<Rightarrow> bool" where
  "utf8_char [a] = (a < 0x80)"
| "utf8_char [a, b] = (0xC2 \<le> a \<and> a \<le> 0xDF \<and> utf8_cont b)"
| "utf8_char [a, b, c] =
     (utf8_cont c \<and>
      (if a = 0xE0 then 0xA0 \<le> b \<and> b \<le> 0xBF
       else if a = 0xED then 0x80 \<le> b \<and> b \<le> 0x9F
       else 0xE1 \<le> a \<and> a \<le> 0xEF \<and> utf8_cont b))"
| "utf8_char [a, b, c, d] =
     (utf8_cont c \<and> utf8_cont d \<and>
      (if a = 0xF0 then 0x90 \<le> b \<and> b \<le> 0xBF
       else if a = 0xF4 then 0x80 \<le> b \<and> b \<le> 0x8F
       else 0xF1 \<le> a \<and> a \<le> 0xF3 \<and> utf8_cont b))"
| "utf8_char _ = False"

definition utf8_width :: "u8 \<Rightarrow> nat" where
  "utf8_width a = (if a < 0x80 then 1 else if a \<le> 0xDF then 2 else if a \<le> 0xEF then 3 else 4)"

text \<open>\<open>str::from_utf8\<close> followed by \<open>chars\<close> and \<open>encode_utf8\<close>: the encoded characters in order.\<close>

function utf8_split :: "u8 list \<Rightarrow> u8 list list option" where
  "utf8_split [] = Some []"
| "utf8_split (a # bs) =
     (let w = utf8_width a; c = take w (a # bs) in
      if utf8_char c then map_option (Cons c) (utf8_split (drop w (a # bs))) else None)"
  by pat_completeness auto
termination
  by (relation "measure length") (auto simp: utf8_width_def Let_def)

definition bytes_to_string :: "u8 list \<Rightarrow> string" where
  "bytes_to_string bs = map (\<lambda>b. char_of (unat b)) bs"

definition string_to_bytes :: "string \<Rightarrow> u8 list" where
  "string_to_bytes s = map (\<lambda>c. of_nat (of_char c)) s"

section \<open>Guarded names\<close>

definition char_code :: "char \<Rightarrow> nat" where
  "char_code c = of_char c"

definition is_alpha :: "char \<Rightarrow> bool" where
  "is_alpha c \<longleftrightarrow> (65 \<le> char_code c \<and> char_code c \<le> 90) \<or> (97 \<le> char_code c \<and> char_code c \<le> 122)"

definition is_digit :: "char \<Rightarrow> bool" where
  "is_digit c \<longleftrightarrow> 48 \<le> char_code c \<and> char_code c \<le> 57"

definition MAX_STRING_LEN :: u8 where
  "MAX_STRING_LEN = 128"

text \<open>\<open>^[a-zA-Z]([a-zA-Z0-9]|[-_!?+<>=/*])*$|^[-+=/*]$|^[<>]=?$\<close>\<close>

definition CLARITY_NAME_REGEX :: "string \<Rightarrow> bool" where
  "CLARITY_NAME_REGEX s \<longleftrightarrow>
     (case s of
        [] \<Rightarrow> False
      | c # cs \<Rightarrow>
          (is_alpha c \<and> list_all (\<lambda>d. is_alpha d \<or> is_digit d \<or> d \<in> set ''-_!?+<>=/*'') cs)
          \<or> (c \<in> set ''-+=/*'' \<and> cs = [])
          \<or> (c \<in> set ''<>'' \<and> (cs = [] \<or> cs = ''='')))"

text \<open>\<open>^[a-zA-Z]([a-zA-Z0-9]|[-_])*$|^__transient$\<close>\<close>

definition CONTRACT_NAME_REGEX :: "string \<Rightarrow> bool" where
  "CONTRACT_NAME_REGEX s \<longleftrightarrow>
     (case s of
        [] \<Rightarrow> False
      | c # cs \<Rightarrow>
          (is_alpha c \<and> list_all (\<lambda>d. is_alpha d \<or> is_digit d \<or> d \<in> set ''-_'') cs)
          \<or> c # cs = ''__transient'')"

text \<open>The \<open>try_from\<close> of \<open>guarded_string!\<close>, with its label and its regular expression.\<close>

definition guarded_try_from ::
    "string \<Rightarrow> (string \<Rightarrow> bool) \<Rightarrow> string \<Rightarrow> (runtime_error_type, string) result" where
  "guarded_try_from label regex val =
     (if length val > unat MAX_STRING_LEN then Err (RT_BadNameValue label val)
      else if regex val then Ok val
      else Err (RT_BadNameValue label val))"

definition clarity_name_try_from :: "string \<Rightarrow> (runtime_error_type, clarity_name) result" where
  "clarity_name_try_from = guarded_try_from ''ClarityName'' CLARITY_NAME_REGEX"

definition contract_name_try_from :: "string \<Rightarrow> (runtime_error_type, contract_name) result" where
  "contract_name_try_from = guarded_try_from ''ContractName'' CONTRACT_NAME_REGEX"

definition guarded_len :: "string \<Rightarrow> (unit, u8) result" where
  "guarded_len name = expect_some (try_from_nat (length name))"

definition valid_clarity_name :: "string \<Rightarrow> bool" where
  "valid_clarity_name s \<longleftrightarrow> clarity_name_try_from s = Ok s"

definition valid_contract_name :: "string \<Rightarrow> bool" where
  "valid_contract_name s \<longleftrightarrow> contract_name_try_from s = Ok s"

section \<open>Lemmas\<close>

lemma utf8_char_width:
  "utf8_char c \<Longrightarrow> c \<noteq> [] \<and> utf8_width (hd c) = length c"
  by (induction c rule: utf8_char.induct)
    (auto simp: utf8_width_def word_le_nat_alt word_less_nat_alt split: if_splits)

lemma utf8_split_Some:
  "utf8_split bs = Some cs \<Longrightarrow> concat cs = bs \<and> list_all utf8_char cs"
proof (induction bs arbitrary: cs rule: utf8_split.induct)
  case (2 a bs)
  then show ?case
    by (auto simp: Let_def split: if_splits)
qed simp

lemma utf8_split_concat: "list_all utf8_char cs \<Longrightarrow> utf8_split (concat cs) = Some cs"
proof (induction cs)
  case (Cons c cs)
  then have c: "utf8_char c" by simp
  from utf8_char_width [OF c] obtain a bs where cons: "c = a # bs" and w: "utf8_width a = length c"
    by (cases c) auto
  have "utf8_split (a # (bs @ concat cs)) = Some (c # cs)"
    using c Cons w cons by (auto simp: Let_def)
  then show ?case by (simp add: cons)
qed simp

lemma utf8_split_ascii: "list_all (\<lambda>b. b < 0x80) bs \<Longrightarrow> utf8_split bs = Some (map (\<lambda>b. [b]) bs)"
  by (induction bs) (auto simp: utf8_width_def)

lemma bytes_to_string_to_bytes [simp]: "bytes_to_string (string_to_bytes s) = s"
proof -
  have "char_of (unat (of_nat (of_char c) :: u8)) = c" for c :: char
    using nat_of_char_less_256 [of c] by (simp add: unat_of_nat_lt)
  then show ?thesis by (simp add: bytes_to_string_def string_to_bytes_def comp_def)
qed

lemma string_to_bytes_to_string [simp]: "string_to_bytes (bytes_to_string bs) = bs"
proof -
  have "of_nat (of_char (char_of (unat b) :: char)) = b" for b :: u8
    using unat_lt [of b] by (simp add: of_char_of)
  then show ?thesis by (simp add: bytes_to_string_def string_to_bytes_def comp_def)
qed

lemma length_string_to_bytes [simp]: "length (string_to_bytes s) = length s"
  by (simp add: string_to_bytes_def)

lemma length_bytes_to_string [simp]: "length (bytes_to_string s) = length s"
  by (simp add: bytes_to_string_def)

lemma string_to_bytes_inj [simp]: "string_to_bytes s = string_to_bytes t \<longleftrightarrow> s = t"
  by (metis bytes_to_string_to_bytes)

lemma name_regex_ascii:
  "CLARITY_NAME_REGEX s \<Longrightarrow> list_all (\<lambda>c. char_code c < 128) s"
  "CONTRACT_NAME_REGEX s \<Longrightarrow> list_all (\<lambda>c. char_code c < 128) s"
  by (auto simp: CLARITY_NAME_REGEX_def CONTRACT_NAME_REGEX_def is_alpha_def is_digit_def
      char_code_def list_all_iff split: list.splits)

lemma ascii_string_to_bytes:
  "list_all (\<lambda>c. char_code c < 128) s \<Longrightarrow> list_all (\<lambda>b. b < 0x80) (string_to_bytes s)"
  by (auto simp: list_all_iff string_to_bytes_def char_code_def word_less_nat_alt unat_of_nat_lt)

lemma guarded_try_from_Ok [simp]:
  "guarded_try_from label regex val = Ok s \<longleftrightarrow> s = val \<and> length val \<le> 128 \<and> regex val"
  by (auto simp: guarded_try_from_def MAX_STRING_LEN_def)

lemma valid_clarity_name_iff: "valid_clarity_name s \<longleftrightarrow> length s \<le> 128 \<and> CLARITY_NAME_REGEX s"
  by (simp add: valid_clarity_name_def clarity_name_try_from_def)

lemma valid_contract_name_iff: "valid_contract_name s \<longleftrightarrow> length s \<le> 128 \<and> CONTRACT_NAME_REGEX s"
  by (simp add: valid_contract_name_def contract_name_try_from_def)

lemma valid_name_utf8:
  "valid_clarity_name s \<or> valid_contract_name s \<Longrightarrow> utf8_split (string_to_bytes s) \<noteq> None"
  using utf8_split_ascii [OF ascii_string_to_bytes [OF name_regex_ascii(1)], of s]
    utf8_split_ascii [OF ascii_string_to_bytes [OF name_regex_ascii(2)], of s]
  by (auto simp: valid_clarity_name_iff valid_contract_name_iff)

end
