(* ===== verification/Values.thy ===== *)
theory Values
  imports Signatures Strings
begin

text \<open>
  Clarity values (\<open>clarity/src/vm/types/mod.rs\<close>): the types of values, equality, the checked
  constructors, the operations on sequences and tuples and the panicking \<open>expect_*\<close> accessors.
  The
  specification level is \<open>vtype\<close>, the type of a value without checks, \<open>fits\<close>, membership of a
  value in a type, and \<open>wf_value\<close>, the invariant the constructors promise; the lemmas show that
  \<open>type_of\<close> never panics on well-formed values, that admission is sound for membership and that
  the constructors establish the invariant.
\<close>

section \<open>Types of values and equality\<close>

definition buff_type_signature :: "u8 list \<Rightarrow> (unit, type_signature) result" where
  "buff_type_signature bs =
     map_ok (\<lambda>l. SequenceType (BufferType l)) (expect (buffer_length_try_from_usize (length bs)))"

definition ascii_type_signature :: "u8 list \<Rightarrow> (unit, type_signature) result" where
  "ascii_type_signature bs =
     map_ok (\<lambda>l. SequenceType (StringType (StrASCII l)))
       (expect (buffer_length_try_from_usize (length bs)))"

definition utf8_type_signature :: "u8 list list \<Rightarrow> (unit, type_signature) result" where
  "utf8_type_signature cs =
     map_ok (\<lambda>l. SequenceType (StringType (StrUTF8 l)))
       (expect (string_utf8_length_try_from_usize (length cs)))"

fun type_of :: "clarity_value \<Rightarrow> (unit, type_signature) result" where
  "type_of (VPrincipal _) = Ok PrincipalType"
| "type_of (VInt _) = Ok IntType"
| "type_of (VUInt _) = Ok UIntType"
| "type_of (VBool _) = Ok BoolType"
| "type_of (VTuple (TupleData type_signature _)) = Ok (TupleType type_signature)"
| "type_of (VSequence (ListSeq (ListData _ type_signature))) =
     Ok (SequenceType (ListType type_signature))"
| "type_of (VSequence (Buffer bs)) = buff_type_signature bs"
| "type_of (VSequence (StringSeq (CharASCII bs))) = ascii_type_signature bs"
| "type_of (VSequence (StringSeq (CharUTF8 cs))) = utf8_type_signature cs"
| "type_of (VOptional None) = expect (new_option NoType)"
| "type_of (VOptional (Some v)) = and_then (type_of v) (\<lambda>t. expect (new_option t))"
| "type_of (VResponse committed v) =
     and_then (type_of v) (\<lambda>t.
       if committed then expect (new_response t NoType) else expect (new_response NoType t))"

definition value_size :: "clarity_value \<Rightarrow> (unit, u32) result" where
  "value_size v = and_then (type_of v) sig_size"

definition value_depth :: "clarity_value \<Rightarrow> (unit, u8) result" where
  "value_depth v = map_ok depth (type_of v)"

definition admits :: "type_signature \<Rightarrow> clarity_value \<Rightarrow> (unit, bool) result" where
  "admits t v = and_then (type_of v) (admits_type t)"

text \<open>\<open>PartialEq\<close> on values: lists and tuples are compared without their type signatures.\<close>

fun value_eq :: "clarity_value \<Rightarrow> clarity_value \<Rightarrow> bool"
and values_eq :: "clarity_value list \<Rightarrow> clarity_value list \<Rightarrow> bool"
and fields_eq :: "(clarity_name \<times> clarity_value) list \<Rightarrow> (clarity_name \<times> clarity_value) list \<Rightarrow> bool" where
  "value_eq (VInt i) w = (w = VInt i)"
| "value_eq (VUInt i) w = (w = VUInt i)"
| "value_eq (VBool b) w = (w = VBool b)"
| "value_eq (VPrincipal p) w = (w = VPrincipal p)"
| "value_eq (VSequence (Buffer bs)) w = (w = VSequence (Buffer bs))"
| "value_eq (VSequence (StringSeq s)) w = (w = VSequence (StringSeq s))"
| "value_eq (VSequence (ListSeq (ListData vs _))) w =
     (case w of VSequence (ListSeq (ListData ws _)) \<Rightarrow> values_eq vs ws | _ \<Rightarrow> False)"
| "value_eq (VTuple (TupleData _ d)) w =
     (case w of VTuple (TupleData _ e) \<Rightarrow> fields_eq d e | _ \<Rightarrow> False)"
| "value_eq (VOptional None) w = (w = VOptional None)"
| "value_eq (VOptional (Some v)) w =
     (case w of VOptional (Some u) \<Rightarrow> value_eq v u | _ \<Rightarrow> False)"
| "value_eq (VResponse c v) w = (case w of VResponse c' u \<Rightarrow> c = c' \<and> value_eq v u | _ \<Rightarrow> False)"
| "values_eq [] ws = (ws = [])"
| "values_eq (v # vs) ws =
     (case ws of [] \<Rightarrow> False | w # ws' \<Rightarrow> value_eq v w \<and> values_eq vs ws')"
| "fields_eq [] e = (e = [])"
| "fields_eq ((n, v) # d) e =
     (case e of [] \<Rightarrow> False | (k, w) # e' \<Rightarrow> n = k \<and> value_eq v w \<and> fields_eq d e')"

section \<open>Constructors\<close>

text \<open>The size and depth guard shared by \<open>some\<close>, \<open>okay\<close> and \<open>error\<close>.\<close>

definition wrap_value ::
    "clarity_value \<Rightarrow> clarity_value \<Rightarrow> clarity_value interpreter_result" where
  "wrap_value data wrapped =
     and_then (expect (value_size data)) (\<lambda>sz.
     if sz + WRAPPER_VALUE_SIZE > MAX_VALUE_SIZE then Err (Unchecked ValueTooLarge)
     else and_then (expect (value_depth data)) (\<lambda>d.
     if d + 1 > MAX_TYPE_DEPTH then Err (Unchecked TypeSignatureTooDeep) else Ok wrapped))"

definition value_some :: "clarity_value \<Rightarrow> clarity_value interpreter_result" where
  "value_some data = wrap_value data (VOptional (Some data))"

definition value_none :: clarity_value where
  "value_none = VOptional None"

definition okay_true :: clarity_value where
  "okay_true = VResponse True (VBool True)"

definition err_uint :: "u128 \<Rightarrow> clarity_value" where
  "err_uint ecode = VResponse False (VUInt ecode)"

definition err_none :: clarity_value where
  "err_none = VResponse False value_none"

definition okay :: "clarity_value \<Rightarrow> clarity_value interpreter_result" where
  "okay data = wrap_value data (VResponse True data)"

definition error :: "clarity_value \<Rightarrow> clarity_value interpreter_result" where
  "error data = wrap_value data (VResponse False data)"

fun items_admitted :: "type_signature \<Rightarrow> clarity_value list \<Rightarrow> unit interpreter_result" where
  "items_admitted t [] = Ok ()"
| "items_admitted t (item # items) =
     and_then (expect (admits t item)) (\<lambda>b.
     if b then items_admitted t items
     else Err (Interpreter IE_FailureConstructingListWithType))"

fun list_with_type ::
    "clarity_value list \<Rightarrow> list_type_data \<Rightarrow> clarity_value interpreter_result" where
  "list_with_type list_data (ListTypeData max_len entry_type) =
     (if unat max_len < length list_data
      then Err (Interpreter IE_FailureConstructingListWithType)
      else and_then (items_admitted entry_type list_data) (\<lambda>_.
        Ok (VSequence (ListSeq (ListData list_data (ListTypeData max_len entry_type))))))"

fun types_of :: "clarity_value list \<Rightarrow> (unit, type_signature list) result" where
  "types_of [] = Ok []"
| "types_of (v # vs) = and_then (type_of v) (\<lambda>t. map_ok (Cons t) (types_of vs))"

definition construct_parent_list_type ::
    "clarity_value list \<Rightarrow> (check_errors, list_type_data) result" where
  "construct_parent_list_type args =
     and_then (expect (types_of args)) (\<lambda>children_types. parent_list_type children_types)"

definition list_from :: "clarity_value list \<Rightarrow> clarity_value interpreter_result" where
  "list_from list_data =
     and_then (map_err Unchecked (construct_parent_list_type list_data)) (\<lambda>type_sig.
     Ok (VSequence (ListSeq (ListData list_data type_sig))))"

definition buff_from :: "u8 list \<Rightarrow> clarity_value interpreter_result" where
  "buff_from buff_data =
     and_then (map_err Unchecked (buffer_length_try_from_usize (length buff_data))) (\<lambda>_.
     Ok (VSequence (Buffer buff_data)))"

definition buff_from_byte :: "u8 \<Rightarrow> clarity_value" where
  "buff_from_byte byte = VSequence (Buffer [byte])"

definition ascii_char_ok :: "u8 \<Rightarrow> bool" where
  "ascii_char_ok b \<longleftrightarrow> is_ascii_alphanumeric b \<or> is_ascii_punctuation b \<or> is_ascii_whitespace b"

definition string_ascii_from_bytes :: "u8 list \<Rightarrow> clarity_value interpreter_result" where
  "string_ascii_from_bytes bytes =
     and_then (map_err Unchecked (buffer_length_try_from_usize (length bytes))) (\<lambda>_.
     if list_all ascii_char_ok bytes then Ok (VSequence (StringSeq (CharASCII bytes)))
     else Err (Unchecked InvalidCharactersDetected))"

definition string_utf8_from_bytes :: "u8 list \<Rightarrow> clarity_value interpreter_result" where
  "string_utf8_from_bytes bytes =
     (case utf8_split bytes of
        None \<Rightarrow> Err (Unchecked InvalidCharactersDetected)
      | Some data \<Rightarrow>
          and_then (map_err Unchecked (string_utf8_length_try_from_usize (length data))) (\<lambda>_.
          Ok (VSequence (StringSeq (CharUTF8 data)))))"

section \<open>Accessors\<close>

fun expect_ascii :: "clarity_value \<Rightarrow> (unit, string) result" where
  "expect_ascii (VSequence (StringSeq (CharASCII data))) =
     (if utf8_split data \<noteq> None then Ok (bytes_to_string data) else Panic)"
| "expect_ascii _ = Panic"

fun expect_u128 :: "clarity_value \<Rightarrow> (unit, u128) result" where
  "expect_u128 (VUInt inner) = Ok inner"
| "expect_u128 _ = Panic"

fun expect_i128 :: "clarity_value \<Rightarrow> (unit, i128) result" where
  "expect_i128 (VInt inner) = Ok inner"
| "expect_i128 _ = Panic"

fun expect_buff :: "clarity_value \<Rightarrow> nat \<Rightarrow> (unit, u8 list) result" where
  "expect_buff (VSequence (Buffer data)) sz = (if length data \<le> sz then Ok data else Panic)"
| "expect_buff _ sz = Panic"

fun expect_list :: "clarity_value \<Rightarrow> (unit, clarity_value list) result" where
  "expect_list (VSequence (ListSeq (ListData data _))) = Ok data"
| "expect_list _ = Panic"

definition expect_buff_padded :: "clarity_value \<Rightarrow> nat \<Rightarrow> u8 \<Rightarrow> (unit, u8 list) result" where
  "expect_buff_padded v sz pad =
     map_ok (\<lambda>data. if sz > length data then data @ replicate (sz - length data) pad else data)
       (expect_buff v sz)"

fun expect_bool :: "clarity_value \<Rightarrow> (unit, bool) result" where
  "expect_bool (VBool b) = Ok b"
| "expect_bool _ = Panic"

fun expect_tuple :: "clarity_value \<Rightarrow> (unit, tuple_data) result" where
  "expect_tuple (VTuple data) = Ok data"
| "expect_tuple _ = Panic"

fun expect_optional :: "clarity_value \<Rightarrow> (unit, clarity_value option) result" where
  "expect_optional (VOptional opt) = Ok opt"
| "expect_optional _ = Panic"

fun expect_principal :: "clarity_value \<Rightarrow> (unit, principal_data) result" where
  "expect_principal (VPrincipal p) = Ok p"
| "expect_principal _ = Panic"

text \<open>The inner \<open>Result\<close> of \<open>expect_result\<close>: \<open>Inr\<close> is \<open>Ok\<close>, \<open>Inl\<close> is \<open>Err\<close>.\<close>

fun expect_result :: "clarity_value \<Rightarrow> (unit, clarity_value + clarity_value) result" where
  "expect_result (VResponse committed data) = Ok (if committed then Inr data else Inl data)"
| "expect_result _ = Panic"

fun expect_result_ok :: "clarity_value \<Rightarrow> (unit, clarity_value) result" where
  "expect_result_ok (VResponse committed data) = (if committed then Ok data else Panic)"
| "expect_result_ok _ = Panic"

fun expect_result_err :: "clarity_value \<Rightarrow> (unit, clarity_value) result" where
  "expect_result_err (VResponse committed data) = (if \<not> committed then Ok data else Panic)"
| "expect_result_err _ = Panic"

section \<open>Sequences\<close>

fun seq_len :: "sequence_data \<Rightarrow> nat" where
  "seq_len (Buffer data) = length data"
| "seq_len (ListSeq (ListData data _)) = length data"
| "seq_len (StringSeq (CharASCII data)) = length data"
| "seq_len (StringSeq (CharUTF8 data)) = length data"

text \<open>\<open>to_value\<close> of the four element types; \<open>atom_values\<close> returns all elements as values.\<close>

definition ascii_to_value :: "u8 \<Rightarrow> (unit, clarity_value) result" where
  "ascii_to_value v = expect (string_ascii_from_bytes [v])"

definition utf8_to_value :: "u8 list \<Rightarrow> (unit, clarity_value) result" where
  "utf8_to_value v = expect (string_utf8_from_bytes v)"

fun map_results :: "('a \<Rightarrow> ('e, 'b) result) \<Rightarrow> 'a list \<Rightarrow> ('e, 'b list) result" where
  "map_results f [] = Ok []"
| "map_results f (x # xs) = and_then (f x) (\<lambda>y. map_ok (Cons y) (map_results f xs))"

fun atom_values :: "sequence_data \<Rightarrow> (unit, clarity_value list) result" where
  "atom_values (Buffer data) = Ok (map buff_from_byte data)"
| "atom_values (ListSeq (ListData data _)) = Ok data"
| "atom_values (StringSeq (CharASCII data)) = map_results ascii_to_value data"
| "atom_values (StringSeq (CharUTF8 data)) = map_results utf8_to_value data"

fun seq_element_at :: "sequence_data \<Rightarrow> nat \<Rightarrow> (unit, clarity_value option) result" where
  "seq_element_at (Buffer data) index =
     (if length data \<le> index then Ok None else Ok (Some (buff_from_byte (data ! index))))"
| "seq_element_at (ListSeq (ListData data _)) index =
     (if length data \<le> index then Ok None else Ok (Some (data ! index)))"
| "seq_element_at (StringSeq (CharASCII data)) index =
     (if length data \<le> index then Ok None
      else map_ok Some (expect (string_ascii_from_bytes [data ! index])))"
| "seq_element_at (StringSeq (CharUTF8 data)) index =
     (if length data \<le> index then Ok None
      else Ok (Some (VSequence (StringSeq (CharUTF8 [data ! index])))))"

fun seq_contains :: "sequence_data \<Rightarrow> clarity_value \<Rightarrow> nat option interpreter_result" where
  "seq_contains (Buffer data) to_find =
     (case to_find of
        VSequence (Buffer v) \<Rightarrow>
          if length v \<noteq> 1 then Ok None else Ok (find_index (\<lambda>x. x = v ! 0) data 0)
      | _ \<Rightarrow> and_then min_buffer (\<lambda>t. Err (Unchecked (TypeValueError t to_find))))"
| "seq_contains (ListSeq (ListData data _)) to_find =
     Ok (find_index (\<lambda>x. value_eq x to_find) data 0)"
| "seq_contains (StringSeq (CharASCII data)) to_find =
     (case to_find of
        VSequence (StringSeq (CharASCII v)) \<Rightarrow>
          if length v \<noteq> 1 then Ok None else Ok (find_index (\<lambda>x. x = v ! 0) data 0)
      | _ \<Rightarrow> and_then min_string_ascii (\<lambda>t. Err (Unchecked (TypeValueError t to_find))))"
| "seq_contains (StringSeq (CharUTF8 data)) to_find =
     (case to_find of
        VSequence (StringSeq (CharUTF8 v)) \<Rightarrow>
          if length v \<noteq> 1 then Ok None else Ok (find_index (\<lambda>x. x = v ! 0) data 0)
      | _ \<Rightarrow> and_then min_string_utf8 (\<lambda>t. Err (Unchecked (TypeValueError t to_find))))"

text \<open>
  \<open>drain_filter!\<close>: the predicate threads its own state \<open>'s\<close> (it is an \<open>FnMut\<close>); on an error the
  elements not yet visited stay in place. Element \<open>i\<close> is the first of the second list; the first
  list holds the elements kept so far.
\<close>

fun drain_filter ::
    "('a \<Rightarrow> (unit, clarity_value) result) \<Rightarrow> ('s \<Rightarrow> clarity_value \<Rightarrow> bool interpreter_result \<times> 's)
      \<Rightarrow> 's \<Rightarrow> 'a list \<Rightarrow> 'a list \<Rightarrow> unit interpreter_result \<times> 'a list \<times> 's" where
  "drain_filter to_value p s kept [] = (Ok (), kept, s)"
| "drain_filter to_value p s kept (x # xs) =
     (case to_value x of
        Ok v \<Rightarrow>
          (case p s v of
             (Ok b, s') \<Rightarrow> drain_filter to_value p s' (if b then kept @ [x] else kept) xs
           | (Err e, s') \<Rightarrow> (Err e, kept @ x # xs, s')
           | (Panic, s') \<Rightarrow> (Panic, kept @ x # xs, s'))
      | _ \<Rightarrow> (Panic, kept @ x # xs, s))"

fun seq_filter :: "('s \<Rightarrow> clarity_value \<Rightarrow> bool interpreter_result \<times> 's) \<Rightarrow> 's \<Rightarrow> sequence_data
    \<Rightarrow> unit interpreter_result \<times> sequence_data \<times> 's" where
  "seq_filter p s (Buffer data) =
     (let (r, d, s') = drain_filter (\<lambda>x. Ok (buff_from_byte x)) p s [] data in (r, Buffer d, s'))"
| "seq_filter p s (ListSeq (ListData data t)) =
     (let (r, d, s') = drain_filter Ok p s [] data in (r, ListSeq (ListData d t), s'))"
| "seq_filter p s (StringSeq (CharASCII data)) =
     (let (r, d, s') = drain_filter ascii_to_value p s [] data in (r, StringSeq (CharASCII d), s'))"
| "seq_filter p s (StringSeq (CharUTF8 data)) =
     (let (r, d, s') = drain_filter utf8_to_value p s [] data in (r, StringSeq (CharUTF8 d), s'))"

fun list_append :: "list_data \<Rightarrow> list_data \<Rightarrow> list_data interpreter_result" where
  "list_append (ListData a (ListTypeData len_a entry_type_a))
     (ListData b (ListTypeData len_b entry_type_b)) =
     and_then (map_err Unchecked (factor_out_no_type entry_type_a entry_type_b)) (\<lambda>entry_type.
     and_then (map_err Unchecked (new_list entry_type (len_a + len_b))) (\<lambda>type_signature.
     Ok (ListData (a @ b) type_signature)))"

fun seq_append :: "sequence_data \<Rightarrow> sequence_data \<Rightarrow> sequence_data interpreter_result" where
  "seq_append (ListSeq a) (ListSeq b) = map_ok ListSeq (list_append a b)"
| "seq_append (Buffer a) (Buffer b) = Ok (Buffer (a @ b))"
| "seq_append (StringSeq (CharASCII a)) (StringSeq (CharASCII b)) =
     Ok (StringSeq (CharASCII (a @ b)))"
| "seq_append (StringSeq (CharUTF8 a)) (StringSeq (CharUTF8 b)) =
     Ok (StringSeq (CharUTF8 (a @ b)))"
| "seq_append _ _ = Err (Runtime RT_BadTypeConstruction None)"

definition buff_data_len :: "u8 list \<Rightarrow> (unit, buffer_length) result" where
  "buff_data_len data = expect (buffer_length_try_from_usize (length data))"

fun list_data_len :: "list_data \<Rightarrow> (unit, u32) result" where
  "list_data_len (ListData data _) = expect_some (try_from_nat (length data))"

definition utf8_data_len :: "u8 list list \<Rightarrow> (unit, buffer_length) result" where
  "utf8_data_len data = expect (buffer_length_try_from_usize (length data))"

section \<open>Tuples\<close>

fun tuple_data_len :: "tuple_data \<Rightarrow> u64" where
  "tuple_data_len (TupleData _ data_map) = of_nat (length data_map)"

fun from_data_loop ::
    "(clarity_name \<times> clarity_value) list \<Rightarrow> (clarity_name \<times> type_signature) list
      \<Rightarrow> (clarity_name \<times> clarity_value) list
      \<Rightarrow> ((clarity_name \<times> type_signature) list \<times> (clarity_name \<times> clarity_value) list)
          interpreter_result" where
  "from_data_loop [] type_map data_map = Ok (type_map, data_map)"
| "from_data_loop ((name, value) # data) type_map data_map =
     and_then (expect (type_of value)) (\<lambda>type_info.
     if map_of type_map name \<noteq> None then Err (Unchecked (NameAlreadyUsed name))
     else from_data_loop data (btree_insert name type_info type_map)
       (btree_insert name value data_map))"

definition from_data :: "(clarity_name \<times> clarity_value) list \<Rightarrow> tuple_data interpreter_result" where
  "from_data data =
     and_then (from_data_loop data [] []) (\<lambda>(type_map, data_map).
     and_then (map_err Unchecked (tuple_try_from_map type_map)) (\<lambda>ts.
     Ok (TupleData ts data_map)))"

fun from_data_typed_loop ::
    "tuple_type_signature \<Rightarrow> (clarity_name \<times> clarity_value) list
      \<Rightarrow> (clarity_name \<times> clarity_value) list
      \<Rightarrow> (clarity_name \<times> clarity_value) list interpreter_result" where
  "from_data_typed_loop expected [] data_map = Ok data_map"
| "from_data_typed_loop expected ((name, value) # data) data_map =
     and_then (ok_or (field_type expected name)
         (Interpreter IE_FailureConstructingTupleWithType)) (\<lambda>expected_type.
     and_then (expect (admits expected_type value)) (\<lambda>b.
     if \<not> b then Err (Interpreter IE_FailureConstructingTupleWithType)
     else from_data_typed_loop expected data (btree_insert name value data_map)))"

definition from_data_typed ::
    "(clarity_name \<times> clarity_value) list \<Rightarrow> tuple_type_signature \<Rightarrow> tuple_data interpreter_result" where
  "from_data_typed data expected =
     map_ok (TupleData expected) (from_data_typed_loop expected data [])"

fun tuple_get :: "tuple_data \<Rightarrow> clarity_name \<Rightarrow> clarity_value interpreter_result" where
  "tuple_get (TupleData type_signature data_map) name =
     ok_or (map_of data_map name) (Unchecked (NoSuchTupleField name type_signature))"

fun shallow_merge :: "tuple_data \<Rightarrow> tuple_data \<Rightarrow> tuple_data" where
  "shallow_merge (TupleData base_type base_map) (TupleData upd_type upd_map) =
     TupleData (sig_shallow_merge base_type upd_type)
       (fold (\<lambda>(name, value). btree_insert name value) upd_map base_map)"

fun principal_version :: "principal_data \<Rightarrow> u8" where
  "principal_version (Standard (StandardPrincipalData version _)) = version"
| "principal_version (Contract c) = (case qci_issuer c of StandardPrincipalData version _ \<Rightarrow> version)"

definition byte_len_of_serialization :: "string \<Rightarrow> u64" where
  "byte_len_of_serialization serialized = of_nat (length serialized) div 2"


fun get_owned :: "tuple_data \<Rightarrow> clarity_name \<Rightarrow> clarity_value interpreter_result" where
  "get_owned (TupleData type_signature data_map) name =
     ok_or (map_of data_map name) (Unchecked (NoSuchTupleField name type_signature))"

section \<open>Specification level\<close>

text \<open>The type of a value when no limit is exceeded.\<close>

fun vtype :: "clarity_value \<Rightarrow> type_signature" where
  "vtype (VPrincipal _) = PrincipalType"
| "vtype (VInt _) = IntType"
| "vtype (VUInt _) = UIntType"
| "vtype (VBool _) = BoolType"
| "vtype (VTuple (TupleData ts _)) = TupleType ts"
| "vtype (VSequence (ListSeq (ListData _ lt))) = SequenceType (ListType lt)"
| "vtype (VSequence (Buffer bs)) = SequenceType (BufferType (BufferLength (of_nat (length bs))))"
| "vtype (VSequence (StringSeq (CharASCII bs))) =
     SequenceType (StringType (StrASCII (BufferLength (of_nat (length bs)))))"
| "vtype (VSequence (StringSeq (CharUTF8 cs))) =
     SequenceType (StringType (StrUTF8 (StringUTF8Length (of_nat (length cs)))))"
| "vtype (VOptional None) = OptionalType NoType"
| "vtype (VOptional (Some v)) = OptionalType (vtype v)"
| "vtype (VResponse committed v) =
     (if committed then ResponseType (vtype v) NoType else ResponseType NoType (vtype v))"

text \<open>Membership of a value in a type, independent of the signatures stored inside the value.\<close>

fun fits :: "type_signature \<Rightarrow> clarity_value \<Rightarrow> bool"
and fits_list :: "type_signature \<Rightarrow> clarity_value list \<Rightarrow> bool"
and fits_fields :: "(clarity_name \<times> type_signature) list \<Rightarrow> (clarity_name \<times> clarity_value) list \<Rightarrow> bool" where
  "fits t (VPrincipal _) = (t = PrincipalType)"
| "fits t (VInt _) = (t = IntType)"
| "fits t (VUInt _) = (t = UIntType)"
| "fits t (VBool _) = (t = BoolType)"
| "fits t (VSequence (Buffer bs)) =
     (case t of SequenceType (BufferType (BufferLength n)) \<Rightarrow> length bs \<le> unat n | _ \<Rightarrow> False)"
| "fits t (VSequence (StringSeq (CharASCII bs))) =
     (case t of SequenceType (StringType (StrASCII (BufferLength n))) \<Rightarrow> length bs \<le> unat n
      | _ \<Rightarrow> False)"
| "fits t (VSequence (StringSeq (CharUTF8 cs))) =
     (case t of SequenceType (StringType (StrUTF8 (StringUTF8Length n))) \<Rightarrow> length cs \<le> unat n
      | _ \<Rightarrow> False)"
| "fits t (VSequence (ListSeq (ListData vs _))) =
     (case t of SequenceType (ListType (ListTypeData n e)) \<Rightarrow> length vs \<le> unat n \<and> fits_list e vs
      | _ \<Rightarrow> False)"
| "fits t (VTuple (TupleData _ d)) =
     (case t of TupleType (TupleTypeSignature m) \<Rightarrow> length m = length d \<and> fits_fields m d
      | _ \<Rightarrow> False)"
| "fits t (VOptional None) = (case t of OptionalType _ \<Rightarrow> True | _ \<Rightarrow> False)"
| "fits t (VOptional (Some v)) = (case t of OptionalType e \<Rightarrow> fits e v | _ \<Rightarrow> False)"
| "fits t (VResponse committed v) =
     (case t of ResponseType p q \<Rightarrow> if committed then fits p v else fits q v | _ \<Rightarrow> False)"
| "fits_list e [] = True"
| "fits_list e (v # vs) = (fits e v \<and> fits_list e vs)"
| "fits_fields m [] = True"
| "fits_fields m ((n, v) # d) =
     ((case map_of m n of Some t \<Rightarrow> fits t v | None \<Rightarrow> False) \<and> fits_fields m d)"

definition wf_standard_principal :: "standard_principal_data \<Rightarrow> bool" where
  "wf_standard_principal p = (case p of StandardPrincipalData _ bs \<Rightarrow> length bs = 20)"

fun wf_principal :: "principal_data \<Rightarrow> bool" where
  "wf_principal (Standard p) = wf_standard_principal p"
| "wf_principal (Contract c) =
     (wf_standard_principal (qci_issuer c) \<and> valid_contract_name (qci_name c))"

text \<open>
  The invariant of constructed values: bounded lengths, valid characters and names, stored
  signatures that are well-formed and admit the elements, wrappers within the limits.
\<close>

fun wf_value :: "clarity_value \<Rightarrow> bool"
and wf_items :: "type_signature \<Rightarrow> clarity_value list \<Rightarrow> bool"
and wf_data :: "(clarity_name \<times> type_signature) list \<Rightarrow> (clarity_name \<times> clarity_value) list \<Rightarrow> bool" where
  "wf_value (VPrincipal p) = wf_principal p"
| "wf_value (VInt _) = True"
| "wf_value (VUInt _) = True"
| "wf_value (VBool _) = True"
| "wf_value (VSequence (Buffer bs)) = (length bs \<le> 1048576)"
| "wf_value (VSequence (StringSeq (CharASCII bs))) =
     (length bs \<le> 1048576 \<and> list_all ascii_char_ok bs)"
| "wf_value (VSequence (StringSeq (CharUTF8 cs))) =
     (4 * length cs \<le> 1048576 \<and> list_all utf8_char cs)"
| "wf_value (VSequence (ListSeq (ListData vs (ListTypeData n e)))) =
     (wf_type (SequenceType (ListType (ListTypeData n e)))
      \<and> concrete_type (SequenceType (ListType (ListTypeData n e)))
      \<and> length vs \<le> unat n \<and> wf_items e vs)"
| "wf_value (VTuple (TupleData (TupleTypeSignature m) d)) =
     (wf_type (TupleType (TupleTypeSignature m)) \<and> concrete_fields m
      \<and> list_all (\<lambda>(n, _). valid_clarity_name n) m
      \<and> map fst d = map fst m \<and> wf_data m d)"
| "wf_value (VOptional None) = True"
| "wf_value (VOptional (Some v)) =
     (wf_value v \<and> tsize (vtype v) + 1 \<le> 1048576 \<and> tdepth (vtype v) < 32)"
| "wf_value (VResponse _ v) =
     (wf_value v \<and> tsize (vtype v) + 1 \<le> 1048576 \<and> tdepth (vtype v) < 32)"
| "wf_items e [] = True"
| "wf_items e (v # vs) = (wf_value v \<and> admits_type e (vtype v) = Ok True \<and> wf_items e vs)"
| "wf_data m [] = True"
| "wf_data m ((n, v) # d) =
     (wf_value v
      \<and> (case map_of m n of Some t \<Rightarrow> admits_type t (vtype v) = Ok True | None \<Rightarrow> False)
      \<and> wf_data m d)"

text \<open>A value with every stored signature replaced by a fixed one.\<close>

fun erase :: "clarity_value \<Rightarrow> clarity_value"
and erase_list :: "clarity_value list \<Rightarrow> clarity_value list"
and erase_fields :: "(clarity_name \<times> clarity_value) list \<Rightarrow> (clarity_name \<times> clarity_value) list" where
  "erase (VInt i) = VInt i"
| "erase (VUInt i) = VUInt i"
| "erase (VBool b) = VBool b"
| "erase (VPrincipal p) = VPrincipal p"
| "erase (VSequence (Buffer bs)) = VSequence (Buffer bs)"
| "erase (VSequence (StringSeq s)) = VSequence (StringSeq s)"
| "erase (VSequence (ListSeq (ListData vs _))) =
     VSequence (ListSeq (ListData (erase_list vs) empty_list))"
| "erase (VTuple (TupleData _ d)) = VTuple (TupleData (TupleTypeSignature []) (erase_fields d))"
| "erase (VOptional None) = VOptional None"
| "erase (VOptional (Some v)) = VOptional (Some (erase v))"
| "erase (VResponse c v) = VResponse c (erase v)"
| "erase_list [] = []"
| "erase_list (v # vs) = erase v # erase_list vs"
| "erase_fields [] = []"
| "erase_fields ((n, v) # d) = (n, erase v) # erase_fields d"

text \<open>Each child type agrees on its tuple fields with the supertype of the ones before it.\<close>

fun parent_same_fields :: "type_signature \<Rightarrow> type_signature list \<Rightarrow> bool" where
  "parent_same_fields t [] = True"
| "parent_same_fields t (u # us) =
     (same_fields t u \<and>
      (case least_supertype t u of Ok t' \<Rightarrow> parent_same_fields t' us | _ \<Rightarrow> True))"

section \<open>Lemmas\<close>

lemma value_induct [case_names Int UInt Bool Principal Buffer ASCII UTF8 List Tuple None Some Response]:
  assumes "\<And>i. P (VInt i)" "\<And>i. P (VUInt i)" "\<And>b. P (VBool b)" "\<And>p. P (VPrincipal p)"
    and "\<And>bs. P (VSequence (Buffer bs))"
    and "\<And>bs. P (VSequence (StringSeq (CharASCII bs)))"
    and "\<And>cs. P (VSequence (StringSeq (CharUTF8 cs)))"
    and "\<And>vs n e. (\<And>v. v \<in> set vs \<Longrightarrow> P v) \<Longrightarrow> P (VSequence (ListSeq (ListData vs (ListTypeData n e))))"
    and "\<And>m d. (\<And>n v. (n, v) \<in> set d \<Longrightarrow> P v) \<Longrightarrow> P (VTuple (TupleData (TupleTypeSignature m) d))"
    and "P (VOptional None)"
    and "\<And>v. P v \<Longrightarrow> P (VOptional (Some v))"
    and "\<And>c v. P v \<Longrightarrow> P (VResponse c v)"
  shows "P v"
proof (induction v rule: measure_induct_rule [of size])
  case (less v)
  have items: "u \<in> set vs \<Longrightarrow> size u < size (VSequence (ListSeq (ListData vs lt)))" for u vs lt
    by (induction vs) auto
  have data: "(n, u) \<in> set d \<Longrightarrow> size u < size (VTuple (TupleData ts d))" for n u d ts
    by (induction d) auto
  show ?case
    using less.IH by (cases v rule: wf_value.cases) (auto intro!: assms dest: items data)
qed

lemma wf_items_iff:
  "wf_items e vs \<longleftrightarrow> (\<forall>v \<in> set vs. wf_value v \<and> admits_type e (vtype v) = Ok True)"
  by (induction vs) auto

lemma wf_data_iff:
  "wf_data m d \<longleftrightarrow>
    (\<forall>(n, v) \<in> set d. wf_value v \<and> (\<exists>t. map_of m n = Some t \<and> admits_type t (vtype v) = Ok True))"
  by (induction d) (auto split: option.splits)

lemma fits_list_iff: "fits_list e vs \<longleftrightarrow> (\<forall>v \<in> set vs. fits e v)"
  by (induction vs) auto

lemma fits_fields_iff:
  "fits_fields m d \<longleftrightarrow> (\<forall>(n, v) \<in> set d. \<exists>t. map_of m n = Some t \<and> fits t v)"
  by (induction d) (auto split: option.splits)

lemma wf_value_type:
  "wf_value v \<Longrightarrow> type_of v = Ok (vtype v) \<and> wf_type (vtype v) \<and> concrete_type (vtype v)"
proof (induction v rule: value_induct)
  case (Buffer bs)
  then show ?case
    by (simp add: buff_type_signature_def buffer_length_try_from_usize_def unat_of_nat_lt)
next
  case (ASCII bs)
  then show ?case
    by (simp add: ascii_type_signature_def buffer_length_try_from_usize_def unat_of_nat_lt)
next
  case (UTF8 cs)
  then show ?case
    by (simp add: utf8_type_signature_def string_utf8_length_try_from_usize_def unat_of_nat_lt)
next
  case None
  then show ?case by (simp add: new_option_eq)
next
  case (Some v)
  then show ?case by (auto simp: new_option_eq)
next
  case (Response c v)
  then show ?case by (auto simp: new_response_eq)
qed simp_all

lemma value_size_eq: "wf_value v \<Longrightarrow> value_size v = Ok (of_nat (tsize (vtype v)))"
  by (simp add: value_size_def wf_value_type)

lemma value_depth_eq: "wf_value v \<Longrightarrow> value_depth v = Ok (of_nat (tdepth (vtype v)))"
  by (simp add: value_depth_def wf_value_type depth_eq)

lemma admits_eq: "wf_value v \<Longrightarrow> admits t v = admits_type t (vtype v)"
  by (simp add: admits_def wf_value_type)

lemma tuple_keys_eq:
  assumes "btree_wf m" "btree_wf m'" "length m = length m'" "fst ` set m \<subseteq> fst ` set m'"
  shows "fst ` set m = fst ` set m'"
proof -
  have "card (fst ` set m) = length m" "card (fst ` set m') = length m'"
    using assms(1,2)[THEN btree_wf_distinct, THEN distinct_card] by simp_all
  then show ?thesis using assms(3,4) by (intro card_subset_eq) auto
qed

lemma not_fits_NoType [simp]: "\<not> fits NoType v"
  by (cases v rule: wf_value.cases) auto

lemma admits_type_sound:
  "\<lbrakk>admits_type t s = Ok True; fits s v; wf_type t; wf_type s\<rbrakk> \<Longrightarrow> fits t v"
proof (induction v arbitrary: t s rule: value_induct)
  case (Tuple m0 d)
  then obtain ms where s: "s = TupleType (TupleTypeSignature ms)"
    and fs: "length ms = length d" "fits_fields ms d"
    by (cases s rule: wf_type.cases) auto
  from Tuple.prems(1) s obtain mt where t: "t = TupleType (TupleTypeSignature mt)"
    by (cases t rule: wf_type.cases) (auto simp: admits_iffs)
  have len: "length mt = length ms"
    and adm: "\<And>n u. (n, u) \<in> set mt \<Longrightarrow> \<exists>w. map_of ms n = Some w \<and> admits_type u w = Ok True"
    using Tuple.prems(1) by (auto simp: s t admits_iffs)
  have "fst ` set mt \<subseteq> fst ` set ms"
    by (auto dest!: adm map_of_SomeD intro: rev_image_eqI)
  then have keys: "fst ` set mt = fst ` set ms"
    using Tuple.prems(3,4) len by (intro tuple_keys_eq) (auto simp: s t)
  have "\<exists>u. map_of mt n = Some u \<and> fits u w" if "(n, w) \<in> set d" for n w
  proof -
    from fs(2) that obtain x where x: "map_of ms n = Some x" "fits x w"
      by (auto simp: fits_fields_iff)
    then have "n \<in> fst ` set mt" by (auto simp: keys dest: map_of_SomeD intro: rev_image_eqI)
    then obtain u where u: "map_of mt n = Some u" "(n, u) \<in> set mt"
      by (metis map_of_eq_None_iff map_of_SomeD not_None_eq)
    with adm x have "admits_type u x = Ok True" by fastforce
    moreover have "wf_type u" "wf_type x"
      using Tuple.prems(3,4) u x by (auto simp: s t dest: wf_fieldsD map_of_SomeD)
    ultimately show ?thesis using Tuple.IH [OF that] x u by blast
  qed
  then show ?case using len fs by (auto simp: t fits_fields_iff)
next
  case (List vs n0 e0)
  then obtain n e where s: "s = SequenceType (ListType (ListTypeData n e))"
    by (cases s rule: wf_type.cases) auto
  from List.prems(1) s obtain m f where t: "t = SequenceType (ListType (ListTypeData m f))"
    by (cases t rule: wf_type.cases) (auto simp: admits_iffs)
  from List.prems have "length vs \<le> unat n" "fits_list e vs"
    and "n = 0 \<or> n \<le> m \<and> admits_type f e = Ok True" "wf_type e" "wf_type f"
    by (auto simp: s t admits_iffs)
  then show ?case
    using List.IH by (auto simp: t fits_list_iff word_le_nat_alt)
next
  case (Some v)
  then obtain e where s: "s = OptionalType e" "fits e v" by (cases s rule: wf_type.cases) auto
  from Some.prems(1) s obtain f where t: "t = OptionalType f"
    by (cases t rule: wf_type.cases) (auto simp: admits_iffs)
  from Some s(2) show ?case by (auto simp: s(1) t admits_iffs)
next
  case (Response c v)
  then obtain p q where s: "s = ResponseType p q" by (cases s rule: wf_type.cases) auto
  from Response.prems(1) s obtain p' q' where t: "t = ResponseType p' q'"
    by (cases t rule: wf_type.cases) (auto simp: admits_iffs)
  from Response show ?case by (auto simp: s t admits_iffs split: if_splits)
next
  case (Buffer bs)
  then obtain n where "s = SequenceType (BufferType (BufferLength n))" "length bs \<le> unat n"
    by (cases s rule: wf_type.cases) auto
  with Buffer.prems(1) show ?case
    by (cases t rule: wf_type.cases) (auto simp: admits_iffs word_le_nat_alt)
next
  case (ASCII bs)
  then obtain n where "s = SequenceType (StringType (StrASCII (BufferLength n)))"
      "length bs \<le> unat n"
    by (cases s rule: wf_type.cases) auto
  with ASCII.prems(1) show ?case
    by (cases t rule: wf_type.cases) (auto simp: admits_iffs word_le_nat_alt)
next
  case (UTF8 cs)
  then obtain n where "s = SequenceType (StringType (StrUTF8 (StringUTF8Length n)))"
      "length cs \<le> unat n"
    by (cases s rule: wf_type.cases) auto
  with UTF8.prems(1) show ?case
    by (cases t rule: wf_type.cases) (auto simp: admits_iffs word_le_nat_alt)
next
  case None
  then obtain e where "s = OptionalType e" by (cases s rule: wf_type.cases) auto
  with None.prems(1) show ?case by (cases t rule: wf_type.cases) (auto simp: admits_iffs)
next
  case (Int i)
  then show ?case by (cases t rule: wf_type.cases) (auto simp: admits_iffs)
next
  case (UInt i)
  then show ?case by (cases t rule: wf_type.cases) (auto simp: admits_iffs)
next
  case (Bool b)
  then show ?case by (cases t rule: wf_type.cases) (auto simp: admits_iffs)
next
  case (Principal p)
  then show ?case by (cases t rule: wf_type.cases) (auto simp: admits_iffs)
qed

lemma wf_value_fits: "wf_value v \<Longrightarrow> fits (vtype v) v"
proof (induction v rule: value_induct)
  case (List vs n e)
  have "fits e v" if "v \<in> set vs" for v
  proof -
    from that List.prems have v: "wf_value v" "admits_type e (vtype v) = Ok True" "wf_type e"
      by (auto simp: wf_items_iff)
    show ?thesis
      using admits_type_sound [OF v(2) List.IH [OF that v(1)] v(3)] wf_value_type [OF v(1)] by simp
  qed
  with List.prems show ?case by (simp add: fits_list_iff)
next
  case (Tuple m d)
  have "\<exists>t. map_of m n = Some t \<and> fits t v" if "(n, v) \<in> set d" for n v
  proof -
    from that Tuple.prems obtain t where t: "map_of m n = Some t" "admits_type t (vtype v) = Ok True"
      "wf_value v" by (auto simp: wf_data_iff)
    then have "wf_type t" using Tuple.prems by (auto dest: map_of_SomeD wf_fieldsD)
    then show ?thesis
      using admits_type_sound [OF t(2) Tuple.IH [OF that t(3)]] wf_value_type [OF t(3)] t(1)
      by simp
  qed
  moreover have "length m = length d"
    using Tuple.prems by (auto dest: map_eq_imp_length_eq)
  ultimately show ?case by (auto simp: fits_fields_iff)
qed (auto simp: unat_of_nat_lt)

lemma wf_not_NoType: "wf_value v \<Longrightarrow> vtype v \<noteq> NoType"
  using wf_value_type [of v] by auto

lemma wrap_value_eq:
  assumes "wf_value v"
  shows "wrap_value v w =
    (if 1048576 < tsize (vtype v) + 1 then Err (Unchecked ValueTooLarge)
     else if 32 \<le> tdepth (vtype v) then Err (Unchecked TypeSignatureTooDeep) else Ok w)"
proof -
  have "wf_type (vtype v)" using wf_value_type [OF assms] by simp
  then show ?thesis
    using size_exceeds_iff [OF wf_tsize] depth_exceeds_iff [OF wf_tdepth]
    by (simp add: wrap_value_def value_size_eq value_depth_eq assms add.commute)
qed

lemma items_admitted_Ok:
  "list_all wf_value vs \<Longrightarrow> items_admitted e vs = Ok () \<longleftrightarrow> wf_items e vs"
  by (induction vs) (auto simp: admits_eq ex_bool_eq)

lemma list_with_type_wf:
  assumes "list_all wf_value vs" "wf_type (SequenceType (ListType lt))"
    "concrete_type (SequenceType (ListType lt))" "list_with_type vs lt = Ok v"
  shows "v = VSequence (ListSeq (ListData vs lt)) \<and> wf_value v"
  using assms by (cases lt) (auto simp: items_admitted_Ok split: if_splits)

lemma buff_from_eq:
  "buff_from bs =
    (if length bs \<le> 1048576 then Ok (VSequence (Buffer bs)) else Err (Unchecked ValueTooLarge))"
  by (simp add: buff_from_def buffer_length_try_from_usize_def)

lemma string_ascii_from_bytes_eq:
  "string_ascii_from_bytes bs =
    (if 1048576 < length bs then Err (Unchecked ValueTooLarge)
     else if list_all ascii_char_ok bs then Ok (VSequence (StringSeq (CharASCII bs)))
     else Err (Unchecked InvalidCharactersDetected))"
  by (simp add: string_ascii_from_bytes_def buffer_length_try_from_usize_def)

lemma string_utf8_from_bytes_eq:
  "string_utf8_from_bytes bs =
    (case utf8_split bs of None \<Rightarrow> Err (Unchecked InvalidCharactersDetected)
     | Some cs \<Rightarrow> if 4 * length cs \<le> 1048576 then Ok (VSequence (StringSeq (CharUTF8 cs)))
         else Err (Unchecked ValueTooLarge))"
  by (auto simp: string_utf8_from_bytes_def string_utf8_length_try_from_usize_def mult.commute
      split: option.split)

lemma string_utf8_from_bytes_wf:
  "string_utf8_from_bytes bs = Ok v \<Longrightarrow> wf_value v"
  by (auto simp: string_utf8_from_bytes_eq split: option.splits if_splits dest!: utf8_split_Some)

lemma map_btree_insert:
  "map (apsnd f) (btree_insert k v m) = btree_insert k (f v) (map (apsnd f) m)"
  by (induction m) auto

lemma fst_apsnd [simp]: "map fst (map (apsnd f) m) = map fst m"
  by (induction m) auto

lemma map_of_apsnd: "map_of (map (apsnd f) m) k = map_option f (map_of m k)"
  by (induction m) auto

lemma from_data_loop_Ok:
  "\<lbrakk>from_data_loop data tm dm = Ok (tm', dm'); tm = map (apsnd vtype) dm;
    list_all (\<lambda>(_, v). wf_value v) data\<rbrakk> \<Longrightarrow>
    tm' = map (apsnd vtype) dm' \<and> dm' = fold (\<lambda>(n, v). btree_insert n v) data dm
    \<and> distinct (map fst data) \<and> (\<forall>n \<in> fst ` set data. map_of dm n = None)"
proof (induction data tm dm rule: from_data_loop.induct)
  case (2 n v data tm dm)
  from 2(2-) have "map_of tm n = None" "wf_value v"
    by (auto split: if_splits)
  with 2 show ?case
    by (auto simp: wf_value_type map_btree_insert map_of_apsnd split: if_splits)
qed simp

lemma fold_btree_insert:
  "\<lbrakk>distinct (map fst data); btree_wf dm; \<forall>n \<in> fst ` set data. map_of dm n = None\<rbrakk> \<Longrightarrow>
    btree_wf (fold (\<lambda>(n, v). btree_insert n v) data dm)
    \<and> set (fold (\<lambda>(n, v). btree_insert n v) data dm) = set data \<union> set dm"
proof (induction data arbitrary: dm)
  case (Cons e data)
  obtain n v where e: "e = (n, v)" by (cases e)
  have "{x \<in> set dm. fst x \<noteq> n} = set dm"
    using Cons.prems by (force simp: e map_of_eq_None_iff)
  moreover have "\<forall>k \<in> fst ` set data. map_of (btree_insert n v dm) k = None"
    using Cons.prems by (auto simp: e)
  ultimately show ?case
    using Cons.IH [of "btree_insert n v dm"] Cons.prems by (simp add: e set_btree_insert)
qed simp

lemma from_data_wf:
  assumes "from_data data = Ok td" "list_all (\<lambda>(n, v). wf_value v \<and> valid_clarity_name n) data"
  shows "wf_value (VTuple td) \<and> distinct (map fst data)
    \<and> (\<forall>n. map_of (td_data_map td) n = map_of data n)"
proof -
  from assms(1) obtain tm dm ts where loop: "from_data_loop data [] [] = Ok (tm, dm)"
    and ts: "tuple_try_from_map tm = Ok ts" and td: "td = TupleData ts dm"
    by (auto simp: from_data_def)
  have "list_all (\<lambda>(_, v). wf_value v) data" using assms(2) by (auto simp: list_all_iff)
  note spec = from_data_loop_Ok [OF loop _ this]
  then have dm: "dm = fold (\<lambda>(n, v). btree_insert n v) data []"
    and tm: "tm = map (apsnd vtype) dm" and dist: "distinct (map fst data)" by auto
  note f = fold_btree_insert [OF dist, of "[]"]
  have bt: "btree_wf dm" and set: "set dm = set data" using f dm by simp_all
  from ts have ts': "ts = TupleTypeSignature tm"
    by (auto simp: tuple_try_from_map_def split: if_splits)
  have tmE: "\<exists>v. (n, v) \<in> set dm \<and> t = vtype v" if "(n, t) \<in> set tm" for n t
    using that by (auto simp: tm)
  have data: "wf_value v \<and> valid_clarity_name n" if "(n, v) \<in> set dm" for n v
    using that assms(2) set by (auto simp: list_all_iff)
  have types: "wf_type t \<and> concrete_type t \<and> valid_clarity_name n" if "(n, t) \<in> set tm" for n t
    using tmE [OF that] data wf_value_type by blast
  have "wf_fields tm"
    using types by (auto simp: wf_fields_iff valid_clarity_name_iff)
  then have "wf_type (TupleType (TupleTypeSignature tm))"
    using tuple_try_from_map_wf [of tm ts] ts bt by (simp add: ts' tm)
  moreover have "concrete_fields tm" "list_all (\<lambda>(n, _). valid_clarity_name n) tm"
    using types by (auto simp: concrete_fields_iff list_all_iff)
  moreover have "\<exists>t. map_of tm n = Some t \<and> admits_type t (vtype v) = Ok True"
    if "(n, v) \<in> set dm" for n v
    using that data [OF that] bt wf_value_type [of v]
    by (simp add: tm map_of_apsnd btree_mem_iff admits_refl_iff)
  then have "wf_data tm dm" using data by (auto simp: wf_data_iff)
  moreover have "map_of dm n = map_of data n" for n
    using map_of_inject_set [of dm data] set dist btree_wf_distinct [OF bt] by simp
  ultimately show ?thesis using dist by (simp add: td ts' tm)
qed

lemma from_data_typed_loop_Ok:
  "\<lbrakk>from_data_typed_loop (TupleTypeSignature m) data dm = Ok dm';
    list_all (\<lambda>(_, v). wf_value v) data; wf_data m dm; btree_wf dm\<rbrakk> \<Longrightarrow>
    wf_data m dm' \<and> btree_wf dm' \<and> fst ` set dm' = fst ` set data \<union> fst ` set dm"
proof (induction data arbitrary: dm)
  case (Cons e data)
  obtain n v where e: "e = (n, v)" by (cases e)
  from Cons.prems obtain t where t: "map_of m n = Some t" "admits_type t (vtype v) = Ok True"
    "wf_value v"
    and loop: "from_data_typed_loop (TupleTypeSignature m) data (btree_insert n v dm) = Ok dm'"
    by (auto simp: e admits_eq split: if_splits)
  have "wf_data m (btree_insert n v dm)"
    using t Cons.prems(3,4) by (simp add: wf_data_iff set_btree_insert)
  with Cons.IH [OF loop] Cons.prems show ?case by (simp add: e)
qed simp

lemma from_data_typed_wf:
  assumes "from_data_typed data (TupleTypeSignature m) = Ok td"
    "list_all (\<lambda>(_, v). wf_value v) data"
    "wf_type (TupleType (TupleTypeSignature m))" "concrete_fields m"
    "list_all (\<lambda>(n, _). valid_clarity_name n) m"
    and all: "fst ` set m \<subseteq> fst ` set data"
  shows "wf_value (VTuple td)"
proof -
  from assms(1) obtain dm where loop: "from_data_typed_loop (TupleTypeSignature m) data [] = Ok dm"
    and td: "td = TupleData (TupleTypeSignature m) dm"
    by (auto simp: from_data_typed_def)
  from from_data_typed_loop_Ok [OF loop assms(2)] have wd: "wf_data m dm" "btree_wf dm"
    and keys: "fst ` set dm = fst ` set data" by auto
  have "n \<in> fst ` set m" if "(n, v) \<in> set dm" for n v
    using wd(1) that by (auto simp: wf_data_iff dest!: bspec [OF _ that] map_of_SomeD
        intro: rev_image_eqI)
  then have "fst ` set dm \<subseteq> fst ` set m" by auto
  with all keys have "set (map fst dm) = set (map fst m)" by auto
  moreover have "btree_wf m" using assms(3) by simp
  ultimately have "map fst dm = map fst m"
    using wd(2) by (simp add: strict_sorted_equal)
  with assms wd show ?thesis by (simp add: td)
qed


lemma values_eq_iff: "values_eq vs ws \<longleftrightarrow> list_all2 value_eq vs ws"
  by (induction vs arbitrary: ws) (auto split: list.splits)

lemma erase_list_map: "erase_list vs = map erase vs"
  by (induction vs) auto

lemma erase_fields_map: "erase_fields d = map (apsnd erase) d"
  by (induction d) auto

lemma erase_atom_iffs:
  "VInt i = erase w \<longleftrightarrow> w = VInt i" "VUInt i = erase w \<longleftrightarrow> w = VUInt i"
  "VBool b = erase w \<longleftrightarrow> w = VBool b" "VPrincipal p = erase w \<longleftrightarrow> w = VPrincipal p"
  "VSequence (Buffer bs) = erase w \<longleftrightarrow> w = VSequence (Buffer bs)"
  "VSequence (StringSeq s) = erase w \<longleftrightarrow> w = VSequence (StringSeq s)"
  "VOptional None = erase w \<longleftrightarrow> w = VOptional None"
  by (cases w rule: erase.cases; auto)+

lemma value_eq_iff_erase: "value_eq v w \<longleftrightarrow> erase v = erase w"
proof (induction v arbitrary: w rule: value_induct)
  case (List vs n e)
  have "values_eq us ws \<longleftrightarrow> erase_list us = erase_list ws"
    if "\<And>u x. u \<in> set us \<Longrightarrow> value_eq u x \<longleftrightarrow> erase u = erase x" for us ws
    using that by (induction us arbitrary: ws) (auto split: list.splits simp: erase_list_map)
  then show ?case using List by (cases w rule: erase.cases) auto
next
  case (Tuple m d)
  have "fields_eq c e \<longleftrightarrow> erase_fields c = erase_fields e"
    if "\<And>n u x. (n, u) \<in> set c \<Longrightarrow> value_eq u x \<longleftrightarrow> erase u = erase x" for c e
    using that
    by (induction c arbitrary: e) (auto split: list.splits simp: erase_fields_map, metis+)
  then show ?case using Tuple by (cases w rule: erase.cases) auto
next
  case (Some v)
  then show ?case by (cases w rule: erase.cases) auto
next
  case (Response c v)
  then show ?case by (cases w rule: erase.cases) auto
qed (simp_all add: erase_atom_iffs)

lemma least_supertype_concrete:
  "\<lbrakk>least_supertype a b = Ok t; wf_type a; wf_type b; concrete_type a; concrete_type b\<rbrakk> \<Longrightarrow>
    concrete_type t"
proof (induction a arbitrary: b t rule: type_induct)
  case (Tuple ma)
  have "b \<noteq> NoType" using Tuple.prems(5) by auto
  with Tuple.prems obtain mb out where b: "b = TupleType (TupleTypeSignature mb)"
    and t: "t = TupleType (TupleTypeSignature out)"
    and fields: "\<And>n u. (n, u) \<in> set out \<Longrightarrow> \<exists>ta tb. (n, ta) \<in> set ma \<and> map_of ma n = Some ta
      \<and> map_of mb n = Some tb \<and> least_supertype ta tb = Ok u"
    by (auto elim!: least_supertype_TupleE)
  have "concrete_type u" if "(n, u) \<in> set out" for n u
  proof -
    from fields [OF that] obtain ta tb where f: "(n, ta) \<in> set ma" "map_of mb n = Some tb"
      "least_supertype ta tb = Ok u" by blast
    moreover have "wf_type ta" "wf_type tb" "concrete_type ta" "concrete_type tb"
      using f Tuple.prems(2-5) by (auto simp: b concrete_fields_iff dest!: map_of_SomeD wf_fieldsD)
    ultimately show ?thesis using Tuple.IH [OF f(1)] by blast
  qed
  then show ?case by (auto simp: t concrete_fields_iff)
next
  case (List n e)
  then obtain m f g where b: "b = SequenceType (ListType (ListTypeData m f))"
    and g: "if n = 0 then g = f else if m = 0 then g = e else least_supertype e f = Ok g"
    and t: "t = SequenceType (ListType (ListTypeData (max n m) g))"
    by (auto simp: least_supertype_iffs dest: constructor_OkD)
  show ?case using g List.prems(2-5) List.IH by (auto simp: b t max_def split: if_splits)
next
  case (Optional u)
  then obtain v w where "b = OptionalType v" "factor_out_no_type u v = Ok w" "t = OptionalType w"
    by (auto simp: least_supertype_iffs simp del: factor_out_no_type.simps dest: constructor_OkD)
  with Optional show ?case by (auto simp: is_no_type_def split: if_splits)
next
  case (Response p q)
  then obtain r s u v where b: "b = ResponseType r s" and t: "t = ResponseType u v"
    and f: "factor_out_no_type p r = Ok u" "factor_out_no_type q s = Ok v"
    by (auto simp: least_supertype_iffs simp del: factor_out_no_type.simps dest: constructor_OkD)
  have wf: "wf_type p" "wf_type q" "wf_type r" "wf_type s" using Response.prems(2,3) b by auto
  have "(p = NoType \<or> concrete_type p) \<and> (r = NoType \<or> concrete_type r) \<Longrightarrow>
      (p = NoType \<and> r = NoType \<and> u = NoType) \<or> concrete_type u"
    and "(q = NoType \<or> concrete_type q) \<and> (s = NoType \<or> concrete_type s) \<Longrightarrow>
      (q = NoType \<and> s = NoType \<and> v = NoType) \<or> concrete_type v"
    using f wf Response.IH by (auto simp: is_no_type_def split: if_splits)
  with Response.prems(4,5) show ?case by (auto simp: b t)
qed (auto simp: least_supertype_iffs supertype_atom_def split: if_splits)

lemma parent_fold_upper:
  "\<lbrakk>parent_fold t us = Ok r; wf_type t; concrete_type t;
    list_all (\<lambda>u. wf_type u \<and> concrete_type u) us; parent_same_fields t us\<rbrakk> \<Longrightarrow>
    wf_type r \<and> concrete_type r \<and> admits_type r t = Ok True
    \<and> (\<forall>u \<in> set us. admits_type r u = Ok True)"
proof (induction us arbitrary: t)
  case Nil
  then show ?case by (simp add: admits_refl_iff)
next
  case (Cons u us)
  from Cons.prems obtain t' where t': "least_supertype t u = Ok t'" "parent_fold t' us = Ok r" by auto
  note sup = least_supertype_wf [OF t'(1)] least_supertype_concrete [OF t'(1)]
    least_supertype_upper [OF t'(1)]
  have "wf_type t'" "concrete_type t'" "admits_type t' t = Ok True" "admits_type t' u = Ok True"
    using sup Cons.prems by auto
  with Cons.IH [OF t'(2)] Cons.prems t'(1) show ?case by (auto intro: admits_trans)
qed

lemma types_of_Ok: "list_all wf_value vs \<Longrightarrow> types_of vs = Ok (map vtype vs)"
  by (induction vs) (auto simp: wf_value_type)

lemma list_from_wf:
  assumes "list_from vs = Ok v" "list_all wf_value vs"
    "vs = [] \<or> parent_same_fields (vtype (hd vs)) (map vtype (tl vs))"
  shows "wf_value v \<and> expect_list v = Ok vs"
proof (cases vs)
  case Nil
  with assms show ?thesis
    by (auto simp: list_from_def construct_parent_list_type_def empty_list_def)
next
  case (Cons x xs)
  with assms(1,2) obtain r lt where r: "parent_fold (vtype x) (map vtype xs) = Ok r"
    and lt: "new_list r (of_nat (length vs)) = Ok lt" "length vs < 2 ^ 32"
    and v: "v = VSequence (ListSeq (ListData vs lt))"
    by (auto simp: list_from_def construct_parent_list_type_def types_of_Ok try_from_nat_def
        simp del: types_of.simps split: if_splits)
  have all: "list_all (\<lambda>u. wf_type u \<and> concrete_type u) (map vtype vs)"
    using assms(2) by (auto simp: list_all_iff wf_value_type)
  have up: "wf_type r \<and> concrete_type r \<and> (\<forall>w \<in> set vs. admits_type r (vtype w) = Ok True)"
    using parent_fold_upper [OF r] all assms(3) by (auto simp: Cons)
  have lt': "lt = ListTypeData (of_nat (length vs)) r"
    using lt(1) by (auto simp: new_list_def Let_def split: if_splits)
  have "wf_type (SequenceType (ListType lt))" using up lt(1) by (blast intro: new_list_wf)
  moreover have "wf_items r vs" using up assms(2) by (auto simp: wf_items_iff list_all_iff)
  ultimately show ?thesis
    using up lt(2) by (simp add: v lt' unat_of_nat_lt)
qed


lemma drain_filter_pure:
  assumes "\<And>x. x \<in> set xs \<Longrightarrow> to_value x = Ok (f x)"
  shows "drain_filter to_value (\<lambda>s v. (Ok (p v), s)) s kept xs =
    (Ok (), kept @ filter (\<lambda>x. p (f x)) xs, s)"
  using assms by (induction xs arbitrary: kept) auto

lemma ascii_to_value_Ok:
  "ascii_char_ok b \<Longrightarrow> ascii_to_value b = Ok (VSequence (StringSeq (CharASCII [b])))"
  by (simp add: ascii_to_value_def string_ascii_from_bytes_eq)

lemma utf8_to_value_Ok: "utf8_char c \<Longrightarrow> utf8_to_value c = Ok (VSequence (StringSeq (CharUTF8 [c])))"
  using utf8_split_concat [of "[c]"] by (simp add: utf8_to_value_def string_utf8_from_bytes_eq)

section \<open>Properties\<close>

text \<open>C19: On every well-formed value \<open>type_of\<close> and \<open>size\<close> return, without panicking, the exact type
  and size; the type is well-formed, below the size limit, and the value is a member of it.\<close>

theorem value_type_exact:
  assumes "wf_value v"
  shows "type_of v = Ok (vtype v) \<and> wf_type (vtype v) \<and> fits (vtype v) v
    \<and> value_size v = Ok (of_nat (tsize (vtype v))) \<and> tsize (vtype v) \<le> 1048580"
  using wf_value_type [OF assms] wf_value_fits [OF assms] value_size_eq [OF assms]
    wf_tsize [of "vtype v"] by simp

theorem value_type_exact_witness:
  "value_size (VOptional (Some (VSequence (Buffer [1, 2, 3])))) = Ok 8"
  using value_type_exact [of "VOptional (Some (VSequence (Buffer [1, 2, 3])))"] by simp

text \<open>C20: Admission is sound: if a well-formed type admits a well-formed value, then the value is a
  member of the type, whatever signatures are stored inside the value.\<close>

theorem admits_sound:
  assumes "wf_value v" "wf_type t" "admits t v = Ok True"
  shows "fits t v"
proof -
  note v = wf_value_type [OF assms(1)]
  have "admits_type t (vtype v) = Ok True" using assms(3) by (simp add: admits_eq [OF assms(1)])
  then show ?thesis using admits_type_sound wf_value_fits [OF assms(1)] assms(2) v by blast
qed

theorem admits_sound_witness:
  "fits (ResponseType IntType UIntType) (VResponse False (VUInt 7))"
  using admits_sound [of "VResponse False (VUInt 7)" "ResponseType IntType UIntType"]
  by (simp add: admits_eq admits_iffs)



text \<open>C31: \<open>list_from\<close> returns a well-formed list with the given elements whenever the element types
  agree on their tuple fields; without that condition it can return a list whose second element
  its own entry type does not admit.\<close>

theorem list_from_correct:
  "(list_all wf_value vs \<longrightarrow> list_from vs = Ok v \<longrightarrow>
      (vs = [] \<or> parent_same_fields (vtype (hd vs)) (map vtype (tl vs))) \<longrightarrow>
      wf_value v \<and> expect_list v = Ok vs)
   \<and> (let ts = (\<lambda>ns. TupleTypeSignature (map (\<lambda>n. (n, IntType)) ns));
          a = VTuple (TupleData (ts [''x'']) [(''x'', VInt 1)]);
          b = VTuple (TupleData (ts [''x'', ''y'']) [(''x'', VInt 1), (''y'', VInt 2)]);
          l = VSequence (ListSeq (ListData [a, b] (ListTypeData 2 (TupleType (ts [''x''])))))
      in wf_value a \<and> wf_value b \<and> list_from [a, b] = Ok l \<and> \<not> wf_value l
         \<and> \<not> fits (vtype l) l)"
proof -
  have "tuple_try_from_map [(''x'', IntType)] = Ok (TupleTypeSignature [(''x'', IntType)])"
    by (subst tuple_try_from_map_eq) auto
  moreover have "new_list (TupleType (TupleTypeSignature [(''x'', IntType)])) 2 =
      Ok (ListTypeData 2 (TupleType (TupleTypeSignature [(''x'', IntType)])))"
    by (subst new_list_eq) auto
  ultimately show ?thesis
    using list_from_wf [of vs v]
    by (simp add: list_from_def construct_parent_list_type_def least_supertype.simps(1)
        supertype_atom_def try_from_nat_def admits_type.simps(7) valid_clarity_name_iff
        CLARITY_NAME_REGEX_def is_alpha_def char_code_def)
qed

theorem list_from_correct_witness:
  "wf_value (VSequence (ListSeq (ListData [VInt 1, VInt 2] (ListTypeData 2 IntType))))"
  using list_from_correct [of "[VInt 1, VInt 2]"
      "VSequence (ListSeq (ListData [VInt 1, VInt 2] (ListTypeData 2 IntType)))"]
  by (simp add: list_from_def construct_parent_list_type_def supertype_atom_def try_from_nat_def
      new_list_eq)

text \<open>Searching and filtering sequences: \<open>contains\<close> on a list returns the first index whose
  element equals the sought value up to stored signatures, or \<open>None\<close> when there is none, and
  \<open>filter\<close> with a total predicate keeps exactly the matching elements in order and never panics
  on a well-formed string.\<close>

lemma sequence_search_filter:
  "(seq_contains (ListSeq (ListData vs lt)) w = Ok (Some k) \<longleftrightarrow>
      k < length vs \<and> erase (vs ! k) = erase w \<and> (\<forall>j < k. erase (vs ! j) \<noteq> erase w))
   \<and> (seq_contains (ListSeq (ListData vs lt)) w = Ok None \<longleftrightarrow> (\<forall>v \<in> set vs. erase v \<noteq> erase w))
   \<and> seq_filter (\<lambda>s v. (Ok (p v), s)) s (ListSeq (ListData vs lt)) =
       (Ok (), ListSeq (ListData (filter p vs) lt), s)
   \<and> (list_all utf8_char cs \<longrightarrow> seq_filter (\<lambda>s v. (Ok (p v), s)) s (StringSeq (CharUTF8 cs)) =
       (Ok (), StringSeq (CharUTF8 (filter (\<lambda>c. p (VSequence (StringSeq (CharUTF8 [c])))) cs)), s))"
  using find_index_spec [of "\<lambda>x. value_eq x w" vs 0 k] find_index_None [of "\<lambda>x. value_eq x w" vs 0]
    drain_filter_pure [of vs Ok "\<lambda>x. x" p s "[]"]
    drain_filter_pure [of cs utf8_to_value "\<lambda>c. VSequence (StringSeq (CharUTF8 [c]))" p s "[]"]
  by (auto simp: value_eq_iff_erase list_all_iff utf8_to_value_Ok)

end
