(* ===== verification/Hex.thy ===== *)
theory Hex
  imports Prelude
begin

text \<open>
  Hexadecimal text of \<open>stacks-common/src/util/hash.rs\<close>. Strings are byte strings; a non-ASCII
  character is rejected by the source as a bad character and by the model at its first byte.
\<close>

datatype hex_error = BadLength nat | BadCharacter char

definition to_digit_16 :: "char \<Rightarrow> nat option" where
  "to_digit_16 c =
     (let n = (of_char c :: nat) in
      if 48 \<le> n \<and> n \<le> 57 then Some (n - 48)
      else if 97 \<le> n \<and> n \<le> 102 then Some (n - 87)
      else if 65 \<le> n \<and> n \<le> 70 then Some (n - 55)
      else None)"

text \<open>The fold over the pairs of characters and the remainder of the iterator.\<close>

fun hex_loop :: "string \<Rightarrow> u8 list \<Rightarrow> (hex_error, u8 list \<times> char option) result" where
  "hex_loop [] v = Ok (v, None)"
| "hex_loop [c] v = Ok (v, Some c)"
| "hex_loop (f # s # rest) v =
     (case to_digit_16 f of
        None \<Rightarrow> Err (BadCharacter f)
      | Some fd \<Rightarrow>
          (case to_digit_16 s of
             None \<Rightarrow> Err (BadCharacter s)
           | Some sd \<Rightarrow> hex_loop rest (v @ [of_nat (fd * 16 + sd)])))"

definition hex_bytes :: "string \<Rightarrow> (hex_error, u8 list) result" where
  "hex_bytes s =
     and_then (hex_loop s []) (\<lambda>(v, remainder).
       case remainder of Some _ \<Rightarrow> Err (BadLength (length s)) | None \<Rightarrow> Ok v)"

definition hex_digit :: "nat \<Rightarrow> char" where
  "hex_digit n = (if n < 10 then char_of (48 + n) else char_of (87 + n))"

definition to_hex :: "u8 list \<Rightarrow> string" where
  "to_hex s = concat (map (\<lambda>b. [hex_digit (unat b div 16), hex_digit (unat b mod 16)]) s)"

lemma to_digit_hex_digit: "n < 16 \<Longrightarrow> to_digit_16 (hex_digit n) = Some n"
  by (auto simp: to_digit_16_def hex_digit_def Let_def of_char_of)

lemma hex_loop_to_hex: "hex_loop (to_hex bs) v = Ok (v @ bs, None)"
proof (induction bs arbitrary: v)
  case (Cons b bs)
  have "unat b div 16 < 16" using unat_lt [of b] by simp
  then show ?case
    using Cons by (simp add: to_hex_def to_digit_hex_digit)
qed (simp add: to_hex_def)

lemma hex_bytes_to_hex [simp]: "hex_bytes (to_hex bs) = Ok bs"
  by (simp add: hex_bytes_def hex_loop_to_hex)

lemma length_to_hex [simp]: "length (to_hex bs) = 2 * length bs"
  by (induction bs) (simp_all add: to_hex_def)

lemma to_hex_inj [simp]: "to_hex a = to_hex b \<longleftrightarrow> a = b"
  by (metis hex_bytes_to_hex result.inject(1))

lemma hex_loop_length:
  "hex_loop s v = Ok (w, None) \<Longrightarrow> length s = 2 * (length w - length v) \<and> length v \<le> length w"
proof (induction s v rule: hex_loop.induct)
  case (3 f s rest v)
  then show ?case by (force split: option.splits)
qed auto

text \<open>Decoding the hexadecimal text of a byte string returns it, the text is twice as long, and
  every accepted text has even length.\<close>

lemma hex_round_trip:
  "hex_bytes (to_hex bs) = Ok bs \<and> length (to_hex bs) = 2 * length bs
    \<and> (\<forall>s v. hex_bytes s = Ok v \<longrightarrow> length s = 2 * length v)"
  by (auto simp: hex_bytes_def hex_loop_to_hex split: option.splits dest: hex_loop_length)

end
