(* ===== verification/Serialization.thy ===== *)
theory Serialization
  imports Values Hex
begin

text \<open>
  The consensus serialization of Clarity values
  (\<open>clarity/src/vm/types/serialization.rs\<close>) over the bounded reader of
  \<open>stacks-common/src/util/retry.rs\<close>. Writing is generic in the writer: a \<open>write_all\<close> function
  on a writer state, with the laws collected in the locale \<open>byte_writer\<close>, which is interpreted
  for the byte vector and for \<open>WriteCounter\<close>. Reading threads a \<open>bound_reader\<close> over a byte
  slice. The specification level is \<open>ser\<close>, the bytes of a value, and \<open>retype\<close>, the value with
  its stored signatures taken from an expected type; the lemmas show that typed reading inverts
  writing, that the bound of the reader covers every well-formed value, and where the reader
  departs from the writer.
\<close>

section \<open>Readers\<close>

datatype io_error = UnexpectedEof | IOOther

record bound_reader =
  fd :: "u8 list"
  max_len :: u64
  read_so_far :: u64

definition from_reader :: "u8 list \<Rightarrow> u64 \<Rightarrow> bound_reader" where
  "from_reader reader len = \<lparr>fd = reader, max_len = len, read_so_far = 0\<rparr>"

definition num_read :: "bound_reader \<Rightarrow> u64" where
  "num_read r = read_so_far r"

text \<open>One \<open>read\<close> into a buffer of \<open>n\<close> bytes; the slice reader delivers what it has.\<close>

definition bound_read :: "bound_reader \<Rightarrow> nat \<Rightarrow> (io_error, u8 list \<times> bound_reader) result" where
  "bound_read r n =
     and_then (ok_or (checked_add (read_so_far r) (of_nat n)) IOOther) (\<lambda>intended_read.
     let max_read = (if intended_read > max_len r then max_len r - read_so_far r else of_nat n);
         nr = min (unat max_read) (length (fd r))
     in Ok (take nr (fd r),
         r\<lparr>fd := drop nr (fd r), read_so_far := read_so_far r + of_nat nr\<rparr>))"

text \<open>\<open>Read::read_exact\<close>: read until the buffer is full; no progress is an end of file.\<close>

function read_exact :: "bound_reader \<Rightarrow> nat \<Rightarrow> (io_error, u8 list \<times> bound_reader) result" where
  "read_exact r n =
     (if n = 0 then Ok ([], r)
      else and_then (bound_read r n) (\<lambda>(bs, r').
        if bs = [] then Err UnexpectedEof
        else and_then (read_exact r' (n - length bs)) (\<lambda>(cs, r'').
          Ok (bs @ cs, r''))))"
  by pat_completeness auto
termination
  by (relation "measure snd") auto

declare read_exact.simps [simp del]

section \<open>Prefixes and errors\<close>

datatype serialization_error =
    SE_IOError io_error
  | BadTypeError check_errors
  | DeserializationError string
  | DeserializeExpected type_signature

datatype type_prefix =
    PInt | PUInt | PBuffer | PBoolTrue | PBoolFalse | PPrincipalStandard | PPrincipalContract
  | PResponseOk | PResponseErr | POptionalNone | POptionalSome | PList | PTuple | PStringASCII
  | PStringUTF8

fun to_u8 :: "type_prefix \<Rightarrow> u8" where
  "to_u8 PInt = 0"
| "to_u8 PUInt = 1"
| "to_u8 PBuffer = 2"
| "to_u8 PBoolTrue = 3"
| "to_u8 PBoolFalse = 4"
| "to_u8 PPrincipalStandard = 5"
| "to_u8 PPrincipalContract = 6"
| "to_u8 PResponseOk = 7"
| "to_u8 PResponseErr = 8"
| "to_u8 POptionalNone = 9"
| "to_u8 POptionalSome = 10"
| "to_u8 PList = 11"
| "to_u8 PTuple = 12"
| "to_u8 PStringASCII = 13"
| "to_u8 PStringUTF8 = 14"

definition from_u8 :: "u8 \<Rightarrow> type_prefix option" where
  "from_u8 v =
     (if v = 0 then Some PInt else if v = 1 then Some PUInt else if v = 2 then Some PBuffer
      else if v = 3 then Some PBoolTrue else if v = 4 then Some PBoolFalse
      else if v = 5 then Some PPrincipalStandard else if v = 6 then Some PPrincipalContract
      else if v = 7 then Some PResponseOk else if v = 8 then Some PResponseErr
      else if v = 9 then Some POptionalNone else if v = 10 then Some POptionalSome
      else if v = 11 then Some PList else if v = 12 then Some PTuple
      else if v = 13 then Some PStringASCII else if v = 14 then Some PStringUTF8
      else None)"

fun prefix_of_principal :: "principal_data \<Rightarrow> type_prefix" where
  "prefix_of_principal (Standard _) = PPrincipalStandard"
| "prefix_of_principal (Contract _) = PPrincipalContract"

fun prefix_of_value :: "clarity_value \<Rightarrow> type_prefix" where
  "prefix_of_value (VInt _) = PInt"
| "prefix_of_value (VUInt _) = PUInt"
| "prefix_of_value (VBool b) = (if b then PBoolTrue else PBoolFalse)"
| "prefix_of_value (VPrincipal p) = prefix_of_principal p"
| "prefix_of_value (VResponse committed _) = (if committed then PResponseOk else PResponseErr)"
| "prefix_of_value (VOptional None) = POptionalNone"
| "prefix_of_value (VOptional (Some _)) = POptionalSome"
| "prefix_of_value (VTuple _) = PTuple"
| "prefix_of_value (VSequence (Buffer _)) = PBuffer"
| "prefix_of_value (VSequence (ListSeq _)) = PList"
| "prefix_of_value (VSequence (StringSeq (CharASCII _))) = PStringASCII"
| "prefix_of_value (VSequence (StringSeq (CharUTF8 _))) = PStringUTF8"

section \<open>Writing\<close>

type_synonym 'w write_all = "'w \<Rightarrow> u8 list \<Rightarrow> (io_error, 'w) result"

fun standard_principal_write ::
    "'w write_all \<Rightarrow> 'w \<Rightarrow> standard_principal_data \<Rightarrow> (io_error, 'w) result" where
  "standard_principal_write wa w (StandardPrincipalData version data) =
     and_then (wa w [version]) (\<lambda>w. wa w data)"

definition guarded_string_write :: "'w write_all \<Rightarrow> 'w \<Rightarrow> string \<Rightarrow> (io_error, 'w) result" where
  "guarded_string_write wa w name =
     and_then (expect (guarded_len name)) (\<lambda>len.
     and_then (wa w [len]) (\<lambda>w. wa w (string_to_bytes name)))"

definition contract_identifier_write ::
    "'w write_all \<Rightarrow> 'w \<Rightarrow> qualified_contract_identifier \<Rightarrow> (io_error, 'w) result" where
  "contract_identifier_write wa w c =
     and_then (standard_principal_write wa w (qci_issuer c)) (\<lambda>w.
     guarded_string_write wa w (qci_name c))"

definition principal_inner_serialize ::
    "'w write_all \<Rightarrow> 'w \<Rightarrow> principal_data \<Rightarrow> (io_error, 'w) result" where
  "principal_inner_serialize wa w p =
     and_then (wa w [to_u8 (prefix_of_principal p)]) (\<lambda>w.
     case p of
       Standard s \<Rightarrow> standard_principal_write wa w s
     | Contract c \<Rightarrow> contract_identifier_write wa w c)"

fun write_chunks :: "'w write_all \<Rightarrow> 'w \<Rightarrow> u8 list list \<Rightarrow> (io_error, 'w) result" where
  "write_chunks wa w [] = Ok w"
| "write_chunks wa w (c # cs) = and_then (wa w c) (\<lambda>w. write_chunks wa w cs)"

fun serialize_write :: "'w write_all \<Rightarrow> 'w \<Rightarrow> clarity_value \<Rightarrow> (io_error, 'w) result"
and serialize_body :: "'w write_all \<Rightarrow> 'w \<Rightarrow> clarity_value \<Rightarrow> (io_error, 'w) result"
and serialize_items :: "'w write_all \<Rightarrow> 'w \<Rightarrow> clarity_value list \<Rightarrow> (io_error, 'w) result"
and serialize_fields ::
    "'w write_all \<Rightarrow> 'w \<Rightarrow> (clarity_name \<times> clarity_value) list \<Rightarrow> (io_error, 'w) result" where
  "serialize_write wa w v =
     and_then (wa w [to_u8 (prefix_of_value v)]) (\<lambda>w. serialize_body wa w v)"
| "serialize_body wa w (VInt i) = wa w (to_be_bytes 16 i)"
| "serialize_body wa w (VUInt i) = wa w (to_be_bytes 16 i)"
| "serialize_body wa w (VPrincipal (Standard p)) = standard_principal_write wa w p"
| "serialize_body wa w (VPrincipal (Contract c)) = contract_identifier_write wa w c"
| "serialize_body wa w (VResponse _ v) = serialize_write wa w v"
| "serialize_body wa w (VBool _) = Ok w"
| "serialize_body wa w (VOptional None) = Ok w"
| "serialize_body wa w (VOptional (Some v)) = serialize_write wa w v"
| "serialize_body wa w (VSequence (ListSeq (ListData data t))) =
     and_then (expect (list_data_len (ListData data t))) (\<lambda>len.
     and_then (wa w (to_be_bytes 4 len)) (\<lambda>w. serialize_items wa w data))"
| "serialize_body wa w (VSequence (Buffer data)) =
     and_then (expect (buff_data_len data)) (\<lambda>len.
     and_then (wa w (to_be_bytes 4 (u32_from_buffer_length len))) (\<lambda>w. wa w data))"
| "serialize_body wa w (VSequence (StringSeq (CharUTF8 data))) =
     (let total_len = foldl (\<lambda>len c. len + of_nat (length c)) (0 :: u32) data in
      and_then (wa w (to_be_bytes 4 total_len)) (\<lambda>w. write_chunks wa w data))"
| "serialize_body wa w (VSequence (StringSeq (CharASCII data))) =
     and_then (expect (buff_data_len data)) (\<lambda>len.
     and_then (wa w (to_be_bytes 4 (u32_from_buffer_length len))) (\<lambda>w. wa w data))"
| "serialize_body wa w (VTuple (TupleData t data_map)) =
     and_then (expect_some (try_from_nat (length data_map))) (\<lambda>len.
     and_then (wa w (to_be_bytes 4 (len :: u32))) (\<lambda>w. serialize_fields wa w data_map))"
| "serialize_items wa w [] = Ok w"
| "serialize_items wa w (v # vs) = and_then (serialize_write wa w v) (\<lambda>w. serialize_items wa w vs)"
| "serialize_fields wa w [] = Ok w"
| "serialize_fields wa w ((key, v) # d) =
     and_then (guarded_string_write wa w key) (\<lambda>w.
     and_then (serialize_write wa w v) (\<lambda>w. serialize_fields wa w d))"

text \<open>The writers of the source: a byte vector, and a counter that fails on overflow.\<close>

definition vec_write :: "u8 list write_all" where
  "vec_write w bs = Ok (w @ bs)"

definition counter_write :: "u32 write_all" where
  "counter_write count buf =
     and_then (ok_or (try_from_nat (length buf)) IOOther) (\<lambda>input.
     ok_or (checked_add count input) IOOther)"

definition serialize_to_vec :: "clarity_value \<Rightarrow> (unit, u8 list) result" where
  "serialize_to_vec v = expect (serialize_write vec_write [] v)"

definition value_serialize :: "clarity_value \<Rightarrow> (unit, string) result" where
  "value_serialize v = map_ok to_hex (serialize_to_vec v)"

definition serialized_size :: "clarity_value \<Rightarrow> (unit, u32) result" where
  "serialized_size v = expect (serialize_write counter_write 0 v)"


section \<open>Reading\<close>

type_synonym 'a reading = "(serialization_error, 'a \<times> bound_reader) result"

definition read_bytes :: "bound_reader \<Rightarrow> nat \<Rightarrow> u8 list reading" where
  "read_bytes r n = map_err SE_IOError (read_exact r n)"

definition standard_principal_read :: "bound_reader \<Rightarrow> standard_principal_data reading" where
  "standard_principal_read r =
     and_then (read_bytes r 1) (\<lambda>(version, r).
     and_then (read_bytes r 20) (\<lambda>(data, r).
     Ok (StandardPrincipalData (version ! 0) data, r)))"

definition guarded_string_read ::
    "(string \<Rightarrow> (runtime_error_type, string) result) \<Rightarrow> bound_reader \<Rightarrow> string reading" where
  "guarded_string_read try_from r =
     and_then (read_bytes r 1) (\<lambda>(len_byte, r).
     let len = (from_be_bytes len_byte :: u8) in
     if len > MAX_STRING_LEN then Err (DeserializationError ''String too long'')
     else and_then (read_bytes r (unat len)) (\<lambda>(data, r).
       if utf8_split data = None then Err (DeserializationError ''Non-UTF8 string data'')
       else map_ok (\<lambda>name. (name, r))
         (map_err (\<lambda>_. DeserializationError ''Illegal Clarity string'')
           (try_from (bytes_to_string data)))))"

definition principal_inner_deserialize :: "bound_reader \<Rightarrow> principal_data reading" where
  "principal_inner_deserialize r =
     and_then (read_bytes r 1) (\<lambda>(header, r).
     and_then (ok_or (from_u8 (header ! 0)) (DeserializationError ''Bad principal prefix''))
       (\<lambda>pre. case pre of
          PPrincipalStandard \<Rightarrow>
            and_then (standard_principal_read r) (\<lambda>(p, r). Ok (Standard p, r))
        | PPrincipalContract \<Rightarrow>
            and_then (standard_principal_read r) (\<lambda>(issuer, r).
            and_then (guarded_string_read contract_name_try_from r) (\<lambda>(name, r).
            Ok (Contract \<lparr>qci_issuer = issuer, qci_name = name\<rparr>, r)))
        | _ \<Rightarrow> Err (DeserializationError ''Bad principal prefix'')))"

definition check_match ::
    "type_signature option \<Rightarrow> (type_signature \<Rightarrow> bool) \<Rightarrow> (serialization_error, unit) result" where
  "check_match item pat =
     (case item of None \<Rightarrow> Ok ()
      | Some x \<Rightarrow> if pat x then Ok () else Err (DeserializeExpected x))"

text \<open>A length-prefixed byte string of a buffer or an ASCII string, with its expected length.\<close>

definition read_sized :: "bound_reader \<Rightarrow> type_signature option
    \<Rightarrow> (type_signature \<Rightarrow> u32 \<Rightarrow> bool) \<Rightarrow> u8 list reading" where
  "read_sized r expected passed_test =
     and_then (read_bytes r 4) (\<lambda>(len_bytes, r).
     and_then (map_err BadTypeError (buffer_length_try_from_u32 (from_be_bytes len_bytes)))
       (\<lambda>buffer_len.
     and_then (case expected of None \<Rightarrow> Ok ()
         | Some x \<Rightarrow> if passed_test x (u32_from_buffer_length buffer_len) then Ok ()
             else Err (DeserializeExpected x)) (\<lambda>_.
     read_bytes r (unat (u32_from_buffer_length buffer_len)))))"

fun buffer_fits :: "type_signature \<Rightarrow> u32 \<Rightarrow> bool" where
  "buffer_fits (SequenceType (BufferType expected_len)) len =
     (len \<le> u32_from_buffer_length expected_len)"
| "buffer_fits _ len = False"

fun ascii_fits :: "type_signature \<Rightarrow> u32 \<Rightarrow> bool" where
  "ascii_fits (SequenceType (StringType (StrASCII expected_len))) len =
     (len \<le> u32_from_buffer_length expected_len)"
| "ascii_fits _ len = False"

fun utf8_fits :: "type_signature \<Rightarrow> clarity_value interpreter_result \<Rightarrow> bool" where
  "utf8_fits (SequenceType (StringType (StrUTF8 expected_len)))
     (Ok (VSequence (StringSeq (CharUTF8 data)))) =
     ((of_nat (length data) :: u32) \<le> u32_from_utf8_length expected_len)"
| "utf8_fits _ _ = False"

fun expected_response :: "bool \<Rightarrow> type_signature option
    \<Rightarrow> (serialization_error, type_signature option) result" where
  "expected_response committed None = Ok None"
| "expected_response committed (Some (ResponseType t s)) = Ok (Some (if committed then t else s))"
| "expected_response committed (Some x) = Err (DeserializeExpected x)"

fun expected_option ::
    "type_signature option \<Rightarrow> (serialization_error, type_signature option) result" where
  "expected_option None = Ok None"
| "expected_option (Some (OptionalType t)) = Ok (Some t)"
| "expected_option (Some x) = Err (DeserializeExpected x)"

fun expected_list ::
    "type_signature option \<Rightarrow> u32 \<Rightarrow> (serialization_error, list_type_data option) result" where
  "expected_list None len = Ok None"
| "expected_list (Some (SequenceType (ListType (ListTypeData n e)))) len =
     (if len > n then Err (DeserializeExpected (SequenceType (ListType (ListTypeData n e))))
      else Ok (Some (ListTypeData n e)))"
| "expected_list (Some x) len = Err (DeserializeExpected x)"

fun expected_tuple ::
    "type_signature option \<Rightarrow> u32 \<Rightarrow> (serialization_error, tuple_type_signature option) result" where
  "expected_tuple None len = Ok None"
| "expected_tuple (Some (TupleType tuple_type)) len =
     (if ucast len \<noteq> tuple_len tuple_type then Err (DeserializeExpected (TupleType tuple_type))
      else Ok (Some tuple_type))"
| "expected_tuple (Some x) len = Err (DeserializeExpected x)"

definition is_optional_type :: "type_signature \<Rightarrow> bool" where
  "is_optional_type t = (case t of OptionalType _ \<Rightarrow> True | _ \<Rightarrow> False)"

lemma depth_step: "\<not> 16 \<le> (d :: u8) \<Longrightarrow> unat (d + 1) = unat d + 1 \<and> unat d < 16"
  by (simp add: word_le_nat_alt unat_word_ariths)

text \<open>
  The reader proper. The list and tuple loops take the depth of their elements and the number of
  elements still to read; the fields loop carries the expected tuple type.
\<close>

function (sequential) inner_deserialize_read ::
    "bound_reader \<Rightarrow> type_signature option \<Rightarrow> u8 \<Rightarrow> clarity_value reading"
and deserialize_items ::
    "bound_reader \<Rightarrow> type_signature option \<Rightarrow> u8 \<Rightarrow> nat \<Rightarrow> clarity_value list reading"
and deserialize_fields ::
    "bound_reader \<Rightarrow> tuple_type_signature option \<Rightarrow> u8 \<Rightarrow> nat
      \<Rightarrow> (clarity_name \<times> clarity_value) list reading" where
  "inner_deserialize_read r expected_type dep =
    (if dep \<ge> 16 then Err (BadTypeError TypeSignatureTooDeep)
     else and_then (read_bytes r 1) (\<lambda>(header, r).
     and_then (ok_or (from_u8 (header ! 0)) (DeserializationError ''Bad type prefix'')) (\<lambda>pre.
     case pre of
       PInt \<Rightarrow>
         and_then (check_match expected_type (\<lambda>t. t = IntType)) (\<lambda>_.
         and_then (read_bytes r 16) (\<lambda>(buffer, r). Ok (VInt (from_be_bytes buffer), r)))
     | PUInt \<Rightarrow>
         and_then (check_match expected_type (\<lambda>t. t = UIntType)) (\<lambda>_.
         and_then (read_bytes r 16) (\<lambda>(buffer, r). Ok (VUInt (from_be_bytes buffer), r)))
     | PBuffer \<Rightarrow>
         and_then (read_sized r expected_type buffer_fits) (\<lambda>(data, r).
         and_then (map_err (\<lambda>_. DeserializationError ''Bad buffer'') (buff_from data)) (\<lambda>v. Ok (v, r)))
     | PBoolTrue \<Rightarrow>
         and_then (check_match expected_type (\<lambda>t. t = BoolType)) (\<lambda>_. Ok (VBool True, r))
     | PBoolFalse \<Rightarrow>
         and_then (check_match expected_type (\<lambda>t. t = BoolType)) (\<lambda>_. Ok (VBool False, r))
     | PPrincipalStandard \<Rightarrow>
         and_then (check_match expected_type (\<lambda>t. t = PrincipalType)) (\<lambda>_.
         and_then (standard_principal_read r) (\<lambda>(p, r). Ok (VPrincipal (Standard p), r)))
     | PPrincipalContract \<Rightarrow>
         and_then (check_match expected_type (\<lambda>t. t = PrincipalType)) (\<lambda>_.
         and_then (standard_principal_read r) (\<lambda>(issuer, r).
         and_then (guarded_string_read contract_name_try_from r) (\<lambda>(name, r).
         Ok (VPrincipal (Contract \<lparr>qci_issuer = issuer, qci_name = name\<rparr>), r))))
     | PResponseOk \<Rightarrow>
         and_then (expected_response True expected_type) (\<lambda>t.
         and_then (inner_deserialize_read r t (dep + 1)) (\<lambda>(data, r).
         and_then (map_err (\<lambda>_. DeserializationError ''Value too large'') (okay data)) (\<lambda>v. Ok (v, r))))
     | PResponseErr \<Rightarrow>
         and_then (expected_response False expected_type) (\<lambda>t.
         and_then (inner_deserialize_read r t (dep + 1)) (\<lambda>(data, r).
         and_then (map_err (\<lambda>_. DeserializationError ''Value too large'') (error data)) (\<lambda>v. Ok (v, r))))
     | POptionalNone \<Rightarrow>
         and_then (check_match expected_type is_optional_type) (\<lambda>_. Ok (value_none, r))
     | POptionalSome \<Rightarrow>
         and_then (expected_option expected_type) (\<lambda>t.
         and_then (inner_deserialize_read r t (dep + 1)) (\<lambda>(data, r).
         and_then (map_err (\<lambda>_. DeserializationError ''Value too large'') (value_some data))
           (\<lambda>v. Ok (v, r))))
     | PList \<Rightarrow>
         and_then (read_bytes r 4) (\<lambda>(len_bytes, r).
         let len = (from_be_bytes len_bytes :: u32) in
         if len > MAX_VALUE_SIZE then Err (DeserializationError ''Illegal list type'')
         else and_then (expected_list expected_type len) (\<lambda>list_type.
         and_then (deserialize_items r (map_option ltd_entry_type list_type) (dep + 1) (unat len))
           (\<lambda>(items, r).
         and_then (map_err (\<lambda>_. DeserializationError ''Illegal list type'')
             (case list_type of Some lt \<Rightarrow> list_with_type items lt | None \<Rightarrow> list_from items))
           (\<lambda>v. Ok (v, r)))))
     | PTuple \<Rightarrow>
         and_then (read_bytes r 4) (\<lambda>(len_bytes, r).
         let len = (from_be_bytes len_bytes :: u32) in
         if len > MAX_VALUE_SIZE then Err (DeserializationError ''Illegal tuple type'')
         else and_then (expected_tuple expected_type len) (\<lambda>tuple_type.
         and_then (deserialize_fields r tuple_type (dep + 1) (unat len)) (\<lambda>(items, r).
         and_then (map_err (\<lambda>_. DeserializationError ''Illegal tuple type'')
             (case tuple_type of Some tt \<Rightarrow> from_data_typed items tt | None \<Rightarrow> from_data items))
           (\<lambda>td. Ok (VTuple td, r)))))
     | PStringASCII \<Rightarrow>
         and_then (read_sized r expected_type ascii_fits) (\<lambda>(data, r).
         and_then (map_err (\<lambda>_. DeserializationError ''Bad string'') (string_ascii_from_bytes data))
           (\<lambda>v. Ok (v, r)))
     | PStringUTF8 \<Rightarrow>
         and_then (read_sized r None (\<lambda>_ _. True)) (\<lambda>(data, r).
         let value = string_utf8_from_bytes data in
         and_then (check_match expected_type (\<lambda>x. utf8_fits x value)) (\<lambda>_.
         and_then (map_err (\<lambda>_. DeserializationError ''Illegal string_utf8 type'') value)
           (\<lambda>v. Ok (v, r)))))))"
| "deserialize_items r entry_type dep 0 = Ok ([], r)"
| "deserialize_items r entry_type dep (Suc n) =
     and_then (inner_deserialize_read r entry_type dep) (\<lambda>(v, r).
     and_then (deserialize_items r entry_type dep n) (\<lambda>(vs, r). Ok (v # vs, r)))"
| "deserialize_fields r tuple_type dep 0 = Ok ([], r)"
| "deserialize_fields r tuple_type dep (Suc n) =
     and_then (guarded_string_read clarity_name_try_from r) (\<lambda>(key, r).
     and_then (case tuple_type of None \<Rightarrow> Ok None
         | Some tt \<Rightarrow> map_ok Some (ok_or (field_type tt key) (DeserializeExpected (TupleType tt))))
       (\<lambda>expected_field_type.
     and_then (inner_deserialize_read r expected_field_type dep) (\<lambda>(v, r).
     and_then (deserialize_fields r tuple_type dep n) (\<lambda>(d, r). Ok ((key, v) # d, r)))))"
  by pat_completeness auto

termination
  by (relation "measures [\<lambda>x. case x of
        Inl (r, t, d) \<Rightarrow> 2 * (17 - unat d)
      | Inr (Inl (r, t, d, n)) \<Rightarrow> 2 * (17 - unat d) + 1
      | Inr (Inr (r, t, d, n)) \<Rightarrow> 2 * (17 - unat d) + 1,
      \<lambda>x. case x of Inl _ \<Rightarrow> 0 | Inr (Inl (r, t, d, n)) \<Rightarrow> n | Inr (Inr (r, t, d, n)) \<Rightarrow> n]")
    (auto dest: depth_step)

definition BOUND_VALUE_SERIALIZATION_BYTES :: u32 where
  "BOUND_VALUE_SERIALIZATION_BYTES = MAX_VALUE_SIZE * 2"

definition deserialize_read :: "u8 list \<Rightarrow> type_signature option \<Rightarrow> clarity_value reading" where
  "deserialize_read r expected_type =
     inner_deserialize_read (from_reader r (ucast BOUND_VALUE_SERIALIZATION_BYTES)) expected_type 0"

definition try_deserialize_bytes ::
    "u8 list \<Rightarrow> type_signature \<Rightarrow> (serialization_error, clarity_value) result" where
  "try_deserialize_bytes bytes expected = map_ok fst (deserialize_read bytes (Some expected))"

definition try_deserialize_hex ::
    "string \<Rightarrow> type_signature \<Rightarrow> (serialization_error, clarity_value) result" where
  "try_deserialize_hex hex expected =
     and_then (map_err (\<lambda>_. DeserializationError ''Bad hex string'') (hex_bytes hex)) (\<lambda>data.
     try_deserialize_bytes data expected)"

definition try_deserialize_bytes_untyped ::
    "u8 list \<Rightarrow> (serialization_error, clarity_value) result" where
  "try_deserialize_bytes_untyped bytes = map_ok fst (deserialize_read bytes None)"

definition try_deserialize_hex_untyped ::
    "string \<Rightarrow> (serialization_error, clarity_value) result" where
  "try_deserialize_hex_untyped hex =
     (let hex = (if take 2 hex = ''0x'' then drop 2 hex else hex) in
      and_then (map_err (\<lambda>_. DeserializationError ''Bad hex string'') (hex_bytes hex))
        try_deserialize_bytes_untyped)"

definition value_deserialize :: "string \<Rightarrow> type_signature \<Rightarrow> (unit, clarity_value) result" where
  "value_deserialize hex expected = expect (try_deserialize_hex hex expected)"

definition u32_serialize :: "u32 \<Rightarrow> string" where
  "u32_serialize n = to_hex (to_be_bytes 4 n)"

definition u32_deserialize :: "string \<Rightarrow> (unit, u32) result" where
  "u32_deserialize input =
     and_then (expect (hex_bytes input)) (\<lambda>bytes.
     and_then (rust_assert (length bytes = 4)) (\<lambda>_. Ok (from_be_bytes bytes)))"


declare inner_deserialize_read.simps [simp del]

section \<open>Specification level\<close>

definition ser_principal :: "standard_principal_data \<Rightarrow> u8 list" where
  "ser_principal p = (case p of StandardPrincipalData version data \<Rightarrow> version # data)"

definition ser_name :: "string \<Rightarrow> u8 list" where
  "ser_name s = of_nat (length s) # string_to_bytes s"

text \<open>The bytes of a value.\<close>

fun ser :: "clarity_value \<Rightarrow> u8 list"
and ser_list :: "clarity_value list \<Rightarrow> u8 list"
and ser_fields :: "(clarity_name \<times> clarity_value) list \<Rightarrow> u8 list" where
  "ser (VInt i) = 0 # to_be_bytes 16 i"
| "ser (VUInt i) = 1 # to_be_bytes 16 i"
| "ser (VBool b) = [if b then 3 else 4]"
| "ser (VPrincipal (Standard p)) = 5 # ser_principal p"
| "ser (VPrincipal (Contract c)) = 6 # ser_principal (qci_issuer c) @ ser_name (qci_name c)"
| "ser (VResponse committed v) = (if committed then 7 else 8) # ser v"
| "ser (VOptional None) = [9]"
| "ser (VOptional (Some v)) = 10 # ser v"
| "ser (VSequence (Buffer bs)) = 2 # to_be_bytes 4 (of_nat (length bs) :: u32) @ bs"
| "ser (VSequence (ListSeq (ListData vs _))) =
     11 # to_be_bytes 4 (of_nat (length vs) :: u32) @ ser_list vs"
| "ser (VSequence (StringSeq (CharASCII bs))) = 13 # to_be_bytes 4 (of_nat (length bs) :: u32) @ bs"
| "ser (VSequence (StringSeq (CharUTF8 cs))) =
     14 # to_be_bytes 4 (of_nat (length (concat cs)) :: u32) @ concat cs"
| "ser (VTuple (TupleData _ d)) = 12 # to_be_bytes 4 (of_nat (length d) :: u32) @ ser_fields d"
| "ser_list [] = []"
| "ser_list (v # vs) = ser v @ ser_list vs"
| "ser_fields [] = []"
| "ser_fields ((n, v) # d) = ser_name n @ ser v @ ser_fields d"

text \<open>Nesting of a value: the depth the reader counts.\<close>

fun nesting :: "clarity_value \<Rightarrow> nat"
and nesting_list :: "clarity_value list \<Rightarrow> nat"
and nesting_fields :: "(clarity_name \<times> clarity_value) list \<Rightarrow> nat" where
  "nesting (VOptional (Some v)) = Suc (nesting v)"
| "nesting (VResponse _ v) = Suc (nesting v)"
| "nesting (VSequence (ListSeq (ListData vs _))) = nesting_list vs"
| "nesting (VTuple (TupleData _ d)) = nesting_fields d"
| "nesting (VOptional None) = 0"
| "nesting (VInt _) = 0"
| "nesting (VUInt _) = 0"
| "nesting (VBool _) = 0"
| "nesting (VPrincipal _) = 0"
| "nesting (VSequence (Buffer _)) = 0"
| "nesting (VSequence (StringSeq _)) = 0"
| "nesting_list [] = 0"
| "nesting_list (v # vs) = max (Suc (nesting v)) (nesting_list vs)"
| "nesting_fields [] = 0"
| "nesting_fields ((_, v) # d) = max (Suc (nesting v)) (nesting_fields d)"

text \<open>A value with its stored signatures taken from an expected type.\<close>

fun retype :: "type_signature \<Rightarrow> clarity_value \<Rightarrow> clarity_value"
and retype_list :: "type_signature \<Rightarrow> clarity_value list \<Rightarrow> clarity_value list"
and retype_fields :: "(clarity_name \<times> type_signature) list \<Rightarrow> (clarity_name \<times> clarity_value) list
    \<Rightarrow> (clarity_name \<times> clarity_value) list" where
  "retype t (VOptional (Some v)) =
     (case t of OptionalType e \<Rightarrow> VOptional (Some (retype e v)) | _ \<Rightarrow> VOptional (Some v))"
| "retype t (VResponse c v) =
     (case t of ResponseType p q \<Rightarrow> VResponse c (retype (if c then p else q) v) | _ \<Rightarrow> VResponse c v)"
| "retype t (VSequence (ListSeq (ListData vs lt))) =
     (case t of SequenceType (ListType (ListTypeData n e)) \<Rightarrow>
        VSequence (ListSeq (ListData (retype_list e vs) (ListTypeData n e)))
      | _ \<Rightarrow> VSequence (ListSeq (ListData vs lt)))"
| "retype t (VTuple (TupleData ts d)) =
     (case t of TupleType (TupleTypeSignature m) \<Rightarrow>
        VTuple (TupleData (TupleTypeSignature m) (retype_fields m d))
      | _ \<Rightarrow> VTuple (TupleData ts d))"
| "retype t (VOptional None) = VOptional None"
| "retype t (VInt i) = VInt i"
| "retype t (VUInt i) = VUInt i"
| "retype t (VBool b) = VBool b"
| "retype t (VPrincipal p) = VPrincipal p"
| "retype t (VSequence (Buffer bs)) = VSequence (Buffer bs)"
| "retype t (VSequence (StringSeq s)) = VSequence (StringSeq s)"
| "retype_list e [] = []"
| "retype_list e (v # vs) = retype e v # retype_list e vs"
| "retype_fields m [] = []"
| "retype_fields m ((n, v) # d) =
     (n, case map_of m n of Some t \<Rightarrow> retype t v | None \<Rightarrow> v) # retype_fields m d"

section \<open>Writers\<close>

text \<open>
  What serialization relies on: writing nothing changes nothing, and writing two chunks is
  writing their concatenation.
\<close>

locale byte_writer =
  fixes wa :: "'w \<Rightarrow> u8 list \<Rightarrow> (io_error, 'w) result"
  assumes write_nil: "wa w [] = Ok w"
    and write_append: "and_then (wa w a) (\<lambda>w'. wa w' b) = wa w (a @ b)"
begin

lemma write_chunks_concat: "write_chunks wa w cs = wa w (concat cs)"
proof (induction cs arbitrary: w)
  case (Cons c cs)
  then show ?case by (simp add: write_append)
qed (simp add: write_nil)

lemma standard_principal_ser: "standard_principal_write wa w p = wa w (ser_principal p)"
  by (cases p) (simp add: ser_principal_def write_append)

lemma guarded_string_ser: "length s \<le> 128 \<Longrightarrow> guarded_string_write wa w s = wa w (ser_name s)"
  by (simp add: guarded_string_write_def guarded_len_def ser_name_def rust_simps write_append)

lemma contract_identifier_ser:
  "length (qci_name c) \<le> 128 \<Longrightarrow>
    contract_identifier_write wa w c = wa w (ser_principal (qci_issuer c) @ ser_name (qci_name c))"
  by (simp add: contract_identifier_write_def standard_principal_ser guarded_string_ser write_append)

lemma items_ser:
  "(\<And>v w. v \<in> set vs \<Longrightarrow> serialize_write wa w v = wa w (ser v)) \<Longrightarrow>
    serialize_items wa w vs = wa w (ser_list vs)"
  by (induction vs arbitrary: w) (auto simp: write_nil write_append)

lemma fields_ser:
  assumes "\<And>n v w. (n, v) \<in> set d \<Longrightarrow> length n \<le> 128 \<and> serialize_write wa w v = wa w (ser v)"
  shows "serialize_fields wa w d = wa w (ser_fields d)"
  using assms
proof (induction d arbitrary: w)
  case (Cons e d)
  obtain n v where e: "e = (n, v)" by (cases e)
  have IH: "serialize_fields wa w d = wa w (ser_fields d)" for w
    by (rule Cons.IH) (use Cons.prems in auto)
  have "length n \<le> 128" "serialize_write wa w v = wa w (ser v)" for w
    using Cons.prems [of n v] by (auto simp: e)
  then show ?case
    by (simp add: e guarded_string_ser IH write_append del: serialize_write.simps)
qed (simp add: write_nil)

lemma serialize_write_ser: "wf_value v \<Longrightarrow> serialize_write wa w v = wa w (ser v)"
proof (induction v arbitrary: w rule: value_induct)
  case (Principal p)
  then show ?case
    by (cases p) (simp_all add: standard_principal_ser contract_identifier_ser write_append
        valid_contract_name_iff)
next
  case (Buffer bs)
  then show ?case
    by (simp add: buff_data_len_def buffer_length_try_from_usize_def write_append)
next
  case (ASCII bs)
  then show ?case
    by (simp add: buff_data_len_def buffer_length_try_from_usize_def write_append)
next
  case (UTF8 cs)
  have "foldl (\<lambda>len c. len + of_nat (length c)) k cs = k + (of_nat (length (concat cs)) :: u32)" for k
    by (induction cs arbitrary: k) (auto simp: add.assoc)
  then show ?case
    by (simp add: write_chunks_concat write_append)
next
  case (List vs n e)
  then have "serialize_items wa w vs = wa w (ser_list vs)" for w
    by (intro items_ser) (auto simp: wf_items_iff)
  moreover have "length vs < 2 ^ 32"
    using List.prems unat_lt [of n] by simp
  ultimately show ?case
    by (simp add: rust_simps write_append)
next
  case (Tuple m d)
  have names: "length n \<le> 128" if "(n, v) \<in> set d" for n v
  proof -
    have "n \<in> fst ` set d" using that by force
    also have "map fst d = map fst m" using Tuple.prems by simp
    then have "fst ` set d = fst ` set m" by (metis set_map)
    finally have "n \<in> fst ` set m" .
    then show ?thesis using Tuple.prems by (auto simp: wf_fields_iff)
  qed
  with Tuple have "serialize_fields wa w d = wa w (ser_fields d)" for w
    by (intro fields_ser) (auto simp: wf_data_iff simp del: serialize_write.simps)
  moreover have "length d < 2 ^ 32"
    using Tuple.prems by (auto dest!: map_eq_imp_length_eq)
  ultimately show ?case
    by (simp add: rust_simps write_append)
qed (simp_all add: write_nil write_append)

end

interpretation vec_writer: byte_writer vec_write
  by unfold_locales (simp_all add: vec_write_def)

interpretation counter_writer: byte_writer counter_write
proof
  fix w :: u32 and a b :: "u8 list"
  show "counter_write w [] = Ok w"
    using unat_lt [of w] by (simp add: counter_write_def try_from_nat_def checked_add_def)
  show "and_then (counter_write w a) (\<lambda>w'. counter_write w' b) = counter_write w (a @ b)"
    by (auto simp: counter_write_def try_from_nat_def checked_add_def unat_of_nat_lt
        unat_word_ariths add.assoc)
qed


section \<open>Readers at a position\<close>

text \<open>The reader with bound \<open>M\<close>, remaining bytes \<open>bs\<close> and \<open>k\<close> bytes already read.\<close>

definition rdr :: "u64 \<Rightarrow> u8 list \<Rightarrow> nat \<Rightarrow> bound_reader" where
  "rdr M bs k = \<lparr>fd = bs, max_len = M, read_so_far = of_nat k\<rparr>"

lemma bound_read_rdr:
  assumes "k \<le> unat M" "unat M + n < 2 ^ 64"
  shows "bound_read (rdr M bs k) n =
    (let j = min (min n (unat M - k)) (length bs) in Ok (take j bs, rdr M (drop j bs) (k + j)))"
proof -
  have k: "k < 2 ^ 64" "n < 2 ^ 64" "k + n < 2 ^ 64" using assms by auto
  have "of_nat k \<le> M" using assms(1) k by (simp add: word_le_nat_alt unat_of_nat_lt)
  then have sub: "unat (M - of_nat k) = unat M - k"
    using k by (simp add: unat_sub unat_of_nat_lt)
  have lt: "M < of_nat (k + n) \<longleftrightarrow> unat M < k + n"
    using k by (simp add: word_less_nat_alt unat_of_nat_lt del: of_nat_add)
  have "min (unat (if M < of_nat (k + n) then M - of_nat k else of_nat n :: u64)) (length bs) =
      min (min n (unat M - k)) (length bs)"
    using lt sub k by (auto simp: unat_of_nat_lt simp del: of_nat_add)
  moreover have "bound_read (rdr M bs k) n =
      (let nr = min (unat (if M < of_nat (k + n) then M - of_nat k else of_nat n)) (length bs)
       in Ok (take nr bs, rdr M (drop nr bs) (k + nr)))"
    using k by (simp add: bound_read_def rdr_def rust_simps Let_def)
  ultimately show ?thesis by presburger
qed

lemma read_exact_rdr:
  assumes "k \<le> unat M" "unat M + n < 2 ^ 64"
  shows "read_exact (rdr M bs k) n =
    (if k + n \<le> unat M \<and> n \<le> length bs then Ok (take n bs, rdr M (drop n bs) (k + n))
     else Err UnexpectedEof)"
proof -
  define j where "j = min (min n (unat M - k)) (length bs)"
  have br: "bound_read (rdr M bs k) n = Ok (take j bs, rdr M (drop j bs) (k + j))"
    using bound_read_rdr [OF assms] by (simp add: j_def Let_def)
  have j: "j \<le> n" "j \<le> length bs" "k + j \<le> unat M" using assms by (auto simp: j_def)
  have stuck: "read_exact (rdr M (drop j bs) (k + j)) (n - j) = Err UnexpectedEof" if "j < n"
  proof -
    have "min (min (n - j) (unat M - (k + j))) (length (drop j bs)) = 0"
      using that by (auto simp: j_def min_def split: if_splits)
    then have "bound_read (rdr M (drop j bs) (k + j)) (n - j) = Ok ([], rdr M (drop j bs) (k + j))"
      using bound_read_rdr [of "k + j" M "n - j" "drop j bs"] j assms(2) by (simp add: Let_def)
    then show ?thesis using that by (subst read_exact.simps) simp
  qed
  consider "n = 0" | "0 < n" "j = n" | "0 < n" "j < n" using j(1) by linarith
  then show ?thesis
  proof cases
    case 1
    then show ?thesis using assms by (subst read_exact.simps) simp
  next
    case 2
    then have "k + n \<le> unat M" "n \<le> length bs" using j by auto
    moreover have "take n bs \<noteq> []" using 2 calculation by auto
    moreover have "read_exact (rdr M (drop n bs) (k + n)) 0 = Ok ([], rdr M (drop n bs) (k + n))"
      by (subst read_exact.simps) simp
    ultimately show ?thesis using 2 br by (subst read_exact.simps) simp
  next
    case 3
    then have "\<not> (k + n \<le> unat M \<and> n \<le> length bs)" by (auto simp: j_def)
    with 3 show ?thesis
      using br stuck j by (subst read_exact.simps) (auto simp: and_then_eq_Err)
  qed
qed

text \<open>Reading a chunk that is there, and the two forms the reader functions need.\<close>

lemma read_bytes_rdr:
  "\<lbrakk>length bs = n; k + n \<le> unat M; unat M \<le> 2 ^ 32\<rbrakk> \<Longrightarrow>
    read_bytes (rdr M (bs @ rest) k) n = Ok (bs, rdr M rest (k + n))"
  by (simp add: read_bytes_def read_exact_rdr)

lemma read_bytes_rdr_Cons:
  "\<lbrakk>k + 1 \<le> unat M; unat M \<le> 2 ^ 32\<rbrakk> \<Longrightarrow>
    read_bytes (rdr M (b # rest) k) (Suc 0) = Ok ([b], rdr M rest (k + 1))"
  using read_bytes_rdr [of "[b]" 1 k M rest] by simp

lemma read_bytes_eof:
  "\<lbrakk>length bs < n; k + n \<le> unat M; unat M \<le> 2 ^ 32\<rbrakk> \<Longrightarrow>
    read_bytes (rdr M bs k) n = Err (SE_IOError UnexpectedEof)"
  by (simp add: read_bytes_def read_exact_rdr)

lemmas read_rdr_simps = read_bytes_rdr read_bytes_rdr_Cons

lemma standard_principal_read_rdr:
  assumes "wf_standard_principal p" "k + length (ser_principal p) \<le> unat M" "unat M \<le> 2 ^ 32"
  shows "standard_principal_read (rdr M (ser_principal p @ rest) k) =
    Ok (p, rdr M rest (k + length (ser_principal p)))"
proof -
  obtain v bs where p: "p = StandardPrincipalData v bs" by (cases p)
  with assms show ?thesis
    by (simp add: standard_principal_read_def ser_principal_def wf_standard_principal_def
        read_rdr_simps add.commute)
qed

lemma guarded_string_read_rdr:
  assumes "try_from s = Ok s" "length s \<le> 128" "utf8_split (string_to_bytes s) \<noteq> None"
    "k + length (ser_name s) \<le> unat M" "unat M \<le> 2 ^ 32"
  shows "guarded_string_read try_from (rdr M (ser_name s @ rest) k) =
    Ok (s, rdr M rest (k + length (ser_name s)))"
proof -
  have len: "from_be_bytes [of_nat (length s) :: u8] = (of_nat (length s) :: u8)"
    by (simp add: from_be_bytes_def be_value_def)
  have "\<not> MAX_STRING_LEN < (of_nat (length s) :: u8)"
    using assms(2) by (simp add: MAX_STRING_LEN_def word_less_nat_alt unat_of_nat_lt)
  with assms show ?thesis
    by (auto simp: guarded_string_read_def ser_name_def read_rdr_simps len unat_of_nat_lt Let_def)
qed

lemma from_u8_to_u8 [simp]: "from_u8 (to_u8 p) = Some p"
  by (cases p) (simp_all add: from_u8_def)

lemma to_u8_from_u8: "from_u8 b = Some p \<Longrightarrow> to_u8 p = b"
  by (auto simp: from_u8_def split: if_splits)


section \<open>Retyping\<close>

lemma retype_list_map: "retype_list e vs = map (retype e) vs"
  by (induction vs) auto

lemma fst_retype_fields [simp]: "map fst (retype_fields m d) = map fst d"
  by (induction d) auto

lemma set_retype_fields:
  "(n, w) \<in> set (retype_fields m d) \<longleftrightarrow>
    (\<exists>v. (n, v) \<in> set d \<and> w = (case map_of m n of Some t \<Rightarrow> retype t v | None \<Rightarrow> v))"
  by (induction d) auto

lemma tsize_pos: "wf_type t \<Longrightarrow> 0 < tsize t"
  by (cases t rule: wf_type.cases) auto

lemma fits_tuple_keys:
  assumes "fits_fields m d" "length m = length d" "btree_wf m" "btree_wf d"
  shows "map fst d = map fst m"
proof -
  have "fst ` set d \<subseteq> fst ` set m"
    using assms(1) by (force simp: fits_fields_iff dest: map_of_SomeD)
  then have "set (map fst d) = set (map fst m)"
    using tuple_keys_eq [of d m] assms by simp
  then show ?thesis using assms(3,4) by (simp add: strict_sorted_equal)
qed

lemma wf_tuple_value:
  assumes "wf_value (VTuple (TupleData ts d))"
  shows "btree_wf d" "(n, v) \<in> set d \<Longrightarrow> wf_value v \<and> valid_clarity_name n"
    "list_all (\<lambda>n. valid_clarity_name n) (map fst d)" "length d \<le> 1048576"
proof -
  obtain m where ts: "ts = TupleTypeSignature m" by (cases ts)
  have keys: "map fst d = map fst m" and names: "list_all (\<lambda>n. valid_clarity_name n) (map fst m)"
    using assms by (auto simp: ts list_all_iff)
  show "btree_wf d" using assms keys by (simp add: ts)
  show all: "list_all (\<lambda>n. valid_clarity_name n) (map fst d)" using keys names by simp
  show "wf_value v \<and> valid_clarity_name n" if "(n, v) \<in> set d"
  proof
    show "wf_value v" using assms that by (auto simp: ts wf_data_iff)
    have "n \<in> set (map fst d)" using that by force
    then show "valid_clarity_name n" using all unfolding list_all_iff by blast
  qed
  show "length d \<le> 1048576"
    using assms map_eq_imp_length_eq [OF keys] by (simp add: ts)
qed

lemma retype_correct:
  "\<lbrakk>wf_value v; fits t v; wf_type t; concrete_type t\<rbrakk> \<Longrightarrow>
    wf_value (retype t v) \<and> admits_type t (vtype (retype t v)) = Ok True
    \<and> tsize (vtype (retype t v)) \<le> tsize t \<and> tdepth (vtype (retype t v)) \<le> tdepth t"
proof (induction v arbitrary: t rule: value_induct)
  case (Buffer bs)
  then show ?case
    by (cases t rule: wf_type.cases) (auto simp: admits_iffs word_le_nat_alt unat_of_nat_lt)
next
  case (ASCII bs)
  then show ?case
    by (cases t rule: wf_type.cases) (auto simp: admits_iffs word_le_nat_alt unat_of_nat_lt)
next
  case (UTF8 cs)
  then show ?case
    by (cases t rule: wf_type.cases) (auto simp: admits_iffs word_le_nat_alt unat_of_nat_lt)
next
  case None
  then obtain e where "t = OptionalType e" by (cases t rule: wf_type.cases) auto
  with None.prems show ?case using tsize_pos [of e] tdepth_pos [of e] by (simp add: admits_iffs)
next
  case (Some v)
  then obtain e where t: "t = OptionalType e" "fits e v" by (cases t rule: wf_type.cases) auto
  then have "e \<noteq> NoType" by auto
  with Some t have "wf_value (retype e v) \<and> admits_type e (vtype (retype e v)) = Ok True
    \<and> tsize (vtype (retype e v)) \<le> tsize e \<and> tdepth (vtype (retype e v)) \<le> tdepth e" by simp
  then show ?case using Some.prems(3) by (auto simp: t admits_iffs)
next
  case (Response c v)
  then obtain p q where t: "t = ResponseType p q" "fits (if c then p else q) v"
    by (cases t rule: wf_type.cases) (auto split: if_splits)
  define e where "e = (if c then p else q)"
  have "e \<noteq> NoType" using t by (auto simp: e_def)
  then have "concrete_type e" "wf_type e" "fits e v"
    using Response.prems(3,4) t by (auto simp: e_def split: if_splits)
  with Response have "wf_value (retype e v) \<and> admits_type e (vtype (retype e v)) = Ok True
    \<and> tsize (vtype (retype e v)) \<le> tsize e \<and> tdepth (vtype (retype e v)) \<le> tdepth e" by simp
  then show ?case
    using Response.prems(3) tsize_pos [of p] tsize_pos [of q] tdepth_pos [of p] tdepth_pos [of q]
    by (auto simp: t(1) e_def admits_iffs split: if_splits)
next
  case (List vs n0 e0)
  then obtain n e where t: "t = SequenceType (ListType (ListTypeData n e))"
      "length vs \<le> unat n" "fits_list e vs"
    by (cases t rule: wf_type.cases) auto
  have "wf_value (retype e v) \<and> admits_type e (vtype (retype e v)) = Ok True" if "v \<in> set vs" for v
  proof -
    have "n \<noteq> 0" using t(2) that by auto
    then show ?thesis
      using List.IH [OF that] List.prems that t by (auto simp: wf_items_iff fits_list_iff)
  qed
  then have "wf_items e (retype_list e vs)" by (auto simp: wf_items_iff retype_list_map)
  moreover have "length (retype_list e vs) = length vs" by (simp add: retype_list_map)
  moreover have "admits_type t t = Ok True" using List.prems by (simp add: admits_refl_iff)
  ultimately show ?case using List.prems(3,4) t by simp
next
  case (Tuple m0 d)
  then obtain m where t: "t = TupleType (TupleTypeSignature m)" "fits_fields m d"
      "length m = length d"
    by (cases t rule: wf_type.cases) auto
  note v = wf_tuple_value [OF Tuple.prems(1)]
  have keys: "map fst d = map fst m" using fits_tuple_keys t v(1) Tuple.prems(3) by simp
  have "wf_value w \<and> (\<exists>u. map_of m n = Some u \<and> admits_type u (vtype w) = Ok True)"
    if "(n, w) \<in> set (retype_fields m d)" for n w
  proof -
    from that obtain x u where x: "(n, x) \<in> set d" "map_of m n = Some u" "fits u x" "w = retype u x"
      using t(2) by (fastforce simp: set_retype_fields fits_fields_iff)
    moreover have "wf_type u" "concrete_type u"
      using x(2) Tuple.prems(3,4) t(1)
      by (auto simp: concrete_fields_iff dest!: map_of_SomeD wf_fieldsD)
    ultimately show ?thesis using Tuple.IH [OF x(1)] v(2) [OF x(1)] by auto
  qed
  then have "wf_data m (retype_fields m d)" by (auto simp: wf_data_iff)
  moreover have "list_all (\<lambda>(n, _). valid_clarity_name n) m"
    using v(3) keys by (auto simp: list_all_iff)
  moreover have "admits_type t t = Ok True" using Tuple.prems by (simp add: admits_refl_iff)
  ultimately show ?case using Tuple.prems(3,4) t(1) keys by simp
qed (auto simp: admits_iffs)

lemma erase_retype: "fits t v \<Longrightarrow> erase (retype t v) = erase v"
proof (induction v arbitrary: t rule: value_induct)
  case (List vs n0 e0)
  then show ?case
    by (cases t rule: wf_type.cases) (auto simp: erase_list_map retype_list_map fits_list_iff)
next
  case (Tuple m0 d)
  then obtain m where t: "t = TupleType (TupleTypeSignature m)" "fits_fields m d"
    by (cases t rule: wf_type.cases) auto
  have "erase_fields (retype_fields m c) = erase_fields c" if "set c \<subseteq> set d" for c
    using that
  proof (induction c)
    case (Cons e c)
    obtain n x where e: "e = (n, x)" by (cases e)
    with Cons.prems t(2) obtain u where "map_of m n = Some u" "fits u x"
      by (auto simp: fits_fields_iff)
    with Cons Tuple.IH [of n x] e show ?case by auto
  qed simp
  then show ?case by (simp add: t)
next
  case (Some v)
  then show ?case by (cases t rule: wf_type.cases) auto
next
  case (Response c v)
  then show ?case by (cases t rule: wf_type.cases) (auto split: if_splits)
qed auto

section \<open>The typed round trip\<close>

lemma be_u32_of_nat:
  "n < 2 ^ 32 \<Longrightarrow> unat (from_be_bytes (to_be_bytes 4 (of_nat n :: u32)) :: u32) = n"
  by (simp add: from_to_be_bytes unat_of_nat_lt)

lemma not_max_less: "n \<le> 1048576 \<Longrightarrow> \<not> MAX_VALUE_SIZE < (of_nat n :: u32)"
  by (simp add: MAX_VALUE_SIZE_def rust_simps)

lemma read_sized_rdr:
  assumes "length bs \<le> 1048576" "k + 4 + length bs \<le> unat M" "unat M \<le> 2 ^ 32"
    "\<forall>x. expected = Some x \<longrightarrow> ok x (of_nat (length bs))"
  shows "read_sized (rdr M (to_be_bytes 4 (of_nat (length bs) :: u32) @ bs @ rest) k) expected ok =
    Ok (bs, rdr M rest (k + 4 + length bs))"
proof -
  have "buffer_length_try_from_u32 (of_nat (length bs)) = Ok (BufferLength (of_nat (length bs)))"
    using not_max_less [OF assms(1)] by (simp add: buffer_length_try_from_u32_def)
  with assms show ?thesis
    by (auto simp: read_sized_def read_rdr_simps from_to_be_bytes unat_of_nat_lt split: option.splits)
qed

lemma deserialize_items_rdr:
  assumes "\<And>v k rest. v \<in> set vs \<Longrightarrow> k + length (ser v) \<le> unat M \<Longrightarrow>
      inner_deserialize_read (rdr M (ser v @ rest) k) e d = Ok (f v, rdr M rest (k + length (ser v)))"
    and "k + length (ser_list vs) \<le> unat M"
  shows "deserialize_items (rdr M (ser_list vs @ rest) k) e d (length vs) =
    Ok (map f vs, rdr M rest (k + length (ser_list vs)))"
  using assms
proof (induction vs arbitrary: k)
  case (Cons v vs)
  have "inner_deserialize_read (rdr M (ser v @ ser_list vs @ rest) k) e d =
      Ok (f v, rdr M (ser_list vs @ rest) (k + length (ser v)))"
    by (rule Cons.prems(1)) (use Cons.prems(2) in simp_all)
  moreover have "deserialize_items (rdr M (ser_list vs @ rest) (k + length (ser v))) e d (length vs) =
      Ok (map f vs, rdr M rest (k + length (ser v) + length (ser_list vs)))"
    by (rule Cons.IH) (use Cons.prems in auto)
  ultimately show ?case by (simp add: add.assoc)
qed simp

lemma deserialize_fields_rdr:
  assumes "\<And>n v. (n, v) \<in> set d \<Longrightarrow> valid_clarity_name n \<and>
      (case tt of None \<Rightarrow> e n = None | Some ts \<Rightarrow> field_type ts n = e n \<and> e n \<noteq> None)"
    and "\<And>n v k rest. (n, v) \<in> set d \<Longrightarrow> k + length (ser v) \<le> unat M \<Longrightarrow>
      inner_deserialize_read (rdr M (ser v @ rest) k) (e n) dep =
        Ok (f n v, rdr M rest (k + length (ser v)))"
    and "k + length (ser_fields d) \<le> unat M" and "unat M \<le> 2 ^ 32"
  shows "deserialize_fields (rdr M (ser_fields d @ rest) k) tt dep (length d) =
    Ok (map (\<lambda>(n, v). (n, f n v)) d, rdr M rest (k + length (ser_fields d)))"
  using assms
proof (induction d arbitrary: k)
  case (Cons x d)
  obtain n v where x: "x = (n, v)" by (cases x)
  have n: "valid_clarity_name n" using Cons.prems(1) [of n v] x by simp
  then have nm: "clarity_name_try_from n = Ok n" "length n \<le> 128"
    using valid_clarity_name_iff by (auto simp: valid_clarity_name_def)
  have "guarded_string_read clarity_name_try_from
        (rdr M (ser_name n @ ser v @ ser_fields d @ rest) k) =
      Ok (n, rdr M (ser v @ ser_fields d @ rest) (k + length (ser_name n)))"
    by (rule guarded_string_read_rdr) (use Cons.prems(3,4) x nm n valid_name_utf8 in auto)
  moreover have "inner_deserialize_read
        (rdr M (ser v @ ser_fields d @ rest) (k + length (ser_name n))) (e n) dep =
      Ok (f n v, rdr M (ser_fields d @ rest) (k + length (ser_name n) + length (ser v)))"
    by (rule Cons.prems(2)) (use Cons.prems(3) x in auto)
  moreover have "deserialize_fields
        (rdr M (ser_fields d @ rest) (k + length (ser_name n) + length (ser v))) tt dep (length d) =
      Ok (map (\<lambda>(n, v). (n, f n v)) d,
        rdr M rest (k + length (ser_name n) + length (ser v) + length (ser_fields d)))"
    by (rule Cons.IH) (use Cons.prems x in auto)
  moreover have "(case tt of None \<Rightarrow> Ok None
      | Some ts \<Rightarrow> map_ok Some (ok_or (field_type ts n) (DeserializeExpected (TupleType ts)))) = Ok (e n)"
    using Cons.prems(1) [of n v] x by (auto split: option.splits)
  ultimately show ?case by (simp add: x add.assoc)
qed simp

lemma fold_btree_insert_sorted:
  assumes "btree_wf d"
  shows "fold (\<lambda>(n, v). btree_insert n v) d [] = d"
proof -
  note f = fold_btree_insert [OF btree_wf_distinct [OF assms], of "[]"]
  have "map_of (fold (\<lambda>(n, v). btree_insert n v) d []) = map_of d"
    using f assms by (subst map_of_inject_set) (auto intro: btree_wf_distinct)
  then show ?thesis using f assms by (intro btree_wf_unique) auto
qed

lemma from_data_typed_loop_eq:
  "\<lbrakk>\<And>n v. (n, v) \<in> set d \<Longrightarrow> \<exists>t. map_of m n = Some t \<and> admits t v = Ok True\<rbrakk> \<Longrightarrow>
    from_data_typed_loop (TupleTypeSignature m) d dm = Ok (fold (\<lambda>(n, v). btree_insert n v) d dm)"
proof (induction d arbitrary: dm)
  case (Cons e d)
  obtain n v where e: "e = (n, v)" by (cases e)
  with Cons.prems [of n v] obtain t where "map_of m n = Some t" "admits t v = Ok True" by auto
  moreover have "from_data_typed_loop (TupleTypeSignature m) d (btree_insert n v dm) =
      Ok (fold (\<lambda>(n, v). btree_insert n v) d (btree_insert n v dm))"
    by (rule Cons.IH) (use Cons.prems in auto)
  ultimately show ?case by (simp add: e)
qed simp

lemma retype_fields_map:
  "(\<And>n v. (n, v) \<in> set d \<Longrightarrow> map_of m n \<noteq> None) \<Longrightarrow>
    retype_fields m d = map (\<lambda>(n, v). (n, retype (the (map_of m n)) v)) d"
proof (induction d)
  case (Cons e d)
  obtain n v where e: "e = (n, v)" by (cases e)
  moreover from this Cons.prems [of n v] obtain t where "map_of m n = Some t" by auto
  ultimately show ?case using Cons by auto
qed simp

lemma list_with_type_eq:
  "\<lbrakk>length vs \<le> unat n; list_all wf_value vs; wf_items e vs\<rbrakk> \<Longrightarrow>
    list_with_type vs (ListTypeData n e) = Ok (VSequence (ListSeq (ListData vs (ListTypeData n e))))"
  using items_admitted_Ok [of vs e] by simp

lemma nesting_list_mem: "v \<in> set vs \<Longrightarrow> Suc (nesting v) \<le> nesting_list vs"
  by (induction vs) auto

lemma nesting_fields_mem: "(n, v) \<in> set d \<Longrightarrow> Suc (nesting v) \<le> nesting_fields d"
  by (induction d) auto

lemma depth_Suc: "unat (d :: u8) + Suc n < 16 \<Longrightarrow> unat (d + 1) + n < 16"
  by (simp add: unat_word_ariths)

lemma depth_lt: "unat (d :: u8) < 16 \<Longrightarrow> \<not> 16 \<le> d"
  by (simp add: word_le_nat_alt)

lemma from_u8_numeral [simp]:
  "from_u8 0 = Some PInt" "from_u8 1 = Some PUInt" "from_u8 2 = Some PBuffer"
  "from_u8 3 = Some PBoolTrue" "from_u8 4 = Some PBoolFalse" "from_u8 5 = Some PPrincipalStandard"
  "from_u8 6 = Some PPrincipalContract" "from_u8 7 = Some PResponseOk"
  "from_u8 8 = Some PResponseErr" "from_u8 9 = Some POptionalNone"
  "from_u8 10 = Some POptionalSome" "from_u8 11 = Some PList" "from_u8 12 = Some PTuple"
  "from_u8 13 = Some PStringASCII" "from_u8 14 = Some PStringUTF8"
  by (simp_all add: from_u8_def)

lemmas deser_simps = read_rdr_simps depth_lt check_match_def from_to_be_bytes

lemma deserialize_typed:
  "\<lbrakk>wf_value v; fits t v; wf_type t; concrete_type t; unat d + nesting v < 16;
    k + length (ser v) \<le> unat M; unat M \<le> 2 ^ 32\<rbrakk> \<Longrightarrow>
    inner_deserialize_read (rdr M (ser v @ rest) k) (Some t) d =
      Ok (retype t v, rdr M rest (k + length (ser v)))"
proof (induction v arbitrary: t d k rest rule: value_induct)
  case (Int i)
  then show ?case
    by (subst inner_deserialize_read.simps) (simp add: deser_simps ac_simps)
next
  case (UInt i)
  then show ?case
    by (subst inner_deserialize_read.simps) (simp add: deser_simps ac_simps)
next
  case (Bool b)
  then show ?case
    by (subst inner_deserialize_read.simps) (simp add: deser_simps)
next
  case (Principal p)
  show ?case
  proof (cases p)
    case (Standard s)
    with Principal show ?thesis
      by (subst inner_deserialize_read.simps)
        (simp add: deser_simps standard_principal_read_rdr)
  next
    case (Contract c)
    with Principal have c: "wf_standard_principal (qci_issuer c)" "valid_contract_name (qci_name c)"
      by auto
    then have nm: "contract_name_try_from (qci_name c) = Ok (qci_name c)" "length (qci_name c) \<le> 128"
      using valid_contract_name_iff by (auto simp: valid_contract_name_def)
    have "utf8_split (string_to_bytes (qci_name c)) \<noteq> None" using c valid_name_utf8 by blast
    note str = guarded_string_read_rdr [of contract_name_try_from "qci_name c", OF nm this]
    show ?thesis
      using Principal Contract c(1)
      by (subst inner_deserialize_read.simps)
        (simp add: deser_simps standard_principal_read_rdr str ac_simps)
  qed
next
  case (Buffer bs)
  then obtain n where "t = SequenceType (BufferType (BufferLength n))" "length bs \<le> unat n"
    by (cases t rule: wf_type.cases) auto
  with Buffer show ?case
    by (subst inner_deserialize_read.simps)
      (simp add: deser_simps read_sized_rdr buff_from_eq word_le_nat_alt unat_of_nat_lt add.assoc,
        simp add: add.left_commute)
next
  case (ASCII bs)
  then obtain n where "t = SequenceType (StringType (StrASCII (BufferLength n)))"
      "length bs \<le> unat n"
    by (cases t rule: wf_type.cases) auto
  with ASCII show ?case
    by (subst inner_deserialize_read.simps)
      (simp add: deser_simps read_sized_rdr string_ascii_from_bytes_eq word_le_nat_alt
        unat_of_nat_lt add.assoc, simp add: add.left_commute)
next
  case (UTF8 cs)
  then obtain n where t: "t = SequenceType (StringType (StrUTF8 (StringUTF8Length n)))"
      "length cs \<le> unat n"
    by (cases t rule: wf_type.cases) auto
  have "utf8_char c \<Longrightarrow> length c \<le> 4" for c by (cases c rule: utf8_char.cases) auto
  then have "length (concat cs) \<le> 4 * length cs"
    using UTF8.prems(1) by (induction cs) fastforce+
  then have len: "length (concat cs) \<le> 1048576" using UTF8.prems(1) by simp
  have "string_utf8_from_bytes (concat cs) = Ok (VSequence (StringSeq (CharUTF8 cs)))"
    using UTF8.prems(1) by (simp add: string_utf8_from_bytes_eq utf8_split_concat)
  with UTF8 t len show ?case
    by (subst inner_deserialize_read.simps)
      (simp add: deser_simps read_sized_rdr word_le_nat_alt unat_of_nat_lt add.assoc Let_def
        del: length_concat, simp add: add.left_commute del: length_concat)
next
  case None
  then obtain e where "t = OptionalType e" by (cases t rule: wf_type.cases) auto
  with None show ?case
    by (subst inner_deserialize_read.simps)
      (simp add: deser_simps is_optional_type_def value_none_def)
next
  case (Some v)
  then obtain e where t: "t = OptionalType e" "fits e v" by (cases t rule: wf_type.cases) auto
  then have c: "concrete_type e" using Some.prems(4) by auto
  have IH: "inner_deserialize_read (rdr M (ser v @ rest) (k + 1)) (Some e) (d + 1) =
      Ok (retype e v, rdr M rest (k + 1 + length (ser v)))"
    using Some.prems by (intro Some.IH) (use t c in \<open>auto intro: depth_Suc\<close>)
  note r = retype_correct [of v e]
  have "value_some (retype e v) = Ok (VOptional (Some (retype e v)))"
    using r Some.prems t c by (simp add: value_some_def wrap_value_eq)
  with IH Some.prems show ?case
    by (subst inner_deserialize_read.simps) (simp add: deser_simps t(1))
next
  case (Response b v)
  then obtain p q where t: "t = ResponseType p q" "fits (if b then p else q) v"
    by (cases t rule: wf_type.cases) (auto split: if_splits)
  define e where "e = (if b then p else q)"
  have "e \<noteq> NoType" using t by (auto simp: e_def)
  then have c: "concrete_type e" "wf_type e" "fits e v" "tsize e + 1 \<le> 1048576" "tdepth e < 32"
    using Response.prems(3,4) t by (auto simp: e_def split: if_splits)
  have IH: "inner_deserialize_read (rdr M (ser v @ rest) (k + 1)) (Some e) (d + 1) =
      Ok (retype e v, rdr M rest (k + 1 + length (ser v)))"
    using Response.prems by (intro Response.IH) (use c in \<open>auto intro: depth_Suc\<close>)
  note r = retype_correct [of v e]
  have "okay (retype e v) = Ok (VResponse True (retype e v))"
    "error (retype e v) = Ok (VResponse False (retype e v))"
    using r Response.prems c by (simp_all add: okay_def error_def wrap_value_eq)
  with IH Response.prems show ?case
    by (subst inner_deserialize_read.simps) (auto simp add: deser_simps t(1) e_def)
next
  case (List vs n0 e0)
  then obtain n e where t: "t = SequenceType (ListType (ListTypeData n e))"
      "length vs \<le> unat n" "fits_list e vs"
    by (cases t rule: wf_type.cases) auto
  have n0: "unat n0 \<le> 1048576"
  proof -
    have "unat n0 \<le> tsize e0 * unat n0"
      using tsize_pos [of e0] List.prems(1) by simp
    also have "\<dots> \<le> 1048571" using List.prems(1) by simp
    finally show ?thesis by simp
  qed
  then have len: "length vs \<le> 1048576" using List.prems(1) by simp
  have fv: "fits e v" if "v \<in> set vs" for v using t(3) that by (simp add: fits_list_iff)
  have ce: "concrete_type e" "wf_type e" if "v \<in> set vs" for v
    using List.prems(3,4) t(1,2) that by auto
  have IH: "inner_deserialize_read (rdr M (ser v @ rest) j) (Some e) (d + 1) =
      Ok (retype e v, rdr M rest (j + length (ser v)))"
    if "v \<in> set vs" "j + length (ser v) \<le> unat M" for v j rest
  proof (rule List.IH [OF that(1)])
    show "unat (d + 1) + nesting v < 16"
      using List.prems(5) nesting_list_mem [OF that(1)] by (intro depth_Suc) simp
  qed (use that List.prems ce fv in \<open>auto simp: wf_items_iff\<close>)
  have items: "deserialize_items (rdr M (ser_list vs @ rest) (5 + k)) (Some e) (d + 1) (length vs) =
      Ok (map (retype e) vs, rdr M rest (5 + k + length (ser_list vs)))"
    by (rule deserialize_items_rdr [OF IH]) (use List.prems(6) in auto)
  have "wf_value (retype t (VSequence (ListSeq (ListData vs (ListTypeData n0 e0)))))"
    using retype_correct [OF List.prems(1-4)] by simp
  then have "wf_items e (map (retype e) vs)" by (simp add: t retype_list_map)
  then have lw: "list_with_type (map (retype e) vs) (ListTypeData n e) =
      Ok (VSequence (ListSeq (ListData (map (retype e) vs) (ListTypeData n e))))"
    using t(2) by (intro list_with_type_eq) (auto simp: list_all_iff wf_items_iff)
  have "\<not> n < of_nat (length vs)" using t(2) len by (simp add: word_less_nat_alt unat_of_nat_lt)
  then show ?case
    using List.prems(5-7) items lw not_max_less [OF len] len
    by (subst inner_deserialize_read.simps)
      (simp add: deser_simps t(1) unat_of_nat_lt retype_list_map add.assoc add.left_commute
        del: list_with_type.simps)
next
  case (Tuple m0 dm)
  then obtain m where t: "t = TupleType (TupleTypeSignature m)" "fits_fields m dm"
      "length m = length dm"
    by (cases t rule: wf_type.cases) auto
  note v = wf_tuple_value [OF Tuple.prems(1)]
  have field: "\<exists>u. map_of m n = Some u \<and> fits u x \<and> wf_type u \<and> concrete_type u"
    if "(n, x) \<in> set dm" for n x
    using t(2) that Tuple.prems(3,4) t(1)
    by (fastforce simp: fits_fields_iff concrete_fields_iff dest: map_of_SomeD wf_fieldsD)
  have IH: "inner_deserialize_read (rdr M (ser x @ rest) j) (map_of m n) (d + 1) =
      Ok (retype (the (map_of m n)) x, rdr M rest (j + length (ser x)))"
    if "(n, x) \<in> set dm" "j + length (ser x) \<le> unat M" for n x j rest
  proof -
    from field [OF that(1)] obtain u where u: "map_of m n = Some u" "fits u x" "wf_type u"
      "concrete_type u" by blast
    have "unat (d + 1) + nesting x < 16"
      using Tuple.prems(5) nesting_fields_mem [OF that(1)] by (intro depth_Suc) simp
    then show ?thesis
      using Tuple.IH [OF that(1)] v(2) [OF that(1)] u that(2) Tuple.prems(7) by simp
  qed
  have "deserialize_fields (rdr M (ser_fields dm @ rest) (5 + k)) (Some (TupleTypeSignature m))
        (d + 1) (length dm) =
      Ok (map (\<lambda>(n, x). (n, retype (the (map_of m n)) x)) dm,
        rdr M rest (5 + k + length (ser_fields dm)))"
  proof (rule deserialize_fields_rdr [OF _ IH])
    show "valid_clarity_name n \<and> (case Some (TupleTypeSignature m) of None \<Rightarrow> map_of m n = None
        | Some ts \<Rightarrow> field_type ts n = map_of m n \<and> map_of m n \<noteq> None)" if "(n, x) \<in> set dm" for n x
      using v(2) [OF that] field [OF that] by auto
  qed (use Tuple.prems(6,7) in auto)
  moreover have rf: "map (\<lambda>(n, x). (n, retype (the (map_of m n)) x)) dm = retype_fields m dm"
    using retype_fields_map [of dm m] field by fastforce
  moreover have "from_data_typed (retype_fields m dm) (TupleTypeSignature m) =
      Ok (TupleData (TupleTypeSignature m) (retype_fields m dm))"
  proof -
    have w: "wf_value (VTuple (TupleData (TupleTypeSignature m) (retype_fields m dm)))"
      using retype_correct [OF Tuple.prems(1-4)] by (simp add: t(1))
    then have "\<exists>u. map_of m n = Some u \<and> admits u x = Ok True"
      if "(n, x) \<in> set (retype_fields m dm)" for n x
      using that by (auto simp: wf_data_iff admits_eq)
    then show ?thesis
      using fold_btree_insert_sorted [OF wf_tuple_value(1) [OF w]] from_data_typed_loop_eq
      by (simp add: from_data_typed_def)
  qed
  moreover have "ucast (of_nat (length dm) :: u32) = (of_nat (length dm) :: u64)"
    using v(4) by (simp add: word_unat_eq_iff unat_of_nat_lt unsigned_ucast_eq take_bit_nat_eq_self)
  ultimately show ?case
    using Tuple.prems(5-7) not_max_less [OF v(4)] v(4) t(3)
    by (subst inner_deserialize_read.simps)
      (simp add: deser_simps t(1) unat_of_nat_lt add.assoc add.left_commute)
qed



section \<open>Length of the serialization\<close>

lemma length_ser_list: "(\<And>v. v \<in> set vs \<Longrightarrow> length (ser v) \<le> b) \<Longrightarrow> length (ser_list vs) \<le> length vs * b"
proof (induction vs)
  case (Cons v vs)
  have "length (ser v) \<le> b" using Cons.prems by simp
  moreover have "length (ser_list vs) \<le> length vs * b" by (rule Cons.IH) (use Cons.prems in simp)
  ultimately show ?case by simp
qed simp

lemma length_ser_fields:
  assumes "map fst d = map fst m"
    and "\<And>n v. (n, v) \<in> set d \<Longrightarrow> \<exists>t. (n, t) \<in> set m \<and> length (ser v) \<le> 2 * tsize t"
    and "distinct (map fst m)"
  shows "length (ser_fields d) \<le> length m + 2 * fields_tsize m"
  using assms
proof (induction d arbitrary: m)
  case (Cons e d)
  obtain n v where e: "e = (n, v)" by (cases e)
  with Cons.prems(1) obtain t m' where m: "m = (n, t) # m'" "map fst d = map fst m'"
    by (cases m) auto
  have v: "length (ser v) \<le> 2 * tsize t"
    using Cons.prems(2) [of n v] Cons.prems(3) by (force simp: e m)
  have "length (ser_fields d) \<le> length m' + 2 * fields_tsize m'"
  proof (rule Cons.IH [OF m(2)])
    fix n' v' assume *: "(n', v') \<in> set d"
    then have "n' \<in> fst ` set d" by force
    also have "fst ` set d = fst ` set m'" using m(2) by (metis set_map)
    finally have "n' \<noteq> n" using Cons.prems(3) m(1) by auto
    then show "\<exists>t. (n', t) \<in> set m' \<and> length (ser v') \<le> 2 * tsize t"
      using Cons.prems(2) [of n' v'] * by (auto simp: e m)
  qed (use Cons.prems(3) m(1) in simp)
  with v show ?case by (simp add: e m ser_name_def)
qed simp

lemma length_concat_utf8: "list_all utf8_char cs \<Longrightarrow> length (concat cs) \<le> 4 * length cs"
proof (induction cs)
  case (Cons c cs)
  have "length c \<le> 4" using Cons.prems by (cases c rule: utf8_char.cases) auto
  with Cons show ?case by simp
qed simp

lemma length_ser_type: "\<lbrakk>wf_value v; fits t v; wf_type t\<rbrakk> \<Longrightarrow> length (ser v) \<le> 2 * tsize t"
proof (induction v arbitrary: t rule: value_induct)
  case (Principal p)
  then show ?case
    by (cases p; cases "prefix_of_principal p")
      (auto simp: ser_principal_def ser_name_def wf_standard_principal_def valid_contract_name_iff
        split: standard_principal_data.splits)
next
  case (Buffer bs)
  then show ?case by (cases t rule: wf_type.cases) auto
next
  case (ASCII bs)
  then show ?case by (cases t rule: wf_type.cases) auto
next
  case (UTF8 cs)
  then obtain n where "t = SequenceType (StringType (StrUTF8 (StringUTF8Length n)))"
      "length cs \<le> unat n"
    by (cases t rule: wf_type.cases) auto
  then show ?case using length_concat_utf8 [of cs] UTF8.prems(1) by (simp del: length_concat)
next
  case None
  then show ?case by (cases t rule: wf_type.cases) auto
next
  case (Some v)
  then show ?case by (cases t rule: wf_type.cases) fastforce+
next
  case (Response b v)
  then obtain p q where t: "t = ResponseType p q" "fits (if b then p else q) v"
    by (cases t rule: wf_type.cases) (auto split: if_splits)
  have "length (ser v) \<le> 2 * tsize (if b then p else q)"
    by (rule Response.IH) (use Response.prems t in auto)
  then show ?case by (simp add: t(1) split: if_splits)
next
  case (List vs n0 e0)
  then obtain n e where t: "t = SequenceType (ListType (ListTypeData n e))"
      "length vs \<le> unat n" "fits_list e vs"
    by (cases t rule: wf_type.cases) auto
  have "length (ser_list vs) \<le> length vs * (2 * tsize e)"
    by (rule length_ser_list)
      (use List t in \<open>auto simp: wf_items_iff fits_list_iff\<close>)
  also have "\<dots> \<le> unat n * (2 * tsize e)" using t(2) by (rule mult_le_mono1)
  finally show ?case by (simp add: t(1) ac_simps)
next
  case (Tuple m0 d)
  then obtain m where t: "t = TupleType (TupleTypeSignature m)" "fits_fields m d"
      "length m = length d"
    by (cases t rule: wf_type.cases) auto
  note v = wf_tuple_value [OF Tuple.prems(1)]
  have "length (ser_fields d) \<le> length m + 2 * fields_tsize m"
  proof (rule length_ser_fields)
    show "map fst d = map fst m" using fits_tuple_keys t v(1) Tuple.prems(3) by simp
    show "distinct (map fst m)" using Tuple.prems(3) t(1) by (simp add: btree_wf_distinct)
    fix n x assume x: "(n, x) \<in> set d"
    then obtain u where u: "map_of m n = Some u" "fits u x"
      using t(2) by (auto simp: fits_fields_iff)
    then have "(n, u) \<in> set m" by (simp add: map_of_SomeD)
    moreover have "wf_type u" using \<open>(n, u) \<in> set m\<close> Tuple.prems(3) t(1) wf_fieldsD by force
    ultimately show "\<exists>t. (n, t) \<in> set m \<and> length (ser x) \<le> 2 * tsize t"
      using Tuple.IH [OF x] v(2) [OF x] u by blast
  qed
  moreover have "m \<noteq> []" using Tuple.prems(3) t(1) by simp
  then have "Suc 0 \<le> length d" using t(3) by (cases d) auto
  ultimately show ?case using t(3) by (simp add: t(1) del: length_greater_0_conv)
qed auto

lemma length_ser: assumes "wf_value v" shows "length (ser v) \<le> 2097152"
proof -
  have "length (ser v) \<le> 2 * tsize (vtype v)"
    using length_ser_type assms wf_value_fits wf_value_type by blast
  then show ?thesis
    using assms
  proof (induction v rule: value_induct)
    case (UTF8 cs)
    then show ?case using length_concat_utf8 [of cs] by (simp del: length_concat)
  qed (auto split: if_splits)
qed


lemma unat_BOUND: "unat (ucast BOUND_VALUE_SERIALIZATION_BYTES :: u64) = 2097152"
  by (simp add: BOUND_VALUE_SERIALIZATION_BYTES_def MAX_VALUE_SIZE_def)

lemma deserialize_read_typed:
  assumes "wf_value v" "fits t v" "wf_type t" "concrete_type t" "nesting v < 16"
  shows "deserialize_read (ser v @ rest) (Some t) =
    Ok (retype t v, rdr (ucast BOUND_VALUE_SERIALIZATION_BYTES) rest (length (ser v)))"
proof -
  have "from_reader bs M = rdr M bs 0" for bs M by (simp add: from_reader_def rdr_def)
  then show ?thesis
    using deserialize_typed [OF assms(1-4), of 0 0 "ucast BOUND_VALUE_SERIALIZATION_BYTES" rest]
      assms(5) length_ser [OF assms(1)] unat_BOUND
    by (simp add: deserialize_read_def)
qed

lemma serialize_to_vec_ser: "wf_value v \<Longrightarrow> serialize_to_vec v = Ok (ser v)"
  by (simp add: serialize_to_vec_def vec_writer.serialize_write_ser vec_write_def
      del: serialize_write.simps)

lemma serialized_size_ser: "wf_value v \<Longrightarrow> serialized_size v = Ok (of_nat (length (ser v)))"
  using length_ser [of v]
  by (simp add: serialized_size_def counter_writer.serialize_write_ser counter_write_def
      try_from_nat_def checked_add_def unat_of_nat_lt del: serialize_write.simps)

section \<open>Properties\<close>

text \<open>C4: Typed round trip: a well-formed value that is a member of a well-formed type and nests
  fewer than 16 levels serializes without panicking, and reading the bytes (or their hexadecimal
  text) back at that type returns an equal, well-formed value; bytes after the value are ignored.\<close>

theorem typed_round_trip:
  assumes "wf_value v" "fits t v" "wf_type t" "concrete_type t" "nesting v < 16"
  shows "\<exists>bytes hex w. serialize_to_vec v = Ok bytes \<and> value_serialize v = Ok hex
    \<and> try_deserialize_bytes (bytes @ rest) t = Ok w \<and> try_deserialize_hex hex t = Ok w
    \<and> value_deserialize hex t = Ok w \<and> wf_value w \<and> value_eq w v"
proof -
  have "try_deserialize_bytes (ser v @ rest) t = Ok (retype t v)" for rest
    using deserialize_read_typed [OF assms] by (simp add: try_deserialize_bytes_def)
  moreover from this [of "[]"] have "try_deserialize_hex (to_hex (ser v)) t = Ok (retype t v)"
    by (simp add: try_deserialize_hex_def)
  ultimately show ?thesis
    using serialize_to_vec_ser [OF assms(1)] retype_correct [OF assms(1-4)] erase_retype [OF assms(2)]
    by (simp add: value_serialize_def value_deserialize_def value_eq_iff_erase)
qed

theorem typed_round_trip_witness:
  "\<exists>bytes hex w. serialize_to_vec (VOptional (Some (VSequence (Buffer [1, 2])))) = Ok bytes
    \<and> value_serialize (VOptional (Some (VSequence (Buffer [1, 2])))) = Ok hex
    \<and> try_deserialize_bytes (bytes @ [7]) (OptionalType (SequenceType (BufferType (BufferLength 5)))) = Ok w
    \<and> try_deserialize_hex hex (OptionalType (SequenceType (BufferType (BufferLength 5)))) = Ok w
    \<and> value_deserialize hex (OptionalType (SequenceType (BufferType (BufferLength 5)))) = Ok w
    \<and> wf_value w \<and> value_eq w (VOptional (Some (VSequence (Buffer [1, 2]))))"
  using typed_round_trip [of "VOptional (Some (VSequence (Buffer [1, 2])))"
      "OptionalType (SequenceType (BufferType (BufferLength 5)))" "[7]"]
  by simp

text \<open>C32: The size computed with \<open>WriteCounter\<close> is the number of bytes \<open>serialize_to_vec\<close> writes, it
  never overflows, and it stays within \<open>BOUND_VALUE_SERIALIZATION_BYTES\<close>, so the bounded reader
  can read every well-formed value; it is at most twice the size of any type of the value.\<close>

theorem serialized_size_exact:
  assumes "wf_value v"
  shows "\<exists>bytes. serialize_to_vec v = Ok bytes \<and> serialized_size v = Ok (of_nat (length bytes))
    \<and> length bytes \<le> unat BOUND_VALUE_SERIALIZATION_BYTES
    \<and> (\<forall>t. fits t v \<and> wf_type t \<longrightarrow> length bytes \<le> 2 * tsize t)"
  using serialize_to_vec_ser [OF assms] serialized_size_ser [OF assms] length_ser [OF assms]
    length_ser_type [OF assms]
  by (simp add: BOUND_VALUE_SERIALIZATION_BYTES_def MAX_VALUE_SIZE_def)

theorem serialized_size_exact_witness:
  "serialized_size (VResponse True (VInt 5)) = Ok 18"
  using serialized_size_exact [of "VResponse True (VInt 5)"] serialize_to_vec_ser [of "VResponse True (VInt 5)"]
  by auto



section \<open>What the reader returns\<close>

text \<open>Every tuple inside the value has all the fields of its signature.\<close>

fun complete_tuples :: "clarity_value \<Rightarrow> bool"
and complete_list :: "clarity_value list \<Rightarrow> bool"
and complete_fields :: "(clarity_name \<times> clarity_value) list \<Rightarrow> bool" where
  "complete_tuples (VTuple (TupleData (TupleTypeSignature m) d)) =
     (map fst d = map fst m \<and> complete_fields d)"
| "complete_tuples (VSequence (ListSeq (ListData vs _))) = complete_list vs"
| "complete_tuples (VOptional (Some v)) = complete_tuples v"
| "complete_tuples (VResponse _ v) = complete_tuples v"
| "complete_tuples _ = True"
| "complete_list [] = True"
| "complete_list (v # vs) = (complete_tuples v \<and> complete_list vs)"
| "complete_fields [] = True"
| "complete_fields ((_, v) # d) = (complete_tuples v \<and> complete_fields d)"

text \<open>A reader within its bound, and a later position of the same reader.\<close>

definition reader_ok :: "bound_reader \<Rightarrow> bool" where
  "reader_ok r \<longleftrightarrow> read_so_far r \<le> max_len r"

definition advanced :: "bound_reader \<Rightarrow> bound_reader \<Rightarrow> bool" where
  "advanced r r' \<longleftrightarrow> reader_ok r' \<and> max_len r' = max_len r \<and>
     (\<exists>used. fd r = used @ fd r' \<and> unat (read_so_far r') = unat (read_so_far r) + length used)"

lemma complete_list_iff: "complete_list vs \<longleftrightarrow> (\<forall>v \<in> set vs. complete_tuples v)"
  by (induction vs) auto

lemma complete_fields_iff: "complete_fields d \<longleftrightarrow> (\<forall>(n, v) \<in> set d. complete_tuples v)"
  by (induction d) auto

lemma advanced_refl [simp]: "advanced r r \<longleftrightarrow> reader_ok r"
  by (simp add: advanced_def)

lemma advanced_trans [trans]: "\<lbrakk>advanced r s; advanced s u\<rbrakk> \<Longrightarrow> advanced r u"
  unfolding advanced_def by fastforce

lemma advanced_ok: "advanced r s \<Longrightarrow> reader_ok s"
  by (simp add: advanced_def)

lemma bound_read_advanced:
  assumes "bound_read r n = Ok (bs, r')" "reader_ok r"
  shows "advanced r r' \<and> length bs \<le> n"
proof -
  from assms(1) obtain i where i: "checked_add (read_so_far r) (of_nat n) = Some i"
    by (auto simp: bound_read_def split: option.splits)
  define mr where "mr = (if i > max_len r then max_len r - read_so_far r else of_nat n)"
  define nr where "nr = min (unat mr) (length (fd r))"
  have r': "r' = r\<lparr>fd := drop nr (fd r), read_so_far := read_so_far r + of_nat nr\<rparr>"
    and bs: "bs = take nr (fd r)"
    using assms(1) i by (auto simp: bound_read_def Let_def nr_def mr_def)
  have i': "unat i = unat (read_so_far r) + unat (of_nat n :: u64)" using i by (simp add: checked_iff)
  have n: "unat (of_nat n :: u64) \<le> n" by (simp add: unat_of_nat)
  have "unat (read_so_far r) + unat mr \<le> unat (max_len r) \<and> unat mr \<le> n"
  proof (cases "i > max_len r")
    case True
    with assms(2) i' n show ?thesis
      by (auto simp: mr_def unat_sub word_le_nat_alt word_less_nat_alt reader_ok_def)
  next
    case False
    with i' n show ?thesis by (auto simp: mr_def word_less_nat_alt)
  qed
  moreover have nr: "nr \<le> unat mr" "nr \<le> length (fd r)" by (simp_all add: nr_def)
  ultimately have b: "unat (read_so_far r) + nr \<le> unat (max_len r)" "nr \<le> n" by linarith+
  then have "unat (read_so_far r + of_nat nr) = unat (read_so_far r) + nr"
    using unat_lt [of "max_len r"] by (simp add: unat_word_ariths unat_of_nat_lt)
  with b nr show ?thesis
    unfolding advanced_def reader_ok_def
    by (intro conjI exI [of _ "take nr (fd r)"]) (simp_all add: r' bs word_le_nat_alt)
qed

lemma read_exact_advanced:
  "\<lbrakk>read_exact r n = Ok (bs, r'); reader_ok r\<rbrakk> \<Longrightarrow> advanced r r' \<and> length bs = n"
proof (induction r n arbitrary: bs r' rule: read_exact.induct)
  case (1 r n)
  show ?case
  proof (cases "n = 0")
    case True
    with "1.prems" show ?thesis by (subst (asm) read_exact.simps) simp
  next
    case False
    with "1.prems"(1) obtain as s cs where a: "bound_read r n = Ok (as, s)" "as \<noteq> []"
      "read_exact s (n - length as) = Ok (cs, r')" "bs = as @ cs"
      by (subst (asm) read_exact.simps) (auto split: if_splits)
    note s = bound_read_advanced [OF a(1) "1.prems"(2)]
    have "advanced s r' \<and> length cs = n - length as"
      by (rule "1.IH" [OF False a(1) _ a(2,3)]) (use s advanced_ok in auto)
    with s a(4) show ?thesis using advanced_trans by auto
  qed
qed

lemma read_bytes_advanced:
  "\<lbrakk>read_bytes r n = Ok (bs, r'); reader_ok r\<rbrakk> \<Longrightarrow> advanced r r' \<and> length bs = n"
  by (simp add: read_bytes_def read_exact_advanced)

lemma standard_principal_read_advanced:
  assumes "standard_principal_read r = Ok (p, r')" "reader_ok r"
  shows "advanced r r' \<and> wf_standard_principal p"
proof -
  from assms(1) obtain a s b where "read_bytes r 1 = Ok (a, s)" "read_bytes s 20 = Ok (b, r')"
    "p = StandardPrincipalData (a ! 0) b"
    by (auto simp: standard_principal_read_def)
  moreover from this(1) have "advanced r s" using read_bytes_advanced assms(2) by simp
  ultimately show ?thesis
    using read_bytes_advanced [of s 20 b r'] advanced_ok [of r s] advanced_trans [of r s r']
    by (simp add: wf_standard_principal_def)
qed

lemma guarded_string_read_advanced:
  assumes "guarded_string_read try_from r = Ok (name, r')" "reader_ok r"
  shows "advanced r r' \<and> (\<exists>s. try_from s = Ok name)"
proof -
  from assms(1) obtain a s n b where "read_bytes r 1 = Ok (a, s)" "read_bytes s n = Ok (b, r')"
    "try_from (bytes_to_string b) = Ok name"
    by (auto simp: guarded_string_read_def Let_def split: if_splits)
  moreover from this(1) have "advanced r s" using read_bytes_advanced assms(2) by simp
  ultimately show ?thesis
    using read_bytes_advanced [of s n b r'] advanced_ok [of r s] advanced_trans [of r s r'] by auto
qed

lemma read_sized_advanced:
  assumes "read_sized r t test = Ok (data, r')" "reader_ok r"
  shows "advanced r r' \<and> (\<forall>x. t = Some x \<longrightarrow> (\<exists>n. test x n \<and> length data = unat n))"
proof -
  from assms(1) obtain a s n where "read_bytes r 4 = Ok (a, s)"
    "read_bytes s (unat (u32_from_buffer_length n)) = Ok (data, r')"
    "\<forall>x. t = Some x \<longrightarrow> test x (u32_from_buffer_length n)"
    by (cases t) (auto simp: read_sized_def split: if_splits)
  moreover from this(1) have "advanced r s" using read_bytes_advanced assms(2) by simp
  ultimately show ?thesis
    using read_bytes_advanced [of s "unat (u32_from_buffer_length n)" data r'] advanced_ok [of r s]
      advanced_trans [of r s r'] by auto
qed

lemma deserialize_items_advanced:
  assumes elem: "\<And>r v r'. \<lbrakk>inner_deserialize_read r t d = Ok (v, r'); reader_ok r\<rbrakk> \<Longrightarrow> advanced r r' \<and> Q v"
  shows "\<lbrakk>deserialize_items r t d n = Ok (vs, r'); reader_ok r\<rbrakk> \<Longrightarrow>
    advanced r r' \<and> length vs = n \<and> list_all Q vs"
proof (induction n arbitrary: r vs)
  case (Suc n)
  from Suc.prems(1) obtain v s ws where v: "inner_deserialize_read r t d = Ok (v, s)"
    "deserialize_items s t d n = Ok (ws, r')" "vs = v # ws" by auto
  note a = elem [OF v(1) Suc.prems(2)]
  then have "reader_ok s" using advanced_ok by blast
  with a Suc.IH [OF v(2)] advanced_trans [of r s r'] show ?case by (simp add: v(3))
qed simp

lemma deserialize_fields_advanced:
  assumes elem: "\<And>r u v r'. \<lbrakk>inner_deserialize_read r u d = Ok (v, r'); reader_ok r\<rbrakk> \<Longrightarrow>
      advanced r r' \<and> Q u v"
  shows "\<lbrakk>deserialize_fields r tt d n = Ok (fs, r'); reader_ok r\<rbrakk> \<Longrightarrow>
    advanced r r' \<and> length fs = n
    \<and> (\<forall>(k, v) \<in> set fs. valid_clarity_name k \<and> (case tt of None \<Rightarrow> Q None v
        | Some ts \<Rightarrow> (\<exists>u. field_type ts k = Some u \<and> Q (Some u) v)))"
proof (induction n arbitrary: r fs)
  case (Suc n)
  from Suc.prems(1) obtain k s u v s' gs where
    k: "guarded_string_read clarity_name_try_from r = Ok (k, s)"
    and u: "(case tt of None \<Rightarrow> u = None | Some ts \<Rightarrow> u \<noteq> None \<and> field_type ts k = u)"
    and v: "inner_deserialize_read s u d = Ok (v, s')"
    and g: "deserialize_fields s' tt d n = Ok (gs, r')" "fs = (k, v) # gs"
    by (cases tt) fastforce+
  note a = guarded_string_read_advanced [OF k Suc.prems(2)]
  then have kv: "valid_clarity_name k"
    by (auto simp: clarity_name_try_from_def valid_clarity_name_def guarded_try_from_def split: if_splits)
  have b: "advanced s s' \<and> Q u v" using elem [OF v] a advanced_ok by blast
  note c = Suc.IH [OF g(1) advanced_ok [OF conjunct1 [OF b]]]
  have "advanced r r'" using a b c advanced_trans by blast
  with b c u kv show ?case by (cases tt) (auto simp: g(2))
qed simp


definition well_typed :: "type_signature option \<Rightarrow> clarity_value \<Rightarrow> bool" where
  "well_typed t v \<longleftrightarrow> (\<forall>x. t = Some x \<and> wf_type x \<and> (concrete_type x \<or> x = NoType)
     \<and> complete_tuples v \<longrightarrow> wf_value v \<and> fits x v)"

lemma well_typedI:
  "(\<And>x. \<lbrakk>t = Some x; wf_type x; concrete_type x \<or> x = NoType; complete_tuples v\<rbrakk> \<Longrightarrow>
     wf_value v \<and> fits x v) \<Longrightarrow> well_typed t v"
  by (simp add: well_typed_def)

lemma well_typedD:
  "\<lbrakk>well_typed (Some x) v; wf_type x; concrete_type x \<or> x = NoType; complete_tuples v\<rbrakk> \<Longrightarrow>
     wf_value v \<and> fits x v"
  by (simp add: well_typed_def)

lemma fits_NoType [simp]: "\<not> fits NoType v"
  by (induction v rule: value_induct) auto

lemma from_data_typed_loop_fold:
  "from_data_typed_loop ts data dm = Ok dm' \<Longrightarrow> dm' = fold (\<lambda>(n, v). btree_insert n v) data dm"
  by (induction data arbitrary: dm) (auto split: if_splits)

lemma fold_btree_insert_keys:
  "btree_wf dm \<Longrightarrow> fst ` set (fold (\<lambda>(n, v). btree_insert n v) data dm) = fst ` set data \<union> fst ` set dm"
proof (induction data arbitrary: dm)
  case (Cons e data)
  then show ?case by (cases e) simp
qed simp

lemma from_data_typed_complete:
  assumes "from_data_typed fs (TupleTypeSignature m) = Ok td" "length fs = length m"
    and "wf_type (TupleType (TupleTypeSignature m))" "concrete_fields m"
    and "complete_tuples (VTuple td)"
    and fields: "\<And>k v. (k, v) \<in> set fs \<Longrightarrow> valid_clarity_name k
        \<and> (\<exists>u. map_of m k = Some u \<and> well_typed (Some u) v)"
  shows "wf_value (VTuple td) \<and> fits (TupleType (TupleTypeSignature m)) (VTuple td)"
proof -
  from assms(1) obtain dm where loop: "from_data_typed_loop (TupleTypeSignature m) fs [] = Ok dm"
    and td: "td = TupleData (TupleTypeSignature m) dm"
    by (auto simp: from_data_typed_def)
  have dm: "dm = fold (\<lambda>(n, v). btree_insert n v) fs []"
    using from_data_typed_loop_fold [OF loop] .
  have keys: "map fst dm = map fst m" and comp: "complete_fields dm" using assms(5) by (auto simp: td)
  have dm_keys: "fst ` set dm = fst ` set fs"
    using fold_btree_insert_keys [of "[]" fs] by (simp add: dm)
  have mk: "fst ` set m = fst ` set fs" using keys dm_keys by (metis set_map)
  have "card (fst ` set m) = length m"
    using assms(3) by (metis btree_wf_distinct distinct_card length_map set_map wf_type.simps(10))
  then have "card (set (map fst fs)) = length (map fst fs)" using mk assms(2) by simp
  then have "distinct (map fst fs)" by (rule card_distinct)
  then have set: "set dm = set fs" using fold_btree_insert [of fs "[]"] by (simp add: dm)
  have "wf_value v" if "(k, v) \<in> set fs" for k v
  proof -
    from fields [OF that] obtain u where u: "map_of m k = Some u" "well_typed (Some u) v" by blast
    moreover have "wf_type u" "concrete_type u"
      using u(1) assms(3,4) by (auto simp: concrete_fields_iff dest!: map_of_SomeD wf_fieldsD)
    moreover have "complete_tuples v" using comp that set by (auto simp: complete_fields_iff)
    ultimately show ?thesis using well_typedD by blast
  qed
  then have "list_all (\<lambda>(_, v). wf_value v) fs" by (auto simp: list_all_iff)
  moreover have "list_all (\<lambda>(n, _). valid_clarity_name n) m"
  proof -
    have "valid_clarity_name n" if "(n, u) \<in> set m" for n u
    proof -
      have "n \<in> fst ` set fs" using that mk by force
      then show ?thesis using fields by auto
    qed
    then show ?thesis by (auto simp: list_all_iff)
  qed
  ultimately have "wf_value (VTuple td)"
    using from_data_typed_wf [OF assms(1) _ assms(3,4)] mk by simp
  moreover from wf_value_fits [OF this] have "fits (TupleType (TupleTypeSignature m)) (VTuple td)"
    by (simp add: td)
  ultimately show ?thesis ..
qed


lemma deserialize_sound:
  "\<lbrakk>inner_deserialize_read r t d = Ok (v, r'); reader_ok r\<rbrakk> \<Longrightarrow> advanced r r' \<and> well_typed t v"
proof (induction "16 - unat d" arbitrary: r t d v r' rule: less_induct)
  case less
  have d: "\<not> 16 \<le> d" using less.prems(1) by (subst (asm) inner_deserialize_read.simps) (auto split: if_splits)
  have IH: "advanced r r' \<and> well_typed t v"
    if "inner_deserialize_read r t (d + 1) = Ok (v, r')" "reader_ok r" for r t v r'
    by (rule less.hyps [OF _ that]) (use depth_step [OF d] in linarith)
  obtain header s pre where h: "read_bytes r 1 = Ok (header, s)" "from_u8 (header ! 0) = Some pre"
    using less.prems(1) d
    by (subst (asm) inner_deserialize_read.simps) (auto split: option.splits)
  have rs: "advanced r s" using read_bytes_advanced [OF h(1) less.prems(2)] by simp
  note ok = advanced_ok [OF rs]
  have goal: "advanced r r' \<and> well_typed t v" if "advanced s r'" "well_typed t v"
    using advanced_trans [OF rs that(1)] that(2) by simp
  note read = less.prems(1) [unfolded inner_deserialize_read.simps [of r t d], simplified d h, simplified]
  show ?case
  proof (cases pre)
    case PInt
    with read h(2) obtain bs where "check_match t (\<lambda>t. t = IntType) = Ok ()" "read_bytes s 16 = Ok (bs, r')"
        "v = VInt (from_be_bytes bs)" by auto
    then show ?thesis
      using read_bytes_advanced [OF _ ok]
      by (intro goal) (auto simp: check_match_def intro!: well_typedI split: option.splits if_splits)
  next
    case PUInt
    with read h(2) obtain bs where "check_match t (\<lambda>t. t = UIntType) = Ok ()" "read_bytes s 16 = Ok (bs, r')"
        "v = VUInt (from_be_bytes bs)" by auto
    then show ?thesis
      using read_bytes_advanced [OF _ ok]
      by (intro goal) (auto simp: check_match_def intro!: well_typedI split: option.splits if_splits)
  next
    case PBoolTrue
    with read h(2) ok show ?thesis
      by (intro goal) (auto simp: check_match_def intro!: well_typedI split: option.splits if_splits)
  next
    case PBoolFalse
    with read h(2) ok show ?thesis
      by (intro goal) (auto simp: check_match_def intro!: well_typedI split: option.splits if_splits)
  next
    case POptionalNone
    with read h(2) ok show ?thesis
      by (intro goal) (auto simp: check_match_def is_optional_type_def value_none_def
          intro!: well_typedI split: option.splits if_splits type_signature.splits)
  next
    case PBuffer
    with read h(2) obtain bs where b: "read_sized s t buffer_fits = Ok (bs, r')" "buff_from bs = Ok v" by auto
    note a = read_sized_advanced [OF b(1) ok]
    show ?thesis
    proof (rule goal)
      show "well_typed t v"
      proof (rule well_typedI)
        fix x assume "t = Some x"
        with a obtain n where "buffer_fits x n" "length bs = unat n" by auto
        with b(2) show "wf_value v \<and> fits x v"
          by (cases "(x, n)" rule: buffer_fits.cases)
            (auto simp: buff_from_eq word_le_nat_alt split: if_splits buffer_length.splits)
      qed
    qed (use a in simp)
  next
    case PStringASCII
    with read h(2) obtain bs where b: "read_sized s t ascii_fits = Ok (bs, r')"
      "string_ascii_from_bytes bs = Ok v" by auto
    note a = read_sized_advanced [OF b(1) ok]
    show ?thesis
    proof (rule goal)
      show "well_typed t v"
      proof (rule well_typedI)
        fix x assume "t = Some x"
        with a obtain n where "ascii_fits x n" "length bs = unat n" by auto
        with b(2) show "wf_value v \<and> fits x v"
          by (cases "(x, n)" rule: ascii_fits.cases)
            (auto simp: string_ascii_from_bytes_eq word_le_nat_alt split: if_splits buffer_length.splits)
      qed
    qed (use a in simp)
  next
    case PStringUTF8
    with read h(2) obtain bs where b: "read_sized s None (\<lambda>_ _. True) = Ok (bs, r')"
      "string_utf8_from_bytes bs = Ok v" "check_match t (\<lambda>x. utf8_fits x (Ok v)) = Ok ()"
      by (auto simp: Let_def)
    note a = read_sized_advanced [OF b(1) ok]
    show ?thesis
    proof (rule goal)
      show "well_typed t v"
      proof (rule well_typedI)
        fix x assume x: "t = Some x" "wf_type x"
        then have "utf8_fits x (Ok v)" using b(3) by (simp add: check_match_def split: if_splits)
        moreover have "wf_value v" using b(2) by (rule string_utf8_from_bytes_wf)
        ultimately show "wf_value v \<and> fits x v"
          by (cases "(x, Ok v :: clarity_value interpreter_result)" rule: utf8_fits.cases)
            (auto simp: word_le_nat_alt unat_of_nat_lt split: string_utf8_length.splits)
      qed
    qed (use a in simp)
  next
    case PPrincipalStandard
    with read h(2) obtain p where "check_match t (\<lambda>t. t = PrincipalType) = Ok ()"
      "standard_principal_read s = Ok (p, r')" "v = VPrincipal (Standard p)" by auto
    then show ?thesis
      using standard_principal_read_advanced [OF _ ok]
      by (intro goal) (auto simp: check_match_def intro!: well_typedI split: option.splits if_splits)
  next
    case PPrincipalContract
    with read h(2) obtain p s' n where c: "check_match t (\<lambda>t. t = PrincipalType) = Ok ()"
      "standard_principal_read s = Ok (p, s')" "guarded_string_read contract_name_try_from s' = Ok (n, r')"
      "v = VPrincipal (Contract \<lparr>qci_issuer = p, qci_name = n\<rparr>)" by auto
    note a = standard_principal_read_advanced [OF c(2) ok]
    then have "reader_ok s'" using advanced_ok by blast
    note b = guarded_string_read_advanced [OF c(3) this]
    then have "valid_contract_name n"
      by (auto simp: contract_name_try_from_def valid_contract_name_def guarded_try_from_def split: if_splits)
    moreover have "advanced s r'" using a b advanced_trans by blast
    ultimately show ?thesis
      using a c(1,4)
      by (intro goal) (auto simp: check_match_def intro!: well_typedI split: option.splits if_splits)
  next
    case POptionalSome
    with read h(2) obtain e w where e: "expected_option t = Ok e"
      "inner_deserialize_read s e (d + 1) = Ok (w, r')" "value_some w = Ok v" by auto
    note a = IH [OF e(2) ok]
    show ?thesis
    proof (rule goal)
      show "well_typed t v"
      proof (rule well_typedI)
        fix x assume x: "t = Some x" "wf_type x" "concrete_type x \<or> x = NoType" "complete_tuples v"
        then obtain y where y: "x = OptionalType y" "e = Some y"
          using e(1) by (cases t rule: expected_option.cases) auto
        have v: "v = VOptional (Some w)" using e(3) by (auto simp: value_some_def wrap_value_def split: if_splits)
        have "wf_value w \<and> fits y w"
          by (rule well_typedD) (use a x y v in auto)
        then show "wf_value v \<and> fits x v"
          using e(3) v y by (auto simp: value_some_def wrap_value_eq split: if_splits)
      qed
    qed (use a in simp)
  next
    case PResponseOk
    with read h(2) obtain e w where e: "expected_response True t = Ok e"
      "inner_deserialize_read s e (d + 1) = Ok (w, r')" "okay w = Ok v" by auto
    note a = IH [OF e(2) ok]
    show ?thesis
    proof (rule goal)
      show "well_typed t v"
      proof (rule well_typedI)
        fix x assume x: "t = Some x" "wf_type x" "concrete_type x \<or> x = NoType" "complete_tuples v"
        then obtain y z where y: "x = ResponseType y z" "e = Some y"
          using e(1) by (cases "(True, t)" rule: expected_response.cases) auto
        have v: "v = VResponse True w" using e(3) by (auto simp: okay_def wrap_value_def split: if_splits)
        have "wf_value w \<and> fits y w"
          by (rule well_typedD) (use a x y v in auto)
        then show "wf_value v \<and> fits x v"
          using e(3) v y by (auto simp: okay_def wrap_value_eq split: if_splits)
      qed
    qed (use a in simp)
  next
    case PResponseErr
    with read h(2) obtain e w where e: "expected_response False t = Ok e"
      "inner_deserialize_read s e (d + 1) = Ok (w, r')" "error w = Ok v" by auto
    note a = IH [OF e(2) ok]
    show ?thesis
    proof (rule goal)
      show "well_typed t v"
      proof (rule well_typedI)
        fix x assume x: "t = Some x" "wf_type x" "concrete_type x \<or> x = NoType" "complete_tuples v"
        then obtain y z where y: "x = ResponseType z y" "e = Some y"
          using e(1) by (cases "(False, t)" rule: expected_response.cases) auto
        have v: "v = VResponse False w" using e(3) by (auto simp: error_def wrap_value_def split: if_splits)
        have "wf_value w \<and> fits y w"
          by (rule well_typedD) (use a x y v in auto)
        then show "wf_value v \<and> fits x v"
          using e(3) v y by (auto simp: error_def wrap_value_eq split: if_splits)
      qed
    qed (use a in simp)
  next
    case PList
    with read h(2) obtain lb s' lt n vs where l: "read_bytes s 4 = Ok (lb, s')" "expected_list t n = Ok lt"
      "deserialize_items s' (map_option ltd_entry_type lt) (d + 1) (unat n) = Ok (vs, r')"
      "(case lt of Some lt \<Rightarrow> list_with_type vs lt | None \<Rightarrow> list_from vs) = Ok v"
      by (auto simp: Let_def split: if_splits)
    have s': "advanced s s'" using read_bytes_advanced [OF l(1) ok] by simp
    have a: "advanced s' r' \<and> length vs = unat n
        \<and> list_all (well_typed (map_option ltd_entry_type lt)) vs"
      by (rule deserialize_items_advanced [OF IH l(3) advanced_ok [OF s']])
    show ?thesis
    proof (rule goal)
      show "advanced s r'" using a s' advanced_trans by blast
      show "well_typed t v"
      proof (rule well_typedI)
        fix x assume x: "t = Some x" "wf_type x" "concrete_type x \<or> x = NoType" "complete_tuples v"
        then obtain m e where y: "x = SequenceType (ListType (ListTypeData m e))"
            "lt = Some (ListTypeData m e)" "\<not> n > m"
          using l(2) by (cases "(t, n)" rule: expected_list.cases) (auto split: if_splits)
        have lw: "list_with_type vs (ListTypeData m e) = Ok v" using l(4) y(2) by simp
        then have v: "v = VSequence (ListSeq (ListData vs (ListTypeData m e)))"
          by (auto split: if_splits)
        have "wf_value w" if "w \<in> set vs" for w
        proof -
          have "vs \<noteq> []" using that by auto
          then have "m \<noteq> 0" using a y(3) by (auto simp: word_less_nat_alt)
          then have "concrete_type e" "wf_type e" using x(2,3) y(1) by auto
          then show ?thesis
            using that a x(4) well_typedD [of e w] by (auto simp: y(2) v complete_list_iff list_all_iff)
        qed
        then have "wf_value v"
          using list_with_type_wf [OF _ _ _ lw] x(2,3) y(1)
          by (auto simp: list_all_iff simp del: wf_value.simps)
        with wf_value_fits [OF this] show "wf_value v \<and> fits x v" by (simp add: v y(1))
      qed
    qed
  next
    case PTuple
    with read h(2) obtain lb s' tt n fs td where l: "read_bytes s 4 = Ok (lb, s')" "expected_tuple t n = Ok tt"
      "deserialize_fields s' tt (d + 1) (unat n) = Ok (fs, r')" "v = VTuple td"
      "(case tt of Some tt \<Rightarrow> from_data_typed fs tt | None \<Rightarrow> from_data fs) = Ok td"
      by (auto simp: Let_def split: if_splits)
    have s': "advanced s s'" using read_bytes_advanced [OF l(1) ok] by simp
    have a: "advanced s' r' \<and> length fs = unat n
        \<and> (\<forall>(k, v) \<in> set fs. valid_clarity_name k \<and> (case tt of None \<Rightarrow> well_typed None v
          | Some ts \<Rightarrow> (\<exists>u. field_type ts k = Some u \<and> well_typed (Some u) v)))"
      by (rule deserialize_fields_advanced [OF IH l(3) advanced_ok [OF s']])
    show ?thesis
    proof (rule goal)
      show "advanced s r'" using a s' advanced_trans by blast
      show "well_typed t v"
      proof (rule well_typedI)
        fix x assume x: "t = Some x" "wf_type x" "concrete_type x \<or> x = NoType" "complete_tuples v"
        then obtain m where y: "x = TupleType (TupleTypeSignature m)" "tt = Some (TupleTypeSignature m)"
            "ucast n = tuple_len (TupleTypeSignature m)"
          using l(2) by (cases "(t, n)" rule: expected_tuple.cases)
            (auto split: if_splits elim: tuple_type_signature.exhaust)
        have "length m \<le> 1048576" using x(2) y(1) by simp
        moreover have "take_bit 64 (unat n) = unat n"
          by (rule take_bit_nat_eq_self) (use unat_lt [of n] in simp)
        ultimately have "unat n = length m"
          using arg_cong [OF y(3), of unat] by (simp add: unat_of_nat_lt unsigned_ucast_eq)
        with a have fs: "length fs = length m"
          "\<And>k w. (k, w) \<in> set fs \<Longrightarrow> valid_clarity_name k
            \<and> (\<exists>u. map_of m k = Some u \<and> well_typed (Some u) w)"
          by (auto simp: y(2))
        show "wf_value v \<and> fits x v"
          unfolding l(4) y(1)
          by (rule from_data_typed_complete [OF _ fs(1) _ _ _ fs(2)]) (use l(4,5) x y in auto)
      qed
    qed
  qed
qed


section \<open>Values nested too deeply for the reader\<close>

lemma deserialize_items_err:
  assumes "\<And>v k rest. \<lbrakk>v \<in> set vs; \<not> bad v; k + length (ser v) \<le> unat M\<rbrakk> \<Longrightarrow>
      inner_deserialize_read (rdr M (ser v @ rest) k) e d = Ok (f v, rdr M rest (k + length (ser v)))"
    and "\<And>v k rest. \<lbrakk>v \<in> set vs; bad v; k + length (ser v) \<le> unat M\<rbrakk> \<Longrightarrow>
      inner_deserialize_read (rdr M (ser v @ rest) k) e d = Err err"
    and "k + length (ser_list vs) \<le> unat M" "\<exists>v \<in> set vs. bad v"
  shows "deserialize_items (rdr M (ser_list vs @ rest) k) e d (length vs) = Err err"
  using assms
proof (induction vs arbitrary: k)
  case (Cons v vs)
  show ?case
  proof (cases "bad v")
    case True
    then show ?thesis using Cons.prems(2) [of v k "ser_list vs @ rest"] Cons.prems(3) by simp
  next
    case False
    have "deserialize_items (rdr M (ser_list vs @ rest) (k + length (ser v))) e d (length vs) = Err err"
      by (rule Cons.IH) (use Cons.prems False in auto)
    then show ?thesis
      using Cons.prems(1) [of v k "ser_list vs @ rest"] Cons.prems(3) False by simp
  qed
qed simp

lemma deserialize_fields_err:
  assumes "\<And>n v. (n, v) \<in> set d \<Longrightarrow> valid_clarity_name n \<and> field_type ts n = e n \<and> e n \<noteq> None"
    and "\<And>n v k rest. \<lbrakk>(n, v) \<in> set d; \<not> bad v; k + length (ser v) \<le> unat M\<rbrakk> \<Longrightarrow>
      inner_deserialize_read (rdr M (ser v @ rest) k) (e n) dep =
        Ok (f n v, rdr M rest (k + length (ser v)))"
    and "\<And>n v k rest. \<lbrakk>(n, v) \<in> set d; bad v; k + length (ser v) \<le> unat M\<rbrakk> \<Longrightarrow>
      inner_deserialize_read (rdr M (ser v @ rest) k) (e n) dep = Err err"
    and "k + length (ser_fields d) \<le> unat M" "unat M \<le> 2 ^ 32" "\<exists>(n, v) \<in> set d. bad v"
  shows "deserialize_fields (rdr M (ser_fields d @ rest) k) (Some ts) dep (length d) = Err err"
  using assms
proof (induction d arbitrary: k)
  case (Cons x d)
  obtain n v where x: "x = (n, v)" by (cases x)
  have n: "valid_clarity_name n" using Cons.prems(1) [of n v] x by simp
  then have nm: "clarity_name_try_from n = Ok n" "length n \<le> 128"
    using valid_clarity_name_iff by (auto simp: valid_clarity_name_def)
  obtain u where u: "field_type ts n = Some u" "e n = Some u"
    using Cons.prems(1) [of n v] x by auto
  have g: "guarded_string_read clarity_name_try_from
        (rdr M (ser_name n @ ser v @ ser_fields d @ rest) k) =
      Ok (n, rdr M (ser v @ ser_fields d @ rest) (k + length (ser_name n)))"
    by (rule guarded_string_read_rdr) (use Cons.prems(4,5) x nm n valid_name_utf8 in auto)
  show ?case
  proof (cases "bad v")
    case True
    then show ?thesis
      using Cons.prems(3) [of n v "k + length (ser_name n)" "ser_fields d @ rest"] Cons.prems(4) g u
      by (simp add: x)
  next
    case False
    have "deserialize_fields (rdr M (ser_fields d @ rest) (k + length (ser_name n) + length (ser v)))
        (Some ts) dep (length d) = Err err"
      by (rule Cons.IH) (use Cons.prems False x in auto)
    then show ?thesis
      using Cons.prems(2) [of n v "k + length (ser_name n)" "ser_fields d @ rest"] Cons.prems(4) g u False
      by (simp add: x)
  qed
qed simp

lemma nesting_list_ex: "vs \<noteq> [] \<Longrightarrow> \<exists>v \<in> set vs. nesting_list vs = Suc (nesting v)"
  by (induction vs rule: list_nonempty_induct) (auto simp: max_def)

lemma nesting_fields_ex: "d \<noteq> [] \<Longrightarrow> \<exists>e \<in> set d. nesting_fields d = Suc (nesting (snd e))"
proof (induction d rule: list_nonempty_induct)
  case (cons e d)
  then show ?case by (cases e) (auto simp: max_def intro: bexI)
qed auto

lemma deserialize_too_deep:
  "\<lbrakk>wf_value v; fits t v; wf_type t; concrete_type t; 16 \<le> unat d + nesting v; unat d \<le> 16;
    k + length (ser v) \<le> unat M; unat M \<le> 2 ^ 32\<rbrakk> \<Longrightarrow>
    inner_deserialize_read (rdr M (ser v @ rest) k) (Some t) d = Err (BadTypeError TypeSignatureTooDeep)"
proof (induction v arbitrary: t d k rest rule: value_induct)
  case (Some v)
  show ?case
  proof (cases "unat d = 16")
    case True
    then show ?thesis by (subst inner_deserialize_read.simps) (simp add: word_le_nat_alt)
  next
    case False
    then have d: "unat d < 16" "unat (d + 1) = Suc (unat d)" using Some.prems(6) by (simp_all add: unat_word_ariths)
    obtain e where t: "t = OptionalType e" "fits e v"
      using Some.prems(2,3) by (cases t rule: wf_type.cases) auto
    then have "concrete_type e" using Some.prems(4) by auto
    then have "inner_deserialize_read (rdr M (ser v @ rest) (k + 1)) (Some e) (d + 1) =
        Err (BadTypeError TypeSignatureTooDeep)"
      using Some.prems t d by (intro Some.IH) auto
    then show ?thesis
      using Some.prems d by (subst inner_deserialize_read.simps) (simp add: deser_simps t(1))
  qed
next
  case (Response b v)
  show ?case
  proof (cases "unat d = 16")
    case True
    then show ?thesis by (subst inner_deserialize_read.simps) (simp add: word_le_nat_alt)
  next
    case False
    then have d: "unat d < 16" "unat (d + 1) = Suc (unat d)"
      using Response.prems(6) by (simp_all add: unat_word_ariths)
    obtain p q where t: "t = ResponseType p q" "fits (if b then p else q) v"
      using Response.prems(2,3) by (cases t rule: wf_type.cases) (auto split: if_splits)
    define e where "e = (if b then p else q)"
    have "e \<noteq> NoType" using t by (auto simp: e_def)
    then have "concrete_type e" "wf_type e" "fits e v"
      using Response.prems(3,4) t by (auto simp: e_def split: if_splits)
    then have "inner_deserialize_read (rdr M (ser v @ rest) (k + 1)) (Some e) (d + 1) =
        Err (BadTypeError TypeSignatureTooDeep)"
      using Response.prems d by (intro Response.IH) auto
    then show ?thesis
      using Response.prems d
      by (subst inner_deserialize_read.simps) (auto simp add: deser_simps t(1) e_def)
  qed
next
  case (List vs n0 e0)
  show ?case
  proof (cases "unat d = 16")
    case True
    then show ?thesis by (subst inner_deserialize_read.simps) (simp add: word_le_nat_alt)
  next
    case False
    then have d: "unat d < 16" "unat (d + 1) = Suc (unat d)"
      using List.prems(6) by (simp_all add: unat_word_ariths)
    have "vs \<noteq> []" using List.prems(5) d(1) by auto
    then obtain w where w: "w \<in> set vs" "nesting_list vs = Suc (nesting w)"
      using nesting_list_ex by blast
    obtain n e where t: "t = SequenceType (ListType (ListTypeData n e))"
        "length vs \<le> unat n" "fits_list e vs"
      using List.prems(2,3) by (cases t rule: wf_type.cases) auto
    have "n \<noteq> 0" using t(2) w(1) by auto
    then have e: "concrete_type e" "wf_type e" using List.prems(3,4) t(1) by auto
    have v: "fits e v \<and> wf_value v" if "v \<in> set vs" for v
      using t(3) that List.prems(1) by (simp add: fits_list_iff wf_items_iff)
    have "unat n \<le> tsize e * unat n" using tsize_pos [OF e(2)] by simp
    also have "\<dots> \<le> 1048571" using List.prems(3) t(1) by simp
    finally have len: "length vs \<le> 1048576" using t(2) by simp
    have "deserialize_items (rdr M (ser_list vs @ rest) (5 + k)) (Some e) (d + 1) (length vs) =
        Err (BadTypeError TypeSignatureTooDeep)"
    proof (rule deserialize_items_err [where bad = "\<lambda>v. 16 \<le> unat (d + 1) + nesting v"
          and f = "retype e"])
      fix v j rest assume a: "v \<in> set vs" "j + length (ser v) \<le> unat M"
      show "inner_deserialize_read (rdr M (ser v @ rest) j) (Some e) (d + 1) =
          Ok (retype e v, rdr M rest (j + length (ser v)))"
        if "\<not> 16 \<le> unat (d + 1) + nesting v"
        using deserialize_typed [of v e "d + 1" j M rest] a v e that List.prems(8) by simp
      show "inner_deserialize_read (rdr M (ser v @ rest) j) (Some e) (d + 1) =
          Err (BadTypeError TypeSignatureTooDeep)" if "16 \<le> unat (d + 1) + nesting v"
        using a v e that List.prems(8) d by (intro List.IH) auto
    next
      show "\<exists>v \<in> set vs. 16 \<le> unat (d + 1) + nesting v" using w List.prems(5) d(2) by auto
    qed (use List.prems(7) in simp)
    moreover have "\<not> n < of_nat (length vs)"
      using t(2) len by (simp add: word_less_nat_alt unat_of_nat_lt)
    ultimately show ?thesis
      using List.prems(7,8) d(1) not_max_less [OF len] len
      by (subst inner_deserialize_read.simps) (simp add: deser_simps t(1) unat_of_nat_lt)
  qed
next
  case (Tuple m0 dm)
  show ?case
  proof (cases "unat d = 16")
    case True
    then show ?thesis by (subst inner_deserialize_read.simps) (simp add: word_le_nat_alt)
  next
    case False
    then have d: "unat d < 16" "unat (d + 1) = Suc (unat d)"
      using Tuple.prems(6) by (simp_all add: unat_word_ariths)
    have "dm \<noteq> []" using Tuple.prems(5) d(1) by auto
    then obtain w where w: "w \<in> set dm" "nesting_fields dm = Suc (nesting (snd w))"
      using nesting_fields_ex [of dm] by blast
    obtain m where t: "t = TupleType (TupleTypeSignature m)" "fits_fields m dm" "length m = length dm"
      using Tuple.prems(2,3) by (cases t rule: wf_type.cases) auto
    note v = wf_tuple_value [OF Tuple.prems(1)]
    have field: "\<exists>u. map_of m n = Some u \<and> fits u x \<and> wf_type u \<and> concrete_type u"
      if "(n, x) \<in> set dm" for n x
      using t(2) that Tuple.prems(3,4) t(1)
      by (fastforce simp: fits_fields_iff concrete_fields_iff dest: map_of_SomeD wf_fieldsD)
    have "deserialize_fields (rdr M (ser_fields dm @ rest) (5 + k)) (Some (TupleTypeSignature m))
        (d + 1) (length dm) = Err (BadTypeError TypeSignatureTooDeep)"
    proof (rule deserialize_fields_err [where bad = "\<lambda>v. 16 \<le> unat (d + 1) + nesting v"
          and e = "map_of m" and f = "\<lambda>n. retype (the (map_of m n))"])
      fix n x assume "(n, x) \<in> set dm"
      then show "valid_clarity_name n \<and> field_type (TupleTypeSignature m) n = map_of m n \<and> map_of m n \<noteq> None"
        using v(2) field by fastforce
    next
      fix n x j rest assume a: "(n, x) \<in> set dm" "j + length (ser x) \<le> unat M"
      from field [OF a(1)] obtain u where u: "map_of m n = Some u" "fits u x" "wf_type u"
        "concrete_type u" by blast
      show "inner_deserialize_read (rdr M (ser x @ rest) j) (map_of m n) (d + 1) =
          Ok (retype (the (map_of m n)) x, rdr M rest (j + length (ser x)))"
        if "\<not> 16 \<le> unat (d + 1) + nesting x"
        using deserialize_typed [of x u "d + 1" j M rest] a v(2) [OF a(1)] u that Tuple.prems(8) by simp
      show "inner_deserialize_read (rdr M (ser x @ rest) j) (map_of m n) (d + 1) =
          Err (BadTypeError TypeSignatureTooDeep)" if "16 \<le> unat (d + 1) + nesting x"
        unfolding u(1) by (rule Tuple.IH [OF a(1)]) (use a(2) v(2) [OF a(1)] u that Tuple.prems(8) d in auto)
    next
      show "\<exists>(n, x) \<in> set dm. 16 \<le> unat (d + 1) + nesting x" using w(2) Tuple.prems(5) d(2)
        by (intro bexI [OF _ w(1)]) (auto split: prod.splits)
    qed (use Tuple.prems(7,8) in simp_all)
    moreover have "ucast (of_nat (length dm) :: u32) = (of_nat (length dm) :: u64)"
      using v(4) by (simp add: word_unat_eq_iff unat_of_nat_lt unsigned_ucast_eq take_bit_nat_eq_self)
    ultimately show ?thesis
      using Tuple.prems(7,8) d(1) not_max_less [OF v(4)] v(4) t(3)
      by (subst inner_deserialize_read.simps) (simp add: deser_simps t(1) unat_of_nat_lt)
  qed
qed (subst inner_deserialize_read.simps, simp add: word_le_nat_alt)+





lemma read_bytes_eval:
  "\<lbrakk>k \<le> 2097152; n \<le> 2097152\<rbrakk> \<Longrightarrow> read_bytes (rdr 2097152 bs k) n =
    (if k + n \<le> 2097152 \<and> n \<le> length bs then Ok (take n bs, rdr 2097152 (drop n bs) (k + n))
     else Err (SE_IOError UnexpectedEof))"
  by (simp add: read_bytes_def read_exact_rdr)

lemma and_then_weak_cong: "r = r' \<Longrightarrow> and_then r f = and_then r' f"
  by simp

lemma nested_some:
  "n \<le> 31 \<Longrightarrow> wf_value (((\<lambda>v. VOptional (Some v)) ^^ n) (VBool b))
    \<and> vtype (((\<lambda>v. VOptional (Some v)) ^^ n) (VBool b)) = (OptionalType ^^ n) BoolType
    \<and> tsize ((OptionalType ^^ n) BoolType) = Suc n \<and> tdepth ((OptionalType ^^ n) BoolType) = Suc n
    \<and> nesting (((\<lambda>v. VOptional (Some v)) ^^ n) (VBool b)) = n"
  by (induction n) auto

text \<open>C33: The reader accepts fewer nesting levels than the types allow: a well-formed value that
  nests 16 levels or more (types may be 32 deep) serializes, but reading its bytes back at its own
  type is an error.\<close>

theorem deep_values_unreadable:
  assumes "wf_value v" "fits t v" "wf_type t" "concrete_type t" "16 \<le> nesting v"
  shows "\<exists>bytes. serialize_to_vec v = Ok bytes
    \<and> try_deserialize_bytes bytes t = Err (BadTypeError TypeSignatureTooDeep)"
proof -
  have "from_reader bs M = rdr M bs 0" for bs M by (simp add: from_reader_def rdr_def)
  then have "try_deserialize_bytes (ser v) t = Err (BadTypeError TypeSignatureTooDeep)"
    using deserialize_too_deep [OF assms(1-4), of 0 0 "ucast BOUND_VALUE_SERIALIZATION_BYTES" "[]"]
      assms(5) length_ser [OF assms(1)] unat_BOUND
    by (simp add: try_deserialize_bytes_def deserialize_read_def)
  then show ?thesis using serialize_to_vec_ser [OF assms(1)] by blast
qed

theorem deep_values_unreadable_witness:
  "\<exists>bytes. serialize_to_vec (((\<lambda>v. VOptional (Some v)) ^^ 16) (VBool True)) = Ok bytes
    \<and> try_deserialize_bytes bytes ((OptionalType ^^ 16) BoolType) =
        Err (BadTypeError TypeSignatureTooDeep)"
proof -
  let ?v = "((\<lambda>v. VOptional (Some v)) ^^ 16) (VBool True)"
  have "wf_value ?v" "vtype ?v = (OptionalType ^^ 16) BoolType" "nesting ?v = 16"
    using nested_some [of 16] by simp_all
  with wf_value_type [of ?v] wf_value_fits [of ?v] show ?thesis
    by (intro deep_values_unreadable) simp_all
qed

text \<open>A typed read of a tuple whose second key repeats the first succeeds and returns a tuple
  with a field missing, which is not a member of the expected type; reading the missing field of
  the result is an error.\<close>

lemma duplicate_key_accepted:
  "let t = TupleTypeSignature [(''a'', BoolType), (''b'', BoolType)];
       td = TupleData t [(''a'', VBool False)]
   in wf_type (TupleType t)
    \<and> try_deserialize_bytes [12, 0, 0, 0, 2, 1, 0x61, 3, 1, 0x61, 4] (TupleType t) = Ok (VTuple td)
    \<and> \<not> fits (TupleType t) (VTuple td) \<and> \<not> wf_value (VTuple td)
    \<and> tuple_get td ''b'' = Err (Unchecked (NoSuchTupleField ''b'' t))"
proof -
  have nm: "valid_clarity_name ''a''"
    by (simp add: valid_clarity_name_iff CLARITY_NAME_REGEX_def is_alpha_def char_code_def)
  then have a: "clarity_name_try_from ''a'' = Ok ''a''" by (simp add: valid_clarity_name_def)
  have name: "guarded_string_read clarity_name_try_from (rdr 2097152 (1 # 0x61 # rest) k) =
      Ok (''a'', rdr 2097152 rest (k + 2))" if "k \<le> 1000" for k rest
  proof -
    have b: "string_to_bytes ''a'' = [0x61]" by (simp add: string_to_bytes_def)
    then have "ser_name ''a'' @ rest = 1 # 0x61 # rest" by (simp add: ser_name_def)
    moreover have "utf8_split (string_to_bytes ''a'') \<noteq> None" by (rule valid_name_utf8) (use nm in simp)
    ultimately show ?thesis
      using guarded_string_read_rdr [of clarity_name_try_from "''a''" k 2097152 rest] that a
      by (simp add: ser_name_def)
  qed
  have "inner_deserialize_read (rdr 2097152 [12, 0, 0, 0, 2, 1, 0x61, 3, 1, 0x61, 4] 0)
      (Some (TupleType (TupleTypeSignature [(''a'', BoolType), (''b'', BoolType)]))) 0 =
    Ok (VTuple (TupleData (TupleTypeSignature [(''a'', BoolType), (''b'', BoolType)])
      [(''a'', VBool False)]), rdr 2097152 [] 11)"
    by (simp add: read_bytes_eval inner_deserialize_read.simps check_match_def name
        from_be_bytes_def be_value_def MAX_VALUE_SIZE_def from_data_typed_def
        deserialize_fields.simps(2) [of _ _ _ "Suc 0", folded numeral_2_eq_2]
        admits_eq admits_iffs depth_lt
      cong: and_then_weak_cong)
  then show ?thesis
    by (simp add: try_deserialize_bytes_def deserialize_read_def from_reader_def rdr_def
       BOUND_VALUE_SERIALIZATION_BYTES_def MAX_VALUE_SIZE_def)
qed


section \<open>Untyped reads\<close>

text \<open>Reading a list without an expected type, when its elements read back as they are.\<close>

lemma deserialize_untyped_list:
  assumes "\<And>v k rest. v \<in> set vs \<Longrightarrow> k + length (ser v) \<le> unat M \<Longrightarrow>
      inner_deserialize_read (rdr M (ser v @ rest) k) None (d + 1) = Ok (v, rdr M rest (k + length (ser v)))"
    and "length vs \<le> 1048576" "unat d < 16" "unat M \<le> 2 ^ 32"
    and "k + length (ser (VSequence (ListSeq (ListData vs lt)))) \<le> unat M"
  shows "inner_deserialize_read (rdr M (ser (VSequence (ListSeq (ListData vs lt))) @ rest) k) None d =
    and_then (map_err (\<lambda>_. DeserializationError ''Illegal list type'') (list_from vs))
      (\<lambda>v. Ok (v, rdr M rest (k + length (ser (VSequence (ListSeq (ListData vs lt)))))))"
proof -
  have "deserialize_items (rdr M (ser_list vs @ rest) (5 + k)) None (d + 1) (length vs) =
      Ok (map id vs, rdr M rest (5 + k + length (ser_list vs)))"
    by (rule deserialize_items_rdr) (use assms in \<open>simp_all add: add.assoc\<close>)
  then show ?thesis
    using assms(2-5) not_max_less [OF assms(2)]
    by (subst inner_deserialize_read.simps) (simp add: deser_simps unat_of_nat_lt add.assoc add.left_commute)
qed

lemma deserialize_untyped_int:
  "\<lbrakk>k + length (ser (VInt i)) \<le> unat M; unat M \<le> 2 ^ 32; unat d < 16\<rbrakk> \<Longrightarrow>
    inner_deserialize_read (rdr M (ser (VInt i) @ rest) k) None d =
      Ok (VInt i, rdr M rest (k + length (ser (VInt i))))"
  by (subst inner_deserialize_read.simps) (simp add: deser_simps ac_simps)

lemma parent_fold_replicate: "least_supertype t t = Ok t \<Longrightarrow> parent_fold t (replicate n t) = Ok t"
  by (induction n) auto

lemma list_from_replicate:
  assumes "wf_value v" "least_supertype (vtype v) (vtype v) = Ok (vtype v)" "0 < n" "n < 2 ^ 32"
    and "wf_type (SequenceType (ListType (ListTypeData (of_nat n) (vtype v))))"
  shows "list_from (replicate n v) =
    Ok (VSequence (ListSeq (ListData (replicate n v) (ListTypeData (of_nat n) (vtype v)))))"
proof -
  obtain k where n: "n = Suc k" using assms(3) by (cases n) auto
  have "types_of (replicate n v) = Ok (map vtype (replicate n v))"
    by (rule types_of_Ok) (use assms(1) in \<open>simp add: list_all_iff\<close>)
  then show ?thesis
    using assms parent_fold_replicate [OF assms(2), of k]
    by (simp add: n list_from_def construct_parent_list_type_def try_from_nat_def new_list_eq
        del: types_of.simps of_nat_Suc)
qed

text \<open>Reading without an expected type can panic: there is an input of less than six kilobytes,
  two nested lists whose common entry type exceeds \<open>MAX_VALUE_SIZE\<close>, on which
  \<open>try_deserialize_bytes_untyped\<close> panics instead of returning an error.\<close>

lemma untyped_read_panics:
  "\<exists>bytes. length bytes < 6000 \<and> try_deserialize_bytes_untyped bytes = Panic"
proof -
  obtain N :: nat where N: "N = 256" by blast
  then have wN: "(of_nat N :: u32) = 256" "unat (256 :: u32) = N" by simp_all
  let ?list = "\<lambda>vs n e. VSequence (ListSeq (ListData vs (ListTypeData n e)))"
  let ?lt = "\<lambda>n e. SequenceType (ListType (ListTypeData n e))"
  define a where "a = ?list (replicate N (VInt 0)) 256 IntType"
  define b where "b = ?list [a] 1 (?lt 256 IntType)"
  define z where "z = ?list [] 0 NoType"
  define c where "c = ?list (replicate N z) 256 (?lt 0 NoType)"
  let ?M = "2097152 :: u64"
  have ser_replicate: "length (ser_list (replicate n v)) = n * length (ser v)" for n v
    by (induction n) auto
  have len: "length (ser a) = 4357" "length (ser b) = 4362" "length (ser z) = 5" "length (ser c) = 1285"
    using N by (simp_all add: a_def b_def c_def z_def ser_replicate)
  have wf: "wf_value a" "wf_value b" "wf_value z" "wf_value c"
    using N by (simp_all add: a_def b_def c_def z_def wf_items_iff admits_iffs)
  have sup: "least_supertype IntType IntType = Ok IntType"
    "least_supertype (?lt 0 NoType) (?lt 0 NoType) = Ok (?lt 0 NoType)"
    by (simp_all add: least_supertype.simps(2) supertype_atom_def list_of_def new_list_eq)
  have int: "inner_deserialize_read (rdr ?M (ser v @ rest) k) None (0 + 1 + 1 + 1) = Ok (v, rdr ?M rest (k + length (ser v)))"
    if "v \<in> set (replicate N (VInt 0))" "k + length (ser v) \<le> unat ?M" for v rest k
    using deserialize_untyped_int [of k 0 ?M "0 + 1 + 1 + 1" rest] that by simp
  have ra: "inner_deserialize_read (rdr ?M (ser v @ rest) k) None (0 + 1 + 1) = Ok (v, rdr ?M rest (k + length (ser v)))"
    if "v \<in> set [a]" "k + length (ser v) \<le> unat ?M" for v rest k
  proof -
    have "list_from (replicate N (VInt 0)) = Ok a"
      using list_from_replicate [of "VInt 0" N] sup wN N by (simp add: a_def)
    then show ?thesis
      using that deserialize_untyped_list [where vs = "replicate N (VInt 0)" and M = ?M and rest = rest
          and k = k and d = "0 + 1 + 1" and lt = "ListTypeData 256 IntType", OF int] len N
      by (simp add: a_def)
  qed
  have rz: "inner_deserialize_read (rdr ?M (ser v @ rest) k) None (0 + 1 + 1) = Ok (v, rdr ?M rest (k + length (ser v)))"
    if "v \<in> set (replicate N z)" "k + length (ser v) \<le> unat ?M" for v rest k
    using that deserialize_untyped_list [where vs = "[]" and M = ?M and rest = rest
        and k = k and d = "0 + 1 + 1" and lt = "ListTypeData 0 NoType"]
    by (simp add: z_def list_from_def construct_parent_list_type_def empty_list_def)
  have rbc: "inner_deserialize_read (rdr ?M (ser v @ rest) k) None (0 + 1) = Ok (v, rdr ?M rest (k + length (ser v)))"
    if "v \<in> set [b, c]" "k + length (ser v) \<le> unat ?M" for v rest k
  proof -
    have b: "list_from [a] = Ok b"
      using wf(1) wf_value_type [OF wf(1)] by (simp add: list_from_def construct_parent_list_type_def try_from_nat_def new_list_eq b_def a_def)
    have c: "list_from (replicate N z) = Ok c"
      using list_from_replicate [OF wf(3), of N] sup wN N by (simp add: c_def z_def)
    show ?thesis
      using that b c len deserialize_untyped_list [where vs = "[a]" and M = ?M and rest = rest
          and k = k and d = "0 + 1" and lt = "ListTypeData 1 (?lt 256 IntType)", OF ra]
        deserialize_untyped_list [where vs = "replicate N z" and M = ?M and rest = rest
          and k = k and d = "0 + 1" and lt = "ListTypeData 256 (?lt 0 NoType)", OF rz] N
      by (auto simp: b_def c_def)
  qed
  have "least_supertype (vtype b) (vtype c) = Panic"
    using new_list_eq [of "?lt 256 IntType" 256]
    by (simp add: b_def c_def least_supertype.simps(2) list_of_def new_list_eq max_def)
  then have "list_from [b, c] = Panic"
    using wf_value_type [OF wf(2)] wf_value_type [OF wf(4)]
    by (simp add: list_from_def construct_parent_list_type_def)
  then have "inner_deserialize_read (rdr ?M (ser (?list [b, c] 2 NoType) @ []) 0) None 0 = Panic"
    using deserialize_untyped_list [where vs = "[b, c]" and M = ?M and rest = "[]"
          and k = 0 and d = 0 and lt = "ListTypeData 2 NoType", OF rbc] len by simp
  then have "try_deserialize_bytes_untyped (ser (?list [b, c] 2 NoType)) = Panic"
    by (simp add: try_deserialize_bytes_untyped_def deserialize_read_def from_reader_def rdr_def
       BOUND_VALUE_SERIALIZATION_BYTES_def MAX_VALUE_SIZE_def)
  moreover have "length (ser (?list [b, c] 2 NoType)) < 6000" using len by simp
  ultimately show ?thesis by blast
qed

end
