(* ===== verification/Store.thy ===== *)
theory Store
  imports Clarity_Data Hex
begin

text \<open>
  The storage below the Clarity database: the SQLite side store
  (\<open>clarity/src/vm/database/sqlite.rs\<close>) and the trait \<open>ClarityBackingStore\<close> with its provided
  methods and its implementations \<open>NullBackingStore\<close> and \<open>MemoryBackingStore\<close>
  (\<open>clarity/src/vm/database/clarity_store.rs\<close>). A database connection is the contents of its two
  tables; \<open>REPLACE INTO\<close>, \<open>INSERT INTO\<close>, \<open>UPDATE\<close> and \<open>DELETE\<close> act on them, and the uniqueness
  constraint of \<open>metadata_table\<close> is the failure of an insertion. A trait object is a record of its
  required methods. The text of a contract identifier is a parameter of the functions that use it.
\<close>

section \<open>The side store\<close>

type_synonym block_id = "u8 list"

record sqlite_conn =
  data_table :: "(string \<times> string) list"
  metadata_table :: "((block_id \<times> string) \<times> string) list"

definition sqlite_memory :: sqlite_conn where
  "sqlite_memory = \<lparr>data_table = [], metadata_table = []\<rparr>"

definition sqlite_put :: "sqlite_conn \<Rightarrow> string \<Rightarrow> string \<Rightarrow> sqlite_conn" where
  "sqlite_put conn key value = conn\<lparr>data_table := AList.update key value (data_table conn)\<rparr>"

definition sqlite_get :: "sqlite_conn \<Rightarrow> string \<Rightarrow> string option" where
  "sqlite_get conn key = map_of (data_table conn) key"

definition sqlite_has_entry :: "sqlite_conn \<Rightarrow> string \<Rightarrow> bool" where
  "sqlite_has_entry conn key \<longleftrightarrow> sqlite_get conn key \<noteq> None"

definition metadata_row_key :: "string \<Rightarrow> string \<Rightarrow> string" where
  "metadata_row_key contract_hash key = ''clr-meta::'' @ contract_hash @ ''::'' @ key"

definition sqlite_insert_metadata ::
    "sqlite_conn \<Rightarrow> block_id \<Rightarrow> string \<Rightarrow> string \<Rightarrow> string \<Rightarrow> (unit, sqlite_conn) result" where
  "sqlite_insert_metadata conn bhh contract_hash key value =
     (let row = (bhh, metadata_row_key contract_hash key) in
      if map_of (metadata_table conn) row \<noteq> None then Panic
      else Ok (conn\<lparr>metadata_table := (row, value) # metadata_table conn\<rparr>))"

definition sqlite_get_metadata ::
    "sqlite_conn \<Rightarrow> block_id \<Rightarrow> string \<Rightarrow> string \<Rightarrow> string option" where
  "sqlite_get_metadata conn bhh contract_hash key =
     map_of (metadata_table conn) (bhh, metadata_row_key contract_hash key)"

text \<open>The \<open>UPDATE\<close> fails when a moved row meets an existing one.\<close>

definition sqlite_commit_metadata_to ::
    "sqlite_conn \<Rightarrow> block_id \<Rightarrow> block_id \<Rightarrow> (unit, sqlite_conn) result" where
  "sqlite_commit_metadata_to conn from to =
     (if from \<noteq> to \<and> list_ex (\<lambda>((b, k), _). b = from \<and> map_of (metadata_table conn) (to, k) \<noteq> None)
           (metadata_table conn)
      then Panic
      else Ok (conn\<lparr>metadata_table :=
        map (\<lambda>((b, k), v). ((if b = from then to else b, k), v)) (metadata_table conn)\<rparr>))"

definition sqlite_drop_metadata :: "sqlite_conn \<Rightarrow> block_id \<Rightarrow> sqlite_conn" where
  "sqlite_drop_metadata conn from =
     conn\<lparr>metadata_table := filter (\<lambda>((b, _), _). b \<noteq> from) (metadata_table conn)\<rparr>"

section \<open>Backing stores\<close>

record 's backing_store =
  bs_put_all :: "'s \<Rightarrow> (string \<times> string) list \<Rightarrow> (unit, 's) result"
  bs_get :: "'s \<Rightarrow> string \<Rightarrow> (unit, string option) result"
  bs_get_with_proof :: "'s \<Rightarrow> string \<Rightarrow> (unit, (string \<times> u8 list) option) result"
  bs_set_block_hash :: "'s \<Rightarrow> block_id \<Rightarrow> (block_id \<times> 's) interpreter_result"
  bs_get_block_at_height :: "'s \<Rightarrow> u32 \<Rightarrow> (unit, block_id option) result"
  bs_get_current_block_height :: "'s \<Rightarrow> (unit, u32) result"
  bs_get_open_chain_tip_height :: "'s \<Rightarrow> (unit, u32) result"
  bs_get_open_chain_tip :: "'s \<Rightarrow> (unit, block_id) result"
  bs_get_side_store :: "'s \<Rightarrow> (unit, sqlite_conn) result"
  bs_set_side_store :: "sqlite_conn \<Rightarrow> 's \<Rightarrow> 's"

definition store_has_entry :: "'s backing_store \<Rightarrow> 's \<Rightarrow> string \<Rightarrow> (unit, bool) result" where
  "store_has_entry B s key = map_ok (\<lambda>v. v \<noteq> None) (bs_get B s key)"

record contract_commitment =
  cc_hash :: "u8 list"
  cc_block_height :: u32

definition from_hex :: "nat \<Rightarrow> string \<Rightarrow> (hex_error, u8 list) result" where
  "from_hex len hex_str =
     and_then (hex_bytes hex_str) (\<lambda>bytes.
     if length bytes \<noteq> len then Err (BadLength (length hex_str)) else Ok bytes)"

definition contract_commitment_serialize :: "contract_commitment \<Rightarrow> string" where
  "contract_commitment_serialize cc = to_hex (cc_hash cc) @ to_hex (to_be_bytes 4 (cc_block_height cc))"

definition contract_commitment_deserialize :: "string \<Rightarrow> (unit, contract_commitment) result" where
  "contract_commitment_deserialize input =
     and_then (rust_assert (length input = 72)) (\<lambda>_.
     and_then (expect (from_hex 32 (take 64 input))) (\<lambda>hash.
     and_then (expect (hex_bytes (drop 64 input))) (\<lambda>height_bytes.
     and_then (rust_assert (length height_bytes = 4)) (\<lambda>_.
     Ok \<lparr>cc_hash = hash, cc_block_height = from_be_bytes height_bytes\<rparr>))))"

definition make_contract_hash_key ::
    "(qualified_contract_identifier \<Rightarrow> string) \<Rightarrow> qualified_contract_identifier \<Rightarrow> string" where
  "make_contract_hash_key to_string contract = ''clarity-contract::'' @ to_string contract"

definition make_contract_commitment :: "'s backing_store \<Rightarrow> 's \<Rightarrow> u8 list \<Rightarrow> (unit, string) result" where
  "make_contract_commitment B s contract_hash =
     and_then (bs_get_open_chain_tip_height B s) (\<lambda>block_height.
     Ok (contract_commitment_serialize \<lparr>cc_hash = contract_hash, cc_block_height = block_height\<rparr>))"

definition get_contract_hash :: "(qualified_contract_identifier \<Rightarrow> string) \<Rightarrow> 's backing_store \<Rightarrow> 's
    \<Rightarrow> qualified_contract_identifier \<Rightarrow> (block_id \<times> u8 list) interpreter_result" where
  "get_contract_hash to_string B s contract =
     and_then (expect (bs_get B s (make_contract_hash_key to_string contract))) (\<lambda>value.
     case value of None \<Rightarrow> Err (Unchecked (NoSuchContract (to_string contract)))
     | Some x \<Rightarrow>
         and_then (expect (contract_commitment_deserialize x)) (\<lambda>cc.
         and_then (expect (bs_get_block_at_height B s (cc_block_height cc))) (\<lambda>bhh.
         and_then (expect_some bhh) (\<lambda>bhh. Ok (bhh, cc_hash cc)))))"

definition store_insert_metadata :: "(qualified_contract_identifier \<Rightarrow> string) \<Rightarrow> 's backing_store
    \<Rightarrow> 's \<Rightarrow> qualified_contract_identifier \<Rightarrow> string \<Rightarrow> string \<Rightarrow> (unit, 's) result" where
  "store_insert_metadata to_string B s contract key value =
     and_then (bs_get_open_chain_tip B s) (\<lambda>bhh.
     and_then (bs_get_side_store B s) (\<lambda>conn.
     and_then (sqlite_insert_metadata conn bhh (to_string contract) key value) (\<lambda>conn.
     Ok (bs_set_side_store B conn s))))"

definition store_get_metadata :: "(qualified_contract_identifier \<Rightarrow> string) \<Rightarrow> 's backing_store
    \<Rightarrow> 's \<Rightarrow> qualified_contract_identifier \<Rightarrow> string \<Rightarrow> string option interpreter_result" where
  "store_get_metadata to_string B s contract key =
     and_then (get_contract_hash to_string B s contract) (\<lambda>(bhh, _).
     and_then (expect (bs_get_side_store B s)) (\<lambda>conn.
     Ok (sqlite_get_metadata conn bhh (to_string contract) key)))"

text \<open>The decimal text of a block height appears only in an error message.\<close>

definition store_get_metadata_manual :: "(qualified_contract_identifier \<Rightarrow> string) \<Rightarrow> (u32 \<Rightarrow> string)
    \<Rightarrow> 's backing_store \<Rightarrow> 's \<Rightarrow> u32 \<Rightarrow> qualified_contract_identifier \<Rightarrow> string
    \<Rightarrow> string option interpreter_result" where
  "store_get_metadata_manual to_string u32_string B s at_height contract key =
     and_then (expect (bs_get_block_at_height B s at_height)) (\<lambda>bhh.
     and_then (ok_or bhh (Runtime (RT_BadBlockHeight (u32_string at_height)) None)) (\<lambda>bhh.
     and_then (expect (bs_get_side_store B s)) (\<lambda>conn.
     Ok (sqlite_get_metadata conn bhh (to_string contract) key))))"

fun store_put_all_metadata :: "(qualified_contract_identifier \<Rightarrow> string) \<Rightarrow> 's backing_store
    \<Rightarrow> 's \<Rightarrow> ((qualified_contract_identifier \<times> string) \<times> string) list \<Rightarrow> (unit, 's) result" where
  "store_put_all_metadata to_string B s [] = Ok s"
| "store_put_all_metadata to_string B s (((contract, key), value) # items) =
     and_then (store_insert_metadata to_string B s contract key value) (\<lambda>s.
     store_put_all_metadata to_string B s items)"

definition null_backing_store :: "unit backing_store" where
  "null_backing_store = \<lparr>
     bs_put_all = \<lambda>_ _. Panic,
     bs_get = \<lambda>_ _. Panic,
     bs_get_with_proof = \<lambda>_ _. Panic,
     bs_set_block_hash = \<lambda>_ _. Panic,
     bs_get_block_at_height = \<lambda>_ _. Panic,
     bs_get_current_block_height = \<lambda>_. Panic,
     bs_get_open_chain_tip_height = \<lambda>_. Panic,
     bs_get_open_chain_tip = \<lambda>_. Panic,
     bs_get_side_store = \<lambda>_. Panic,
     bs_set_side_store = \<lambda>_ s. s\<rparr>"

definition sentinel_block :: block_id where
  "sentinel_block = replicate 32 255"

definition memory_backing_store :: "sqlite_conn backing_store" where
  "memory_backing_store = \<lparr>
     bs_put_all = \<lambda>conn items. Ok (fold (\<lambda>(key, value) conn. sqlite_put conn key value) items conn),
     bs_get = \<lambda>conn key. Ok (sqlite_get conn key),
     bs_get_with_proof = \<lambda>conn key. Ok (map_option (\<lambda>x. (x, [])) (sqlite_get conn key)),
     bs_set_block_hash = \<lambda>_ bhh. Err (Runtime (RT_UnknownBlockHeaderHash bhh) None),
     bs_get_block_at_height = \<lambda>_ height. Ok (if height = 0 then Some sentinel_block else None),
     bs_get_current_block_height = \<lambda>_. Ok 0,
     bs_get_open_chain_tip_height = \<lambda>_. Ok 0,
     bs_get_open_chain_tip = \<lambda>_. Ok sentinel_block,
     bs_get_side_store = \<lambda>conn. Ok conn,
     bs_set_side_store = \<lambda>conn _. conn\<rparr>"

section \<open>The contract of a backing store\<close>

text \<open>
  What the rollback wrapper relies on: a store answers reads, a batch of writes is visible
  afterwards with later entries winning and leaves the metadata alone, and a change of the metadata
  table leaves the data alone.
\<close>

definition metadata_row :: "(qualified_contract_identifier \<Rightarrow> string)
    \<Rightarrow> block_id \<Rightarrow> qualified_contract_identifier \<times> string \<Rightarrow> block_id \<times> string" where
  "metadata_row ts t ck = (t, metadata_row_key (ts (fst ck)) (snd ck))"

locale clarity_store =
  fixes B :: "'s backing_store" and reads :: "'s \<Rightarrow> string \<rightharpoonup> string"
    and rows :: "'s \<Rightarrow> (block_id \<times> string) \<rightharpoonup> string" and tip :: "'s \<Rightarrow> block_id"
  assumes get_reads: "bs_get B s key = Ok (reads s key)"
    and put_all: "\<exists>s'. bs_put_all B s items = Ok s' \<and> reads s' = reads s ++ map_of (rev items)
      \<and> rows s' = rows s \<and> tip s' = tip s"
    and insert_row: "\<exists>conn. bs_get_open_chain_tip B s = Ok (tip s) \<and> bs_get_side_store B s = Ok conn
      \<and> map_of (metadata_table conn) = rows s
      \<and> (let s' = bs_set_side_store B (conn\<lparr>metadata_table := (row, value) # metadata_table conn\<rparr>) s
         in reads s' = reads s \<and> rows s' = (rows s)(row \<mapsto> value) \<and> tip s' = tip s)"
begin

lemma insert_metadata_fresh:
  assumes "rows s (metadata_row ts (tip s) (c, k)) = None"
  shows "\<exists>s'. store_insert_metadata ts B s c k v = Ok s' \<and> reads s' = reads s
    \<and> rows s' = (rows s)(metadata_row ts (tip s) (c, k) \<mapsto> v) \<and> tip s' = tip s"
proof -
  obtain conn where conn: "bs_get_open_chain_tip B s = Ok (tip s)" "bs_get_side_store B s = Ok conn"
    "map_of (metadata_table conn) = rows s" and
    s': "let s' = bs_set_side_store B
        (conn\<lparr>metadata_table := (metadata_row ts (tip s) (c, k), v) # metadata_table conn\<rparr>) s
      in reads s' = reads s \<and> rows s' = (rows s)(metadata_row ts (tip s) (c, k) \<mapsto> v) \<and> tip s' = tip s"
    using insert_row by blast
  from conn assms have "store_insert_metadata ts B s c k v = Ok (bs_set_side_store B
      (conn\<lparr>metadata_table := (metadata_row ts (tip s) (c, k), v) # metadata_table conn\<rparr>) s)"
    by (simp add: store_insert_metadata_def sqlite_insert_metadata_def metadata_row_def Let_def)
  with s' show ?thesis by (simp add: Let_def)
qed

lemma insert_metadata_dup:
  assumes "rows s (metadata_row ts (tip s) (c, k)) \<noteq> None"
  shows "store_insert_metadata ts B s c k v = Panic"
  using insert_row [of s "metadata_row ts (tip s) (c, k)" v] assms
  by (auto simp: store_insert_metadata_def sqlite_insert_metadata_def Let_def metadata_row_def)

lemma put_all_metadata_fresh:
  assumes "distinct (map (metadata_row ts (tip s) \<circ> fst) items)"
    "\<forall>ck \<in> fst ` set items. rows s (metadata_row ts (tip s) ck) = None"
  shows "\<exists>s'. store_put_all_metadata ts B s items = Ok s' \<and> reads s' = reads s \<and> tip s' = tip s
    \<and> rows s' = rows s ++ map_of (map (\<lambda>(ck, v). (metadata_row ts (tip s) ck, v)) items)"
  using assms
proof (induction items arbitrary: s)
  case (Cons item items)
  obtain c k v where item: "item = ((c, k), v)" by (metis prod.exhaust)
  let ?row = "metadata_row ts (tip s)"
  have "rows s (?row (c, k)) = None" using Cons.prems(2) item by simp
  from insert_metadata_fresh [OF this] obtain s1 where s1: "store_insert_metadata ts B s c k v = Ok s1"
    "reads s1 = reads s" "rows s1 = (rows s)(?row (c, k) \<mapsto> v)" "tip s1 = tip s" by blast
  have new: "?row (c, k) \<notin> ?row ` fst ` set items"
    using Cons.prems(1) by (simp add: item image_image comp_def)
  have "\<exists>s'. store_put_all_metadata ts B s1 items = Ok s' \<and> reads s' = reads s1 \<and> tip s' = tip s1
    \<and> rows s' = rows s1 ++ map_of (map (\<lambda>(ck, v). (metadata_row ts (tip s1) ck, v)) items)"
  proof (rule Cons.IH)
    show "distinct (map (metadata_row ts (tip s1) \<circ> fst) items)"
      using Cons.prems(1) by (simp add: s1(4) comp_def)
    show "\<forall>ck \<in> fst ` set items. rows s1 (metadata_row ts (tip s1) ck) = None"
    proof
      fix ck assume ck: "ck \<in> fst ` set items"
      then have "?row ck \<noteq> ?row (c, k)" using new by (metis imageI)
      then show "rows s1 (metadata_row ts (tip s1) ck) = None"
        using Cons.prems(2) ck by (auto simp: s1(3,4))
    qed
  qed
  then obtain s2 where s2: "store_put_all_metadata ts B s1 items = Ok s2" "reads s2 = reads s1"
    "tip s2 = tip s1" "rows s2 = rows s1 ++ map_of (map (\<lambda>(ck, v). (?row ck, v)) items)"
    unfolding s1(4) by blast
  have "map_of (map (\<lambda>(ck, v). (?row ck, v)) items) (?row (c, k)) = None"
    using new by (simp add: map_of_eq_None_iff image_image case_prod_beta)
  then have rows: "rows s2 = rows s ++ map_of (map (\<lambda>(ck, v). (?row ck, v)) (item # items))"
    by (auto simp: s2(4) s1(3) item map_add_def fun_eq_iff split: option.splits)
  have "store_put_all_metadata ts B s (item # items) = Ok s2" using s1(1) s2(1) by (simp add: item)
  with rows s1(2,4) s2(2,3) show ?case by metis
qed simp

end

lemma fold_sqlite_put:
  "sqlite_get (fold (\<lambda>(k, v) c. sqlite_put c k v) items conn) = sqlite_get conn ++ map_of (rev items)
    \<and> metadata_table (fold (\<lambda>(k, v) c. sqlite_put c k v) items conn) = metadata_table conn"
proof (induction items arbitrary: conn)
  case (Cons item items)
  have "sqlite_get (sqlite_put conn k v) = (sqlite_get conn)(k \<mapsto> v)" for k v
    by (auto simp: sqlite_get_def sqlite_put_def update_conv')
  with Cons show ?case
    by (cases item) (simp add: sqlite_put_def map_add_assoc [symmetric] fun_eq_iff map_add_def
        split: option.splits)
qed (simp add: fun_eq_iff)

interpretation memory_store: clarity_store memory_backing_store sqlite_get
  "\<lambda>conn. map_of (metadata_table conn)" "\<lambda>_. sentinel_block"
proof
  fix s key items row val
  show "bs_get memory_backing_store s key = Ok (sqlite_get s key)"
    by (simp add: memory_backing_store_def)
  show "\<exists>s'. bs_put_all memory_backing_store s items = Ok s'
      \<and> sqlite_get s' = sqlite_get s ++ map_of (rev items)
      \<and> map_of (metadata_table s') = map_of (metadata_table s) \<and> sentinel_block = sentinel_block"
    using fold_sqlite_put [of items s] by (simp add: memory_backing_store_def)
  show "\<exists>conn. bs_get_open_chain_tip memory_backing_store s = Ok sentinel_block
      \<and> bs_get_side_store memory_backing_store s = Ok conn
      \<and> map_of (metadata_table conn) = map_of (metadata_table s)
      \<and> (let s' = bs_set_side_store memory_backing_store
              (conn\<lparr>metadata_table := (row, val) # metadata_table conn\<rparr>) s
         in sqlite_get s' = sqlite_get s
          \<and> map_of (metadata_table s') = (map_of (metadata_table s))(row \<mapsto> val)
          \<and> sentinel_block = sentinel_block)"
    by (simp add: memory_backing_store_def sqlite_get_def fun_eq_iff)
qed

section \<open>Properties\<close>

text \<open>A contract commitment survives storage: its text is 72 characters and decodes to the same
  hash and height, and a text of any other length makes decoding panic.\<close>

lemma contract_commitment_round_trip:
  assumes "length (cc_hash cc) = 32"
  shows "length (contract_commitment_serialize cc) = 72
    \<and> contract_commitment_deserialize (contract_commitment_serialize cc) = Ok cc
    \<and> (\<forall>s. length s \<noteq> 72 \<longrightarrow> contract_commitment_deserialize s = Panic)"
  using assms
  by (simp add: contract_commitment_serialize_def contract_commitment_deserialize_def from_hex_def
      from_to_be_bytes)

end
