(* ===== verification/Rollback.thy ===== *)
theory Rollback
  imports Store Serialization
begin

text \<open>
  The rollback wrapper over a backing store
  (\<open>clarity/src/vm/database/key_value_wrapper.rs\<close>), in the build without
  \<open>rollback_value_check\<close>: an edit records only its key, and the values live in the per-key
  histories of \<open>lookup_map\<close>. The stack of contexts is a list whose head is the innermost one. The
  lemmas relate the wrapper to a stack of views of the store: nesting copies the top view, a write
  changes it, rolling back drops it and committing replaces the view below it.
\<close>

section \<open>Histories of edits\<close>

type_synonym 'k lookup_map = "('k \<times> string list) list"

text \<open>Pops the last value of the history of a key, removing empty histories.\<close>

definition rollback_lookup_map :: "'k \<Rightarrow> 'k lookup_map \<Rightarrow> (unit, string \<times> 'k lookup_map) result" where
  "rollback_lookup_map key lookup_map =
     and_then (expect_some (map_of lookup_map key)) (\<lambda>key_edit_history.
     if key_edit_history = [] then Panic
     else let rest = butlast key_edit_history in
       Ok (last key_edit_history,
         if rest = [] then AList.delete key lookup_map else AList.update key rest lookup_map))"

fun rollback_lookup_all :: "'k list \<Rightarrow> 'k lookup_map \<Rightarrow> (unit, ('k \<times> string) list \<times> 'k lookup_map) result" where
  "rollback_lookup_all [] lookup_map = Ok ([], lookup_map)"
| "rollback_lookup_all (key # edits) lookup_map =
     and_then (rollback_lookup_map key lookup_map) (\<lambda>(value, lookup_map).
     and_then (rollback_lookup_all edits lookup_map) (\<lambda>(output, lookup_map).
     Ok ((key, value) # output, lookup_map)))"

definition rollback_check_pre_bottom_commit ::
    "'k list \<Rightarrow> 'k lookup_map \<Rightarrow> (unit, ('k \<times> string) list \<times> 'k lookup_map) result" where
  "rollback_check_pre_bottom_commit edits lookup_map =
     and_then (rollback_lookup_all edits (map (apsnd rev) lookup_map)) (\<lambda>(output, lookup_map).
     and_then (rust_assert (lookup_map = [])) (\<lambda>_. Ok (output, lookup_map)))"

definition inner_put :: "'k lookup_map \<Rightarrow> 'k list \<Rightarrow> 'k \<Rightarrow> string \<Rightarrow> 'k lookup_map \<times> 'k list" where
  "inner_put lookup_map edits key value =
     (let key_edit_deque = (case map_of lookup_map key of None \<Rightarrow> [] | Some h \<Rightarrow> h)
      in (AList.update key (key_edit_deque @ [value]) lookup_map, edits @ [key]))"

section \<open>The wrapper\<close>

type_synonym metadata_key = "qualified_contract_identifier \<times> string"

record rollback_context =
  edits :: "string list"
  metadata_edits :: "metadata_key list"

record 's rollback_wrapper =
  store :: 's
  lookup_map :: "string lookup_map"
  metadata_lookup_map :: "metadata_key lookup_map"
  stack :: "rollback_context list"
  query_pending_data :: bool

record persisted_log =
  log_lookup_map :: "string lookup_map"
  log_metadata_lookup_map :: "metadata_key lookup_map"
  log_stack :: "rollback_context list"

definition empty_context :: rollback_context where
  "empty_context = \<lparr>edits = [], metadata_edits = []\<rparr>"

definition persisted_log_from :: "'s rollback_wrapper \<Rightarrow> persisted_log" where
  "persisted_log_from o1 = \<lparr>log_lookup_map = lookup_map o1,
     log_metadata_lookup_map = metadata_lookup_map o1, log_stack = stack o1\<rparr>"

definition persisted_log_new :: persisted_log where
  "persisted_log_new = \<lparr>log_lookup_map = [], log_metadata_lookup_map = [], log_stack = []\<rparr>"

definition persisted_log_nest :: "persisted_log \<Rightarrow> persisted_log" where
  "persisted_log_nest l = l\<lparr>log_stack := empty_context # log_stack l\<rparr>"

definition wrapper_new :: "'s \<Rightarrow> 's rollback_wrapper" where
  "wrapper_new s = \<lparr>store = s, lookup_map = [], metadata_lookup_map = [], stack = [],
     query_pending_data = True\<rparr>"

definition from_persisted_log :: "'s \<Rightarrow> persisted_log \<Rightarrow> 's rollback_wrapper" where
  "from_persisted_log s l = \<lparr>store = s, lookup_map = log_lookup_map l,
     metadata_lookup_map = log_metadata_lookup_map l, stack = log_stack l, query_pending_data = True\<rparr>"

definition nest :: "'s rollback_wrapper \<Rightarrow> 's rollback_wrapper" where
  "nest w = w\<lparr>stack := empty_context # stack w\<rparr>"

definition rollback_depth :: "'s rollback_wrapper \<Rightarrow> nat" where
  "rollback_depth w = length (stack w)"

definition rollback :: "'s rollback_wrapper \<Rightarrow> (unit, 's rollback_wrapper) result" where
  "rollback w =
     (case stack w of [] \<Rightarrow> Panic
      | last_item # rest \<Rightarrow>
          and_then (rollback_lookup_all (rev (edits last_item)) (lookup_map w)) (\<lambda>(_, lm).
          and_then (rollback_lookup_all (rev (metadata_edits last_item)) (metadata_lookup_map w))
            (\<lambda>(_, mlm).
          Ok (w\<lparr>lookup_map := lm, metadata_lookup_map := mlm, stack := rest\<rparr>))))"

definition commit :: "(qualified_contract_identifier \<Rightarrow> string) \<Rightarrow> 's backing_store
    \<Rightarrow> 's rollback_wrapper \<Rightarrow> (unit, 's rollback_wrapper) result" where
  "commit to_string B w =
     (case stack w of [] \<Rightarrow> Panic
      | [last_item] \<Rightarrow>
          and_then (rollback_check_pre_bottom_commit (edits last_item) (lookup_map w))
            (\<lambda>(all_edits, lm).
          and_then (if all_edits \<noteq> [] then bs_put_all B (store w) all_edits else Ok (store w)) (\<lambda>s.
          and_then (rollback_check_pre_bottom_commit (metadata_edits last_item) (metadata_lookup_map w))
            (\<lambda>(all_metadata, mlm).
          and_then (if all_metadata \<noteq> [] then store_put_all_metadata to_string B s all_metadata
              else Ok s) (\<lambda>s.
          Ok (w\<lparr>store := s, lookup_map := lm, metadata_lookup_map := mlm, stack := []\<rparr>)))))
      | last_item # next_up # rest \<Rightarrow>
          Ok (w\<lparr>stack := next_up\<lparr>edits := edits next_up @ edits last_item,
              metadata_edits := metadata_edits next_up @ metadata_edits last_item\<rparr> # rest\<rparr>))"

definition put :: "'s rollback_wrapper \<Rightarrow> string \<Rightarrow> string \<Rightarrow> (unit, 's rollback_wrapper) result" where
  "put w key value =
     (case stack w of [] \<Rightarrow> Panic
      | current # rest \<Rightarrow>
          let (lm, es) = inner_put (lookup_map w) (edits current) key value in
          Ok (w\<lparr>lookup_map := lm, stack := current\<lparr>edits := es\<rparr> # rest\<rparr>))"

definition set_block_hash :: "'s backing_store \<Rightarrow> 's rollback_wrapper \<Rightarrow> block_id \<Rightarrow> bool
    \<Rightarrow> (block_id \<times> 's rollback_wrapper) interpreter_result" where
  "set_block_hash B w bhh pending =
     and_then (bs_set_block_hash B (store w) bhh) (\<lambda>(x, s).
     Ok (x, w\<lparr>store := s, query_pending_data := pending\<rparr>))"

definition pending :: "'k \<Rightarrow> 'k lookup_map \<Rightarrow> bool \<Rightarrow> string option" where
  "pending key lm query =
     (if query then (case map_of lm key of None \<Rightarrow> None
        | Some h \<Rightarrow> if h = [] then None else Some (last h)) else None)"

definition get_with_proof :: "(string \<Rightarrow> (unit, 'a) result) \<Rightarrow> 's backing_store
    \<Rightarrow> 's rollback_wrapper \<Rightarrow> string \<Rightarrow> (unit, ('a \<times> u8 list) option) result" where
  "get_with_proof deserialize B w key =
     and_then (bs_get_with_proof B (store w) key) (\<lambda>found.
     case found of None \<Rightarrow> Ok None
     | Some (value, proof1) \<Rightarrow> map_ok (\<lambda>x. Some (x, proof1)) (deserialize value))"

definition get :: "(string \<Rightarrow> (unit, 'a) result) \<Rightarrow> 's backing_store
    \<Rightarrow> 's rollback_wrapper \<Rightarrow> string \<Rightarrow> (unit, 'a option) result" where
  "get deserialize B w key =
     and_then (rust_assert (stack w \<noteq> [])) (\<lambda>_.
     case pending key (lookup_map w) (query_pending_data w) of
       Some x \<Rightarrow> map_ok Some (deserialize x)
     | None \<Rightarrow> and_then (bs_get B (store w) key) (\<lambda>found.
         case found of None \<Rightarrow> Ok None | Some x \<Rightarrow> map_ok Some (deserialize x)))"

text \<open>A typed read returns the value with its length in bytes.\<close>

definition get_value :: "'s backing_store \<Rightarrow> 's rollback_wrapper \<Rightarrow> string \<Rightarrow> type_signature
    \<Rightarrow> (unit, (clarity_value \<times> u64) option) result" where
  "get_value B w key expected =
     get (\<lambda>x. map_ok (\<lambda>v. (v, of_nat (length x) div 2)) (value_deserialize x expected)) B w key"

definition prepare_for_contract_metadata :: "(qualified_contract_identifier \<Rightarrow> string)
    \<Rightarrow> 's backing_store \<Rightarrow> 's rollback_wrapper \<Rightarrow> qualified_contract_identifier \<Rightarrow> u8 list
    \<Rightarrow> (unit, 's rollback_wrapper) result" where
  "prepare_for_contract_metadata to_string B w contract content_hash =
     and_then (make_contract_commitment B (store w) content_hash) (\<lambda>value.
     put w (make_contract_hash_key to_string contract) value)"

definition insert_metadata :: "'s rollback_wrapper \<Rightarrow> qualified_contract_identifier \<Rightarrow> string
    \<Rightarrow> string \<Rightarrow> (unit, 's rollback_wrapper) result" where
  "insert_metadata w contract key value =
     (case stack w of [] \<Rightarrow> Panic
      | current # rest \<Rightarrow>
          let (lm, es) = inner_put (metadata_lookup_map w) (metadata_edits current) (contract, key) value in
          Ok (w\<lparr>metadata_lookup_map := lm, stack := current\<lparr>metadata_edits := es\<rparr> # rest\<rparr>))"

definition get_metadata :: "(qualified_contract_identifier \<Rightarrow> string) \<Rightarrow> 's backing_store
    \<Rightarrow> 's rollback_wrapper \<Rightarrow> qualified_contract_identifier \<Rightarrow> string \<Rightarrow> string option interpreter_result" where
  "get_metadata to_string B w contract key =
     and_then (rust_assert (stack w \<noteq> [])) (\<lambda>_.
     case pending (contract, key) (metadata_lookup_map w) (query_pending_data w) of
       Some x \<Rightarrow> Ok (Some x)
     | None \<Rightarrow> store_get_metadata to_string B (store w) contract key)"

definition get_metadata_manual :: "(qualified_contract_identifier \<Rightarrow> string) \<Rightarrow> (u32 \<Rightarrow> string)
    \<Rightarrow> 's backing_store \<Rightarrow> 's rollback_wrapper \<Rightarrow> u32 \<Rightarrow> qualified_contract_identifier \<Rightarrow> string
    \<Rightarrow> string option interpreter_result" where
  "get_metadata_manual to_string u32_string B w at_height contract key =
     and_then (rust_assert (stack w \<noteq> [])) (\<lambda>_.
     case pending (contract, key) (metadata_lookup_map w) (query_pending_data w) of
       Some x \<Rightarrow> Ok (Some x)
     | None \<Rightarrow> store_get_metadata_manual to_string u32_string B (store w) at_height contract key)"

definition has_entry :: "'s backing_store \<Rightarrow> 's rollback_wrapper \<Rightarrow> string \<Rightarrow> (unit, bool) result" where
  "has_entry B w key =
     and_then (rust_assert (stack w \<noteq> [])) (\<lambda>_.
     if query_pending_data w \<and> map_of (lookup_map w) key \<noteq> None then Ok True
     else store_has_entry B (store w) key)"

definition has_metadata_entry :: "(qualified_contract_identifier \<Rightarrow> string) \<Rightarrow> 's backing_store
    \<Rightarrow> 's rollback_wrapper \<Rightarrow> qualified_contract_identifier \<Rightarrow> string \<Rightarrow> (unit, bool) result" where
  "has_metadata_entry to_string B w contract key =
     (case get_metadata to_string B w contract key of
        Ok (Some _) \<Rightarrow> Ok True | Ok None \<Rightarrow> Ok False | Err _ \<Rightarrow> Ok False | Panic \<Rightarrow> Panic)"

section \<open>Specification: a stack of views\<close>

text \<open>The operations of a transaction on the data of the store.\<close>

datatype kv_op = KNest | KPut string string | KRollback | KCommit

fun run_op :: "(qualified_contract_identifier \<Rightarrow> string) \<Rightarrow> 's backing_store \<Rightarrow> kv_op
    \<Rightarrow> 's rollback_wrapper \<Rightarrow> (unit, 's rollback_wrapper) result" where
  "run_op to_string B KNest w = Ok (nest w)"
| "run_op to_string B (KPut k v) w = put w k v"
| "run_op to_string B KRollback w = rollback w"
| "run_op to_string B KCommit w = commit to_string B w"

fun run_with :: "('o \<Rightarrow> 'w \<Rightarrow> (unit, 'w) result) \<Rightarrow> 'o list \<Rightarrow> 'w \<Rightarrow> (unit, 'w) result" where
  "run_with run1 [] w = Ok w"
| "run_with run1 (x # xs) w = and_then (run1 x w) (run_with run1 xs)"

text \<open>The same operations on a stack of views, innermost first, the last one the store itself.\<close>

fun view_op :: "kv_op \<Rightarrow> (string \<rightharpoonup> string) list \<Rightarrow> (string \<rightharpoonup> string) list option" where
  "view_op KNest (v # vs) = Some (v # v # vs)"
| "view_op (KPut k x) (v # u # vs) = Some (v(k \<mapsto> x) # u # vs)"
| "view_op KRollback (v # u # vs) = Some (u # vs)"
| "view_op KCommit (v # u # vs) = Some (v # vs)"
| "view_op _ _ = None"

fun view_ops :: "kv_op list \<Rightarrow> (string \<rightharpoonup> string) list \<Rightarrow> (string \<rightharpoonup> string) list option" where
  "view_ops [] vs = Some vs"
| "view_ops (x # xs) vs = Option.bind (view_op x vs) (view_ops xs)"

text \<open>The views a store and the logs of the open contexts give, innermost context first.\<close>

fun layer_views :: "('k \<rightharpoonup> 'v) \<Rightarrow> ('k \<times> 'v) list list \<Rightarrow> ('k \<rightharpoonup> 'v) list" where
  "layer_views base [] = [base]"
| "layer_views base (log # logs) =
     (hd (layer_views base logs) ++ map_of (rev log)) # layer_views base logs"

text \<open>The values written for a key by a log, oldest first.\<close>

definition history :: "('k \<times> string) list \<Rightarrow> 'k \<Rightarrow> string list" where
  "history log k = map snd (filter (\<lambda>e. fst e = k) log)"

definition lookup_ok :: "'k lookup_map \<Rightarrow> ('k \<times> string) list \<Rightarrow> bool" where
  "lookup_ok lm log \<longleftrightarrow>
     distinct (map fst lm) \<and> (\<forall>k. map_of lm k = (if history log k = [] then None else Some (history log k)))"

definition context_of :: "(string \<times> string) list \<Rightarrow> (metadata_key \<times> string) list \<Rightarrow> rollback_context" where
  "context_of l m = \<lparr>edits = map fst l, metadata_edits = map fst m\<rparr>"

text \<open>
  The wrapper and its views: the contexts hold the keys of logs whose values are in the histories,
  and the pending metadata can be inserted.
\<close>

definition rb_rel :: "(qualified_contract_identifier \<Rightarrow> string) \<Rightarrow> ('s \<Rightarrow> string \<rightharpoonup> string)
    \<Rightarrow> ('s \<Rightarrow> (block_id \<times> string) \<rightharpoonup> string) \<Rightarrow> ('s \<Rightarrow> block_id) \<Rightarrow> 's rollback_wrapper
    \<Rightarrow> (string \<rightharpoonup> string) list \<Rightarrow> bool" where
  "rb_rel ts reads rows tip w vs \<longleftrightarrow> (\<exists>logs mlogs. length logs = length mlogs
     \<and> stack w = map2 context_of logs mlogs
     \<and> lookup_ok (lookup_map w) (concat (rev logs))
     \<and> lookup_ok (metadata_lookup_map w) (concat (rev mlogs))
     \<and> query_pending_data w
     \<and> distinct (map (metadata_row ts (tip (store w)) \<circ> fst) (concat (rev mlogs)))
     \<and> (\<forall>ck \<in> fst ` set (concat mlogs). rows (store w) (metadata_row ts (tip (store w)) ck) = None)
     \<and> vs = layer_views (reads (store w)) logs)"

text \<open>Sequences that close every context they open and none that they did not.\<close>

fun balanced :: "nat \<Rightarrow> kv_op list \<Rightarrow> bool" where
  "balanced n [] \<longleftrightarrow> n = 0"
| "balanced n (KNest # xs) \<longleftrightarrow> balanced (Suc n) xs"
| "balanced n (KPut _ _ # xs) \<longleftrightarrow> balanced n xs"
| "balanced 0 (_ # xs) \<longleftrightarrow> False"
| "balanced (Suc n) (_ # xs) \<longleftrightarrow> balanced n xs"

section \<open>Transactional stores\<close>

text \<open>
  The contract of a nested transactional store, as the Clarity database uses it: every operation
  acts on a stack of views or panics, and reads answer from the top view.
\<close>

locale transactional_store =
  fixes R :: "'w \<Rightarrow> (string \<rightharpoonup> string) list \<Rightarrow> bool"
    and run1 :: "kv_op \<Rightarrow> 'w \<Rightarrow> (unit, 'w) result"
    and read :: "'w \<Rightarrow> string \<Rightarrow> (unit, string option) result"
  assumes views_nonempty: "R w vs \<Longrightarrow> vs \<noteq> []"
    and step: "R w vs \<Longrightarrow> (case view_op x vs of None \<Rightarrow> run1 x w = Panic
      | Some vs' \<Rightarrow> \<exists>w'. run1 x w = Ok w' \<and> R w' vs')"
    and read_top: "R w (v # u # vs) \<Longrightarrow> read w k = Ok (v k)"
    and read_closed: "R w [v] \<Longrightarrow> read w k = Panic"
begin

lemma run_refines:
  "R w vs \<Longrightarrow> (case view_ops xs vs of None \<Rightarrow> run_with run1 xs w = Panic
    | Some vs' \<Rightarrow> \<exists>w'. run_with run1 xs w = Ok w' \<and> R w' vs')"
proof (induction xs arbitrary: w vs)
  case (Cons x xs)
  show ?case
  proof (cases "view_op x vs")
    case None
    then show ?thesis using step [OF Cons.prems, of x] by simp
  next
    case (Some vs1)
    with step [OF Cons.prems, of x] obtain w1 where w1: "run1 x w = Ok w1" "R w1 vs1" by auto
    with Cons.IH [OF w1(2)] Some show ?thesis by (simp split: option.splits)
  qed
qed simp

end

lemma balanced_view:
  "\<lbrakk>balanced n xs; length ws = Suc n\<rbrakk> \<Longrightarrow> \<exists>v'. \<forall>u vs. view_ops xs (ws @ u # vs) = Some (v' # u # vs)"
proof (induction n xs arbitrary: ws rule: balanced.induct [case_names nil nest put commit0 rollback0 commit rollback])
  case (nil n)
  then show ?case by (cases ws) auto
next
  case (nest n xs)
  then obtain v ws' where ws: "ws = v # ws'" by (cases ws) auto
  from nest.IH [of "v # v # ws'"] nest.prems ws show ?case by simp
next
  case (put n k x xs)
  then obtain v ws' where ws: "ws = v # ws'" by (cases ws) auto
  have "view_op (KPut k x) ((v # ws') @ u # vs) = Some ((v(k \<mapsto> x) # ws') @ u # vs)" for u vs
    by (cases ws') auto
  with put.IH [of "v(k \<mapsto> x) # ws'"] put.prems ws show ?case by simp
next
  case (commit n xs)
  then obtain v u ws' where ws: "ws = v # u # ws'" by (cases ws rule: remdups_adj.cases) auto
  with commit.IH [of "u # ws'"] commit.prems show ?case by simp
next
  case (rollback n xs)
  then obtain v u ws' where ws: "ws = v # u # ws'" by (cases ws rule: remdups_adj.cases) auto
  with rollback.IH [of "v # ws'"] rollback.prems show ?case by simp
qed auto

lemma view_ops_append:
  "view_ops (xs @ ys) vs = Option.bind (view_ops xs vs) (view_ops ys)"
  by (induction xs arbitrary: vs) (auto split: bind_splits)



section \<open>The histories\<close>

lemma history_append [simp]: "history (a @ b) k = history a k @ history b k"
  by (simp add: history_def)

lemma history_Nil [simp]: "history [] k = []"
  by (simp add: history_def)

lemma history_single [simp]: "history [(k', v)] k = (if k' = k then [v] else [])"
  by (simp add: history_def)

lemma history_rev: "history (rev l) k = rev (history l k)"
  by (simp add: history_def rev_map rev_filter)

lemma history_eq_Nil: "history l k = [] \<longleftrightarrow> k \<notin> fst ` set l"
  by (auto simp: history_def filter_empty_conv)

lemma history_last: "history l k \<noteq> [] \<Longrightarrow> map_of (rev l) k = Some (last (history l k))"
  by (induction l rule: rev_induct) (auto simp: history_def)

lemma rollback_lookup_map_ok:
  assumes "lookup_ok lm (l @ [(k, v)])"
  shows "\<exists>lm'. rollback_lookup_map k lm = Ok (v, lm') \<and> lookup_ok lm' l"
proof -
  have "map_of lm k = Some (history l k @ [v])"
    using assms by (simp add: lookup_ok_def)
  then have "rollback_lookup_map k lm = Ok (v, if history l k = [] then AList.delete k lm
      else AList.update k (history l k) lm)"
    by (simp add: rollback_lookup_map_def Let_def)
  moreover have "lookup_ok (if history l k = [] then AList.delete k lm
      else AList.update k (history l k) lm) l"
    using assms
    by (auto simp: lookup_ok_def delete_conv' update_conv' distinct_delete distinct_update
        split: if_splits)
  ultimately show ?thesis by blast
qed

lemma rollback_lookup_all_ok:
  "lookup_ok lm (l @ m) \<Longrightarrow>
    \<exists>lm'. rollback_lookup_all (rev (map fst m)) lm = Ok (rev m, lm') \<and> lookup_ok lm' l"
proof (induction m arbitrary: lm rule: rev_induct)
  case (snoc e m)
  obtain k v where e: "e = (k, v)" by (cases e)
  from rollback_lookup_map_ok [of lm "l @ m" k v] snoc.prems e obtain lm1
    where "rollback_lookup_map k lm = Ok (v, lm1)" "lookup_ok lm1 (l @ m)" by auto
  with snoc.IH [of lm1] e show ?case by auto
qed simp

lemma lookup_ok_rev: "lookup_ok lm l \<Longrightarrow> lookup_ok (map (apsnd rev) lm) (rev l)"
  by (auto simp: lookup_ok_def history_rev map_of_apsnd comp_def)

lemma lookup_ok_empty: "lookup_ok lm [] \<longleftrightarrow> lm = []"
proof
  assume ok: "lookup_ok lm []"
  show "lm = []"
  proof (cases lm)
    case (Cons e lm')
    then show ?thesis using ok by (cases e) (auto simp: lookup_ok_def dest!: spec [of _ "fst e"])
  qed
qed (simp add: lookup_ok_def)

lemma pre_bottom_commit_ok:
  assumes "lookup_ok lm l"
  shows "rollback_check_pre_bottom_commit (map fst l) lm = Ok (l, [])"
proof -
  have "lookup_ok (map (apsnd rev) lm) ([] @ rev l)" using lookup_ok_rev [OF assms] by simp
  from rollback_lookup_all_ok [OF this] show ?thesis
    by (auto simp: rollback_check_pre_bottom_commit_def rev_map lookup_ok_empty)
qed

lemma inner_put_ok:
  assumes "lookup_ok lm (l @ m)" "inner_put lm (map fst m) k v = (lm', es)"
  shows "lookup_ok lm' (l @ m @ [(k, v)]) \<and> es = map fst (m @ [(k, v)])"
proof -
  have d: "(case map_of lm k of None \<Rightarrow> [] | Some h \<Rightarrow> h) = history (l @ m) k"
    using assms(1) by (simp add: lookup_ok_def)
  have "lm' = AList.update k (history (l @ m) k @ [v]) lm" "es = map fst m @ [k]"
    using assms(2) unfolding inner_put_def d Let_def by simp_all
  then show ?thesis
    using assms(1) by (simp add: lookup_ok_def update_conv' distinct_update)
qed

lemma layer_views_nonempty [simp]: "layer_views base logs \<noteq> []"
  by (cases logs) auto

lemma length_layer_views [simp]: "length (layer_views base logs) = Suc (length logs)"
  by (induction logs) auto

lemma hd_layer_views: "hd (layer_views base logs) = base ++ map_of (rev (concat (rev logs)))"
  by (induction logs) (simp_all add: map_add_assoc)


section \<open>The wrapper refines the stack of views\<close>

lemma empty_context_of: "empty_context = context_of [] []"
  by (simp add: empty_context_def context_of_def)

lemma context_of_sel [simp]:
  "edits (context_of l m) = map fst l" "metadata_edits (context_of l m) = map fst m"
  by (simp_all add: context_of_def)

context clarity_store
begin

lemma rel_new: "rb_rel ts reads rows tip (wrapper_new s) [reads s]"
  by (auto simp: rb_rel_def wrapper_new_def lookup_ok_empty intro!: exI [of _ "[]"])

lemma rel_depth: "rb_rel ts reads rows tip w vs \<Longrightarrow> length vs = Suc (rollback_depth w)"
  by (auto simp: rb_rel_def rollback_depth_def)

lemma rel_nest:
  assumes "rb_rel ts reads rows tip w (v # vs)"
  shows "rb_rel ts reads rows tip (nest w) (v # v # vs)"
proof -
  from assms obtain logs mlogs where r: "length logs = length mlogs"
    "stack w = map2 context_of logs mlogs" "lookup_ok (lookup_map w) (concat (rev logs))"
    "lookup_ok (metadata_lookup_map w) (concat (rev mlogs))" "query_pending_data w"
    "distinct (map (metadata_row ts (tip (store w)) \<circ> fst) (concat (rev mlogs)))"
    "\<forall>ck \<in> fst ` set (concat mlogs). rows (store w) (metadata_row ts (tip (store w)) ck) = None"
    "layer_views (reads (store w)) logs = v # vs"
    by (auto simp: rb_rel_def)
  then show ?thesis
    by (auto simp: rb_rel_def nest_def empty_context_of intro!: exI [of _ "[] # logs"] exI [of _ "[] # mlogs"])
qed

lemma rel_open:
  assumes "rb_rel ts reads rows tip w (v # u # vs)"
  obtains l ls m ms where "length ls = length ms" "stack w = context_of l m # map2 context_of ls ms"
    "lookup_ok (lookup_map w) (concat (rev ls) @ l)"
    "lookup_ok (metadata_lookup_map w) (concat (rev ms) @ m)" "query_pending_data w"
    "distinct (map (metadata_row ts (tip (store w)) \<circ> fst) (concat (rev ms) @ m))"
    "\<forall>ck \<in> fst ` set (m @ concat ms). rows (store w) (metadata_row ts (tip (store w)) ck) = None"
    "layer_views (reads (store w)) ls = u # vs" "v = u ++ map_of (rev l)"
proof -
  from assms obtain logs mlogs where r: "length logs = length mlogs"
    "stack w = map2 context_of logs mlogs" "lookup_ok (lookup_map w) (concat (rev logs))"
    "lookup_ok (metadata_lookup_map w) (concat (rev mlogs))" "query_pending_data w"
    "distinct (map (metadata_row ts (tip (store w)) \<circ> fst) (concat (rev mlogs)))"
    "\<forall>ck \<in> fst ` set (concat mlogs). rows (store w) (metadata_row ts (tip (store w)) ck) = None"
    "v # u # vs = layer_views (reads (store w)) logs"
    by (auto simp: rb_rel_def)
  obtain l ls where logs: "logs = l # ls" using r(8) by (cases logs) auto
  then obtain m ms where mlogs: "mlogs = m # ms" using r(1) by (cases mlogs) auto
  have "layer_views (reads (store w)) ls = u # vs" using r(8) by (simp add: logs)
  then show thesis
    by (intro that [of ls ms l m]) (use r in \<open>simp_all add: logs mlogs\<close>)
qed

lemma rel_openI:
  assumes "length ls = length ms" "stack w = context_of l m # map2 context_of ls ms"
    "lookup_ok (lookup_map w) (concat (rev ls) @ l)"
    "lookup_ok (metadata_lookup_map w) (concat (rev ms) @ m)" "query_pending_data w"
    "distinct (map (metadata_row ts (tip (store w)) \<circ> fst) (concat (rev ms) @ m))"
    "\<forall>ck \<in> fst ` set (m @ concat ms). rows (store w) (metadata_row ts (tip (store w)) ck) = None"
    "layer_views (reads (store w)) ls = u # vs" "v = u ++ map_of (rev l)"
  shows "rb_rel ts reads rows tip w (v # u # vs)"
  unfolding rb_rel_def
  by (rule exI [of _ "l # ls"], rule exI [of _ "m # ms"]) (use assms in simp)

lemma rel_put:
  assumes "rb_rel ts reads rows tip w (v # u # vs)"
  shows "\<exists>w'. put w k x = Ok w' \<and> rb_rel ts reads rows tip w' (v(k \<mapsto> x) # u # vs)"
proof -
  from rel_open [OF assms] obtain l ls m ms where r: "length ls = length ms"
    "stack w = context_of l m # map2 context_of ls ms" "lookup_ok (lookup_map w) (concat (rev ls) @ l)"
    "lookup_ok (metadata_lookup_map w) (concat (rev ms) @ m)" "query_pending_data w"
    "distinct (map (metadata_row ts (tip (store w)) \<circ> fst) (concat (rev ms) @ m))"
    "\<forall>ck \<in> fst ` set (m @ concat ms). rows (store w) (metadata_row ts (tip (store w)) ck) = None"
    "layer_views (reads (store w)) ls = u # vs" "v = u ++ map_of (rev l)" .
  obtain lm es where ip: "inner_put (lookup_map w) (map fst l) k x = (lm, es)" by fastforce
  note ok = inner_put_ok [OF r(3) ip]
  let ?w = "w\<lparr>lookup_map := lm, stack := context_of (l @ [(k, x)]) m # map2 context_of ls ms\<rparr>"
  have "rb_rel ts reads rows tip ?w (v(k \<mapsto> x) # u # vs)"
    by (rule rel_openI [of ls ms _ "l @ [(k, x)]" m]) (use r ok in simp_all)
  moreover have "put w k x = Ok ?w"
    using r(2) ip ok by (simp add: put_def context_of_def)
  ultimately show ?thesis by blast
qed

lemma rel_rollback:
  assumes "rb_rel ts reads rows tip w (v # u # vs)"
  shows "\<exists>w'. rollback w = Ok w' \<and> rb_rel ts reads rows tip w' (u # vs)"
proof -
  from rel_open [OF assms] obtain l ls m ms where r: "length ls = length ms"
    "stack w = context_of l m # map2 context_of ls ms" "lookup_ok (lookup_map w) (concat (rev ls) @ l)"
    "lookup_ok (metadata_lookup_map w) (concat (rev ms) @ m)" "query_pending_data w"
    "distinct (map (metadata_row ts (tip (store w)) \<circ> fst) (concat (rev ms) @ m))"
    "\<forall>ck \<in> fst ` set (m @ concat ms). rows (store w) (metadata_row ts (tip (store w)) ck) = None"
    "layer_views (reads (store w)) ls = u # vs" "v = u ++ map_of (rev l)" .
  from rollback_lookup_all_ok [OF r(3)] rollback_lookup_all_ok [OF r(4)]
  obtain lm mlm where ok: "rollback_lookup_all (rev (map fst l)) (lookup_map w) = Ok (rev l, lm)"
    "lookup_ok lm (concat (rev ls))"
    "rollback_lookup_all (rev (map fst m)) (metadata_lookup_map w) = Ok (rev m, mlm)"
    "lookup_ok mlm (concat (rev ms))" by blast
  let ?w = "w\<lparr>lookup_map := lm, metadata_lookup_map := mlm, stack := map2 context_of ls ms\<rparr>"
  have "rb_rel ts reads rows tip ?w (u # vs)"
    unfolding rb_rel_def
    by (rule exI [of _ ls], rule exI [of _ ms]) (use r ok in \<open>auto simp: comp_def\<close>)
  moreover have "rollback w = Ok ?w" using r(2) ok by (simp add: rollback_def)
  ultimately show ?thesis by blast
qed

lemma rel_commit:
  assumes "rb_rel ts reads rows tip w (v # u # vs)"
  shows "\<exists>w'. commit ts B w = Ok w' \<and> rb_rel ts reads rows tip w' (v # vs)"
proof -
  from rel_open [OF assms] obtain l ls m ms where r: "length ls = length ms"
    "stack w = context_of l m # map2 context_of ls ms" "lookup_ok (lookup_map w) (concat (rev ls) @ l)"
    "lookup_ok (metadata_lookup_map w) (concat (rev ms) @ m)" "query_pending_data w"
    "distinct (map (metadata_row ts (tip (store w)) \<circ> fst) (concat (rev ms) @ m))"
    "\<forall>ck \<in> fst ` set (m @ concat ms). rows (store w) (metadata_row ts (tip (store w)) ck) = None"
    "layer_views (reads (store w)) ls = u # vs" "v = u ++ map_of (rev l)" .
  show ?thesis
  proof (cases ls)
    case Nil
    then have ms: "ms = []" using r(1) by simp
    from put_all [of "store w" l] obtain s where s: "bs_put_all B (store w) l = Ok s"
      "reads s = reads (store w) ++ map_of (rev l)" "rows s = rows (store w)" "tip s = tip (store w)" by blast
    define s1 where "s1 = (if l = [] then store w else s)"
    have s1: "(if l \<noteq> [] then bs_put_all B (store w) l else Ok (store w)) = Ok s1"
      "reads s1 = reads (store w) ++ map_of (rev l)" "rows s1 = rows (store w)" "tip s1 = tip (store w)"
      using s by (auto simp: s1_def)
    have "\<exists>s'. store_put_all_metadata ts B s1 m = Ok s' \<and> reads s' = reads s1 \<and> tip s' = tip s1
        \<and> rows s' = rows s1 ++ map_of (map (\<lambda>(ck, v). (metadata_row ts (tip s1) ck, v)) m)"
      by (rule put_all_metadata_fresh) (use r(6,7) s1(3,4) Nil ms in \<open>auto simp: comp_def\<close>)
    then obtain s2 where s2: "store_put_all_metadata ts B s1 m = Ok s2" "reads s2 = reads s1" by blast
    define s3 where "s3 = (if m = [] then s1 else s2)"
    have s3: "(if m \<noteq> [] then store_put_all_metadata ts B s1 m else Ok s1) = Ok s3"
      "reads s3 = reads s1"
      using s2 by (auto simp: s3_def)
    let ?w = "w\<lparr>store := s3, lookup_map := [], metadata_lookup_map := [], stack := []\<rparr>"
    have "commit ts B w = Ok ?w"
      using r(2,3,4) Nil ms s1(1) s3(1) by (simp add: commit_def pre_bottom_commit_ok)
    moreover have "vs = []" "u = reads (store w)" using r(8) Nil by simp_all
    then have "rb_rel ts reads rows tip ?w (v # vs)"
      unfolding rb_rel_def
      by (intro exI [of _ "[]"]) (use r s1 s3 in \<open>simp add: lookup_ok_empty\<close>)
    ultimately show ?thesis by blast
  next
    case (Cons l2 ls2)
    then obtain m2 ms2 where ms: "ms = m2 # ms2" using r(1) by (cases ms) auto
    let ?w = "w\<lparr>stack := context_of (l2 @ l) (m2 @ m) # map2 context_of ls2 ms2\<rparr>"
    have "commit ts B w = Ok ?w"
      using r(2) Cons ms by (simp add: commit_def context_of_def)
    moreover have "rb_rel ts reads rows tip ?w (v # vs)"
    proof -
      obtain u' vs' where u': "layer_views (reads (store w)) ls2 = u' # vs'"
        by (cases "layer_views (reads (store w)) ls2") simp_all
      then have vs': "vs = u' # vs'" "u = u' ++ map_of (rev l2)" using r(8) Cons by auto
      show ?thesis
        unfolding vs'(1)
        by (rule rel_openI [of ls2 ms2 _ "l2 @ l" "m2 @ m"])
          (use r Cons ms u' vs' in \<open>auto simp: map_add_assoc\<close>)
    qed
    ultimately show ?thesis by blast
  qed
qed

lemma rel_closed:
  assumes "rb_rel ts reads rows tip w [v]"
  shows "stack w = []" "v = reads (store w)"
proof -
  from assms obtain logs mlogs where r: "length logs = length mlogs"
    "stack w = map2 context_of logs mlogs" "[v] = layer_views (reads (store w)) logs"
    by (auto simp: rb_rel_def)
  have "Suc (length logs) = length [v]" unfolding r(3) by simp
  then have "logs = []" by simp
  with r show "stack w = []" "v = reads (store w)" by simp_all
qed

lemma rel_get:
  assumes "rb_rel ts reads rows tip w (v # u # vs)"
  shows "get Ok B w k = Ok (v k)"
proof -
  from rel_open [OF assms] obtain l ls m ms where r: "stack w = context_of l m # map2 context_of ls ms"
    "lookup_ok (lookup_map w) (concat (rev ls) @ l)" "query_pending_data w"
    "layer_views (reads (store w)) ls = u # vs" "v = u ++ map_of (rev l)" .
  define h where "h = concat (rev ls) @ l"
  have v: "v = reads (store w) ++ map_of (rev h)"
    using hd_layer_views [of "reads (store w)" ls] r(4,5) by (simp add: h_def map_add_assoc)
  show ?thesis
  proof (cases "history h k = []")
    case True
    then have "v k = reads (store w) k"
      unfolding v by (simp add: map_add_dom_app_simps history_eq_Nil dom_map_of_conv_image_fst)
    moreover have "pending k (lookup_map w) (query_pending_data w) = None"
      using r(2) True by (simp add: pending_def lookup_ok_def h_def)
    ultimately show ?thesis
      using r(1) get_reads by (simp add: get_def split: option.splits)
  next
    case False
    then have "pending k (lookup_map w) (query_pending_data w) = Some (last (history h k))"
      using r(2,3) by (simp add: pending_def lookup_ok_def h_def)
    moreover have "v k = Some (last (history h k))" unfolding v using history_last [OF False] by simp
    ultimately show ?thesis using r(1) by (simp add: get_def)
  qed
qed

sublocale wrapper: transactional_store "rb_rel ts reads rows tip" "run_op ts B" "get Ok B" for ts
proof
  fix w vs x v u k
  show "vs \<noteq> []" if "rb_rel ts reads rows tip w vs" using rel_depth [OF that] by auto
  show "get Ok B w k = Ok (v k)" if "rb_rel ts reads rows tip w (v # u # vs)" using rel_get [OF that] .
  show "get Ok B w k = Panic" if "rb_rel ts reads rows tip w [v]"
    using rel_closed [OF that] by (simp add: get_def)
  show "case view_op x vs of None \<Rightarrow> run_op ts B x w = Panic
      | Some vs' \<Rightarrow> \<exists>w'. run_op ts B x w = Ok w' \<and> rb_rel ts reads rows tip w' vs'"
    if rel: "rb_rel ts reads rows tip w vs"
  proof -
    obtain v ws where vs: "vs = v # ws" using rel_depth [OF rel] by (cases vs) auto
    show ?thesis
    proof (cases ws)
      case Nil
      then show ?thesis
        using rel_closed [of ts w v] rel_nest [of ts w v "[]"] rel vs
        by (cases x) (simp_all add: put_def rollback_def commit_def)
    next
      case (Cons u us)
      then show ?thesis
        using rel_nest [of ts w v ws] rel_put [of ts w v u us] rel_rollback [of ts w v u us]
          rel_commit [of ts w v u us] rel vs
        by (cases x) simp_all
    qed
  qed
qed

end

section \<open>Properties\<close>

text \<open>C6: The wrapper over the in-memory store is a stack of views: every sequence of \<open>nest\<close>, \<open>put\<close>,
  \<open>rollback\<close> and \<open>commit\<close> panics exactly when it writes, rolls back or commits with no open
  context, and otherwise reads inside a context answer from the top view, and with no open context
  the store holds it.\<close>

theorem rollback_wrapper_refines:
  "case view_ops ops [sqlite_get s] of
     None \<Rightarrow> run_with (run_op ts memory_backing_store) ops (wrapper_new s) = Panic
   | Some vs \<Rightarrow> \<exists>w. run_with (run_op ts memory_backing_store) ops (wrapper_new s) = Ok w
       \<and> length vs = Suc (rollback_depth w)
       \<and> (if rollback_depth w = 0 then sqlite_get (store w) = hd vs
          else (\<forall>k. get Ok memory_backing_store w k = Ok (hd vs k)))"
proof -
  let ?R = "rb_rel ts sqlite_get (\<lambda>conn. map_of (metadata_table conn)) (\<lambda>_. sentinel_block)"
  have obs: "if rollback_depth w = 0 then sqlite_get (store w) = hd vs
      else (\<forall>k. get Ok memory_backing_store w k = Ok (hd vs k))" if "?R w vs" for w vs
  proof -
    have len: "length vs = Suc (rollback_depth w)" using memory_store.rel_depth [OF that] .
    then obtain v ws where vs: "vs = v # ws" by (cases vs) auto
    show ?thesis
    proof (cases ws)
      case Nil
      with that vs have "?R w [v]" by simp
      from memory_store.rel_closed [OF this] show ?thesis by (simp add: vs rollback_depth_def)
    next
      case (Cons u us)
      with that vs have "?R w (v # u # us)" by simp
      from memory_store.rel_get [OF this] len vs Cons show ?thesis by simp
    qed
  qed
  show ?thesis
    using memory_store.wrapper.run_refines [OF memory_store.rel_new, of ts ops s]
      memory_store.rel_depth obs
    by (fastforce split: option.splits)
qed

text \<open>C24: Nested transactions are isolated: a sequence that closes what it opens, run between \<open>nest\<close>
  and \<open>rollback\<close>, leaves every view as it was, and run between \<open>nest\<close> and \<open>commit\<close> it has the same
  effect as run directly in the enclosing context.\<close>

theorem nested_transactions:
  assumes "balanced 0 ops" "view_ops pre [sqlite_get s] = Some (v # u # vs)"
  shows "\<exists>v'. view_ops (pre @ KNest # ops @ [KRollback]) [sqlite_get s] = Some (v # u # vs)
    \<and> view_ops (pre @ KNest # ops @ [KCommit]) [sqlite_get s] = Some (v' # u # vs)
    \<and> view_ops (pre @ ops) [sqlite_get s] = Some (v' # u # vs)
    \<and> (\<exists>w. run_with (run_op ts memory_backing_store) (pre @ KNest # ops @ [KRollback]) (wrapper_new s) = Ok w
        \<and> (\<forall>k. get Ok memory_backing_store w k = Ok (v k)))
    \<and> (\<exists>w. run_with (run_op ts memory_backing_store) (pre @ KNest # ops @ [KCommit]) (wrapper_new s) = Ok w
        \<and> (\<forall>k. get Ok memory_backing_store w k = Ok (v' k)))"
proof -
  from balanced_view [OF assms(1), of "[v]"] obtain v'
    where v': "\<And>u vs. view_ops ops (v # u # vs) = Some (v' # u # vs)" by auto
  have views: "view_ops (pre @ KNest # ops @ [KRollback]) [sqlite_get s] = Some (v # u # vs)"
    "view_ops (pre @ KNest # ops @ [KCommit]) [sqlite_get s] = Some (v' # u # vs)"
    "view_ops (pre @ ops) [sqlite_get s] = Some (v' # u # vs)"
    using assms(2) v' by (simp_all add: view_ops_append)
  have run: "\<exists>w. run_with (run_op ts memory_backing_store) xs (wrapper_new s) = Ok w
      \<and> (\<forall>k. get Ok memory_backing_store w k = Ok (a k))"
    if "view_ops xs [sqlite_get s] = Some (a # b # cs)" for xs a b cs
    using memory_store.wrapper.run_refines [OF memory_store.rel_new, of ts xs s] that
      memory_store.rel_get by fastforce
  from views run [OF views(1)] run [OF views(2)] show ?thesis by blast
qed

theorem nested_transactions_witness:
  "\<exists>w. run_with (run_op (\<lambda>_. []) memory_backing_store)
      ([KNest, KPut ''k'' ''0''] @ KNest # [KPut ''k'' ''1''] @ [KRollback]) (wrapper_new sqlite_memory) = Ok w
    \<and> (\<forall>k. get Ok memory_backing_store w k = Ok ([''k'' \<mapsto> ''0''] k))"
proof -
  have "balanced 0 [KPut ''k'' ''1'']"
    "view_ops [KNest, KPut ''k'' ''0''] [sqlite_get sqlite_memory] = Some [[''k'' \<mapsto> ''0''], Map.empty]"
    by (simp_all add: sqlite_get_def sqlite_memory_def fun_eq_iff)
  from nested_transactions [OF this, of "\<lambda>_. []"] show ?thesis by blast
qed



end
