(* ===== verification/Merkle.thy ===== *)
theory Merkle
  imports Prelude
begin

text \<open>
  The tagged Merkle trees of \<open>stacks-common/src/util/hash.rs\<close>: \<open>MerkleTree\<close> over the trait
  \<open>MerkleHashFunc\<close>. A hash type is a record of the trait's methods; the digests of the sha2 and
  ripemd crates are parameters of its four implementations. The loop that builds the rows is a
  partial function, and the lemmas show that it returns on every input, that the path of every
  leaf exists and verifies against the root, and that a path can verify for a datum outside the
  tree only if two of the byte strings hashed on the way collide.
\<close>

record 'h merkle_hash_func =
  mh_empty :: 'h
  mh_from_tagged_data :: "u8 \<Rightarrow> u8 list \<Rightarrow> 'h"
  mh_bits :: "'h \<Rightarrow> u8 list"

text \<open>The fixed-size arrays behind \<open>Hash160\<close> and the 32-byte hash types.\<close>

typedef bytes20 = "{bs :: u8 list. length bs = 20}" morphisms bytes20_bits Bytes20
  by (rule exI [of _ "replicate 20 0"]) simp

typedef bytes32 = "{bs :: u8 list. length bs = 32}" morphisms bytes32_bits Bytes32
  by (rule exI [of _ "replicate 32 0"]) simp

definition hash160_func :: "(u8 list \<Rightarrow> bytes32) \<Rightarrow> (u8 list \<Rightarrow> bytes20) \<Rightarrow> bytes20 merkle_hash_func" where
  "hash160_func sha256 ripemd160 = \<lparr>mh_empty = Bytes20 (replicate 20 0),
     mh_from_tagged_data = \<lambda>tag data. ripemd160 (bytes32_bits (sha256 (tag # data))),
     mh_bits = bytes20_bits\<rparr>"

definition sha256_sum_func :: "(u8 list \<Rightarrow> bytes32) \<Rightarrow> bytes32 merkle_hash_func" where
  "sha256_sum_func sha256 = \<lparr>mh_empty = Bytes32 (replicate 32 0),
     mh_from_tagged_data = \<lambda>tag data. sha256 (tag # data), mh_bits = bytes32_bits\<rparr>"

definition double_sha256_func :: "(u8 list \<Rightarrow> bytes32) \<Rightarrow> bytes32 merkle_hash_func" where
  "double_sha256_func sha256 = \<lparr>mh_empty = Bytes32 (replicate 32 0),
     mh_from_tagged_data = \<lambda>tag data. sha256 (bytes32_bits (sha256 (tag # data))),
     mh_bits = bytes32_bits\<rparr>"

definition sha512_trunc256_func :: "(u8 list \<Rightarrow> bytes32) \<Rightarrow> bytes32 merkle_hash_func" where
  "sha512_trunc256_func sha512_256 = \<lparr>mh_empty = Bytes32 (replicate 32 0),
     mh_from_tagged_data = \<lambda>tag data. sha512_256 (tag # data), mh_bits = bytes32_bits\<rparr>"

datatype merkle_path_order = PathLeft | PathRight

record 'h merkle_path_point =
  pp_order :: merkle_path_order
  pp_hash :: 'h

type_synonym 'h merkle_path = "'h merkle_path_point list"

type_synonym 'h merkle_tree = "'h list list"

definition MERKLE_PATH_LEAF_TAG :: u8 where
  "MERKLE_PATH_LEAF_TAG = 0x00"

definition MERKLE_PATH_NODE_TAG :: u8 where
  "MERKLE_PATH_NODE_TAG = 0x01"

definition get_leaf_hash :: "'h merkle_hash_func \<Rightarrow> u8 list \<Rightarrow> 'h" where
  "get_leaf_hash H leaf_data = mh_from_tagged_data H MERKLE_PATH_LEAF_TAG leaf_data"

definition get_node_hash :: "'h merkle_hash_func \<Rightarrow> 'h \<Rightarrow> 'h \<Rightarrow> 'h" where
  "get_node_hash H left right =
     mh_from_tagged_data H MERKLE_PATH_NODE_TAG (mh_bits H left @ mh_bits H right)"

definition merkle_empty :: "'h merkle_tree" where
  "merkle_empty = []"

definition force_even :: "'h list \<Rightarrow> 'h list" where
  "force_even row = (if length row mod 2 \<noteq> 0 then row @ [row ! (length row - 1)] else row)"

definition next_row :: "'h merkle_hash_func \<Rightarrow> 'h list \<Rightarrow> 'h list" where
  "next_row H row =
     map (\<lambda>j. get_node_hash H (row ! (2 * j)) (row ! (2 * j + 1))) [0..<length row div 2]"

text \<open>The rows above a row; \<open>None\<close> if the loop does not end.\<close>

partial_function (option) merkle_rows :: "'h merkle_hash_func \<Rightarrow> 'h list \<Rightarrow> 'h list list option" where
  "merkle_rows H row =
     (let row_hashes = next_row H row in
      if length row_hashes = 1 then Some [row_hashes]
      else let row_hashes = force_even row_hashes in
        Option.bind (merkle_rows H row_hashes) (\<lambda>rows. Some (row_hashes # rows)))"

definition merkle_new :: "'h merkle_hash_func \<Rightarrow> u8 list list \<Rightarrow> 'h merkle_tree option" where
  "merkle_new H data =
     (if length data = 0 then Some []
      else let leaf_hashes = force_even (map (get_leaf_hash H) data) in
        Option.bind (merkle_rows H leaf_hashes) (\<lambda>rows. Some (leaf_hashes # rows)))"

definition find_hash_index :: "'h merkle_tree \<Rightarrow> 'h \<Rightarrow> nat \<Rightarrow> (unit, nat option) result" where
  "find_hash_index nodes hash row_index =
     (if row_index \<ge> length nodes then Panic
      else Ok (find_index (\<lambda>h. h = hash) (nodes ! row_index) 0))"

definition find_siblings :: "'h merkle_tree \<Rightarrow> nat \<Rightarrow> nat \<Rightarrow> (unit, 'h \<times> 'h) result" where
  "find_siblings nodes row_index hash_index =
     (if nodes = [] \<or> row_index = length nodes - 1 then Panic
      else if row_index \<ge> length nodes then Panic
      else if hash_index \<ge> length (nodes ! row_index) then Panic
      else if hash_index mod 2 = 0 then
        if hash_index + 1 \<ge> length (nodes ! row_index) then Panic
        else Ok (nodes ! row_index ! hash_index, nodes ! row_index ! (hash_index + 1))
      else Ok (nodes ! row_index ! (hash_index - 1), nodes ! row_index ! hash_index))"

definition merkle_root :: "'h merkle_hash_func \<Rightarrow> 'h merkle_tree \<Rightarrow> 'h" where
  "merkle_root H nodes =
     (if length nodes > 0 then
        if length (nodes ! (length nodes - 1)) > 0 then nodes ! (length nodes - 1) ! 0 else mh_empty H
      else mh_empty H)"

fun merkle_path_loop :: "'h merkle_hash_func \<Rightarrow> 'h merkle_tree \<Rightarrow> nat list \<Rightarrow> 'h \<Rightarrow> nat
    \<Rightarrow> (unit, 'h merkle_path option) result" where
  "merkle_path_loop H nodes [] next_hash hash_index = Ok (Some [])"
| "merkle_path_loop H nodes (i # is) next_hash hash_index =
     and_then (find_siblings nodes i hash_index) (\<lambda>(left, right).
     let point = (if next_hash = left then \<lparr>pp_order = PathLeft, pp_hash = right\<rparr>
                  else \<lparr>pp_order = PathRight, pp_hash = left\<rparr>);
         next_hash = get_node_hash H left right
     in and_then (find_hash_index nodes next_hash (i + 1)) (\<lambda>found.
     case found of None \<Rightarrow> Ok None
     | Some hash_index \<Rightarrow>
         map_ok (map_option (Cons point)) (merkle_path_loop H nodes is next_hash hash_index)))"

definition merkle_path :: "'h merkle_hash_func \<Rightarrow> 'h merkle_tree \<Rightarrow> u8 list
    \<Rightarrow> (unit, 'h merkle_path option) result" where
  "merkle_path H nodes data =
     (if length nodes = 0 then Ok None
      else let leaf_hash = get_leaf_hash H data in
        and_then (find_hash_index nodes leaf_hash 0) (\<lambda>found.
        case found of None \<Rightarrow> Ok None
        | Some hash_index \<Rightarrow>
            merkle_path_loop H nodes [0..<length nodes - 1] leaf_hash hash_index))"

definition path_step :: "'h merkle_hash_func \<Rightarrow> 'h \<Rightarrow> 'h merkle_path_point \<Rightarrow> 'h" where
  "path_step H hash_acc point =
     (case pp_order point of
        PathLeft \<Rightarrow> get_node_hash H hash_acc (pp_hash point)
      | PathRight \<Rightarrow> get_node_hash H (pp_hash point) hash_acc)"

definition path_verify :: "'h merkle_hash_func \<Rightarrow> u8 list \<Rightarrow> 'h merkle_path \<Rightarrow> 'h \<Rightarrow> bool" where
  "path_verify H data path root =
     (if length path < 1 then False
      else foldl (path_step H) (get_leaf_hash H data) path = root)"

section \<open>Specification level\<close>

text \<open>The shape of a built tree: the bottom row, and above it the node hashes of its pairs.\<close>

fun rows_above :: "'h merkle_hash_func \<Rightarrow> 'h list \<Rightarrow> 'h list list \<Rightarrow> bool" where
  "rows_above H row [] \<longleftrightarrow> length row = 1"
| "rows_above H row (r # rs) \<longleftrightarrow> even (length row) \<and> row \<noteq> []
     \<and> (if rs = [] then r = next_row H row \<and> length r = 1
        else r = force_even (next_row H row) \<and> 1 < length r) \<and> rows_above H r rs"

text \<open>The byte strings hashed, with their tags, to build the rows of a tree and to check a path.\<close>

definition node_input :: "'h merkle_hash_func \<Rightarrow> 'h \<Rightarrow> 'h \<Rightarrow> u8 \<times> u8 list" where
  "node_input H l r = (MERKLE_PATH_NODE_TAG, mh_bits H l @ mh_bits H r)"

definition tree_inputs :: "'h merkle_hash_func \<Rightarrow> u8 list list \<Rightarrow> 'h merkle_tree \<Rightarrow> (u8 \<times> u8 list) set" where
  "tree_inputs H data nodes = (\<lambda>d. (MERKLE_PATH_LEAF_TAG, d)) ` set data
     \<union> (\<Union>row \<in> set nodes. \<Union>l \<in> set row. \<Union>r \<in> set row. {node_input H l r})"

fun path_inputs :: "'h merkle_hash_func \<Rightarrow> 'h \<Rightarrow> 'h merkle_path \<Rightarrow> (u8 \<times> u8 list) set" where
  "path_inputs H acc [] = {}"
| "path_inputs H acc (p # ps) =
     insert (case pp_order p of PathLeft \<Rightarrow> node_input H acc (pp_hash p)
         | PathRight \<Rightarrow> node_input H (pp_hash p) acc)
       (path_inputs H (path_step H acc p) ps)"

section \<open>Building\<close>

lemma length_next_row [simp]: "length (next_row H row) = length row div 2"
  by (simp add: next_row_def)

lemma nth_next_row: "j < length row div 2 \<Longrightarrow>
  next_row H row ! j = get_node_hash H (row ! (2 * j)) (row ! (2 * j + 1))"
  by (simp add: next_row_def)

lemma length_force_even: "length (force_even row) = length row + length row mod 2"
  by (simp add: force_even_def mod2_eq_if)

lemma even_force_even [simp]: "even (length (force_even row))"
  by (simp add: force_even_def) presburger

lemma force_even_eq_Nil [simp]: "force_even row = [] \<longleftrightarrow> row = []"
  by (auto simp: force_even_def)

lemma set_force_even [simp]: "set (force_even row) = set row"
  by (cases "row = []") (auto simp: force_even_def)

lemma nth_force_even: "j < length row \<Longrightarrow> force_even row ! j = row ! j"
  by (simp add: force_even_def nth_append)

lemma merkle_rows_total:
  "\<lbrakk>even (length row); row \<noteq> []\<rbrakk> \<Longrightarrow> \<exists>rs. merkle_rows H row = Some rs \<and> rs \<noteq> [] \<and> rows_above H row rs"
proof (induction "length row" arbitrary: row rule: less_induct)
  case less
  define r where "r = next_row H row"
  have "2 \<le> length row" using less.prems by (cases row rule: remdups_adj.cases) auto
  then have len: "length r = length row div 2" "1 \<le> length r" by (auto simp: r_def)
  show ?case
  proof (cases "length r = 1")
    case True
    then show ?thesis using less.prems by (subst merkle_rows.simps) (simp add: r_def Let_def)
  next
    case False
    then have r: "r \<noteq> []" "1 < length r" using len(2) by auto
    have "length (force_even r) < length row"
      using len(1) r(2) by (simp add: length_force_even)
    then obtain rs where "merkle_rows H (force_even r) = Some rs" "rs \<noteq> []" "rows_above H (force_even r) rs"
      using less.hyps [of "force_even r"] r(1) by auto
    moreover have "1 < length (force_even r)" using r(2) by (simp add: length_force_even)
    ultimately show ?thesis
      using less.prems False r by (subst merkle_rows.simps) (simp add: r_def [symmetric] Let_def)
  qed
qed

lemma merkle_new_total:
  assumes "data \<noteq> []"
  shows "\<exists>rs. merkle_new H data = Some (force_even (map (get_leaf_hash H) data) # rs) \<and> rs \<noteq> []
    \<and> rows_above H (force_even (map (get_leaf_hash H) data)) rs"
  using merkle_rows_total [of "force_even (map (get_leaf_hash H) data)" H] assms
  by (auto simp: merkle_new_def Let_def)

section \<open>Paths\<close>

lemma rows_above_pos: "rows_above H row rs \<Longrightarrow> row \<noteq> []"
  by (cases rs) auto

lemma find_siblings_row:
  assumes "nodes = pre @ row # r # rs" "idx < length row" "even (length row)"
  shows "find_siblings nodes (length pre) idx =
    Ok (row ! (2 * (idx div 2)), row ! (2 * (idx div 2) + 1))"
proof (cases "even idx")
  case True
  then have "idx + 1 < length row" using assms(2,3) by (metis Suc_eq_plus1 Suc_lessI even_Suc)
  with True assms show ?thesis by (auto simp: find_siblings_def elim!: evenE)
next
  case False
  with assms show ?thesis by (auto simp: find_siblings_def elim!: oddE)
qed

lemma path_step_point:
  assumes "next = l \<or> next = r"
  shows "path_step H next (if next = l then \<lparr>pp_order = PathLeft, pp_hash = r\<rparr>
    else \<lparr>pp_order = PathRight, pp_hash = l\<rparr>) = get_node_hash H l r"
  using assms by (auto simp: path_step_def)

lemma merkle_path_loop_ok:
  "\<lbrakk>rows_above H row rs; nodes = pre @ row # rs; idx < length row; row ! idx = next\<rbrakk> \<Longrightarrow>
    \<exists>p. merkle_path_loop H nodes [length pre..<length nodes - 1] next idx = Ok (Some p)
      \<and> length p = length rs \<and> foldl (path_step H) next p = merkle_root H nodes"
proof (induction rs arbitrary: row pre idx "next")
  case Nil
  then show ?case by (auto simp: merkle_root_def nth_append)
next
  case (Cons r rs)
  define j where "j = idx div 2"
  define l where "l = row ! (2 * j)"
  define r' where "r' = row ! (2 * j + 1)"
  have ev: "even (length row)" using Cons.prems(1) by simp
  have j: "j < length row div 2" using Cons.prems(3) ev by (auto simp: j_def elim!: evenE)
  have sib: "find_siblings nodes (length pre) idx = Ok (l, r')"
    using find_siblings_row [OF Cons.prems(2,3) ev] by (simp add: l_def r'_def j_def)
  have "idx = 2 * j \<or> idx = 2 * j + 1" by (auto simp: j_def)
  then have nxt: "next = l \<or> next = r'" using Cons.prems(4) by (auto simp: l_def r'_def)
  have "get_node_hash H l r' = next_row H row ! j" using nth_next_row [OF j] by (simp add: l_def r'_def)
  also have "\<dots> \<in> set (next_row H row)" using j by (intro nth_mem) simp
  also have "set (next_row H row) = set r"
    using Cons.prems(1) by (auto split: if_splits)
  finally have mem: "get_node_hash H l r' \<in> set r" .
  then obtain i where i: "find_index (\<lambda>h. h = get_node_hash H l r') r 0 = Some i"
    using find_index_None [of "\<lambda>h. h = get_node_hash H l r'" r 0]
    by (cases "find_index (\<lambda>h. h = get_node_hash H l r') r 0") auto
  then have ri: "i < length r" "r ! i = get_node_hash H l r'" by (simp_all add: find_index_spec)
  have fi: "find_hash_index nodes (get_node_hash H l r') (length pre + 1) = Ok (Some i)"
    using i Cons.prems(2) by (simp add: find_hash_index_def nth_append)
  have "\<exists>p. merkle_path_loop H nodes [length (pre @ [row])..<length nodes - 1] (get_node_hash H l r') i =
        Ok (Some p) \<and> length p = length rs
      \<and> foldl (path_step H) (get_node_hash H l r') p = merkle_root H nodes"
    by (rule Cons.IH) (use Cons.prems ri in auto)
  then obtain p where p: "merkle_path_loop H nodes [Suc (length pre)..<length nodes - 1]
      (get_node_hash H l r') i = Ok (Some p)" "length p = length rs"
    "foldl (path_step H) (get_node_hash H l r') p = merkle_root H nodes" by auto
  have "[length pre..<length nodes - 1] = length pre # [Suc (length pre)..<length nodes - 1]"
    by (subst upt_conv_Cons) (use Cons.prems(2) in simp_all)
  then show ?case
    using sib fi p path_step_point [OF nxt] by (simp add: Let_def)
qed

text \<open>A hash in a row above the bottom one is the hash of two hashes of the row below.\<close>

lemma rows_above_node:
  assumes "rows_above H row (r # rs)" "h \<in> set r"
  obtains a b where "a \<in> set row" "b \<in> set row" "h = get_node_hash H a b"
proof -
  have "set r = set (next_row H row)" using assms(1) by (auto split: if_splits)
  with assms(2) obtain j where j: "j < length row div 2" "h = next_row H row ! j"
    by (auto simp: in_set_conv_nth)
  have "2 * j + 1 < length row" using j(1) by linarith
  then show thesis
    using nth_next_row [OF j(1)] j by (intro that [of "row ! (2 * j)" "row ! (2 * j + 1)"]) auto
qed

definition collision_free :: "'h merkle_hash_func \<Rightarrow> (u8 \<times> u8 list) set \<Rightarrow> bool" where
  "collision_free H xs \<longleftrightarrow> inj_on (\<lambda>(tag, data). mh_from_tagged_data H tag data) xs"

lemma collision_freeD:
  "\<lbrakk>collision_free H xs; mh_from_tagged_data H t d = mh_from_tagged_data H t' d'; (t, d) \<in> xs; (t', d') \<in> xs\<rbrakk>
    \<Longrightarrow> t = t' \<and> d = d'"
  unfolding collision_free_def inj_on_def by fastforce

lemma path_inputs_append:
  "path_inputs H acc (ps @ qs) = path_inputs H acc ps \<union> path_inputs H (foldl (path_step H) acc ps) qs"
  by (induction ps arbitrary: acc) auto

lemma rows_above_nth:
  "\<lbrakk>rows_above H (R ! 0) (tl R); R \<noteq> []; Suc j < length R\<rbrakk> \<Longrightarrow> rows_above H (R ! j) (drop (Suc j) R)"
proof (induction j arbitrary: R)
  case 0
  then show ?case by (cases R) auto
next
  case (Suc j)
  then obtain r s R' where R: "R = r # s # R'" by (cases R rule: remdups_adj.cases) auto
  with Suc.IH [of "s # R'"] Suc.prems show ?case by simp
qed

lemma rows_above_last: "rows_above H (R ! 0) (tl R) \<Longrightarrow> R \<noteq> [] \<Longrightarrow> length (R ! (length R - 1)) = 1"
proof (induction R)
  case (Cons r R)
  then show ?case by (cases R) auto
qed simp

text \<open>What soundness needs of a hash type: hashes are told apart by equally long byte strings.\<close>

locale fixed_size_hash =
  fixes H :: "'h merkle_hash_func" and size :: nat
  assumes bits_length: "length (mh_bits H h) = size" and bits_inj: "mh_bits H h = mh_bits H h' \<Longrightarrow> h = h'"
begin

lemma node_input_inj: "node_input H a b = node_input H c d \<longleftrightarrow> a = c \<and> b = d"
  using bits_inj by (auto simp: node_input_def bits_length append_eq_append_conv)

lemma node_hash_inj:
  assumes "collision_free H xs" "node_input H a b \<in> xs" "node_input H c d \<in> xs"
    "get_node_hash H a b = get_node_hash H c d"
  shows "a = c \<and> b = d"
proof -
  have "node_input H a b = node_input H c d"
    using collision_freeD [OF assms(1), of MERKLE_PATH_NODE_TAG _ MERKLE_PATH_NODE_TAG] assms(2-4)
    by (simp add: node_input_def get_node_hash_def)
  then show ?thesis by (simp add: node_input_inj)
qed

lemma node_not_leaf:
  assumes "collision_free H xs" "node_input H a b \<in> xs" "(MERKLE_PATH_LEAF_TAG, d) \<in> xs"
  shows "get_node_hash H a b \<noteq> get_leaf_hash H d"
  using collision_freeD [OF assms(1), of MERKLE_PATH_NODE_TAG "mh_bits H a @ mh_bits H b"
      MERKLE_PATH_LEAF_TAG d] assms(2,3)
  by (auto simp: node_input_def get_node_hash_def get_leaf_hash_def MERKLE_PATH_NODE_TAG_def
      MERKLE_PATH_LEAF_TAG_def)

text \<open>
  Going down from the root: if the accumulated hash is in a row, the hash it was computed from is
  in the row below, and at the bottom it cannot be the hash of a node.
\<close>

lemma path_step_below:
  assumes "collision_free H xs" "path_inputs H acc [p] \<subseteq> xs" "rows_above H row (r # rs)"
    "\<forall>a \<in> set row. \<forall>b \<in> set row. node_input H a b \<in> xs" "path_step H acc p \<in> set r"
  shows "acc \<in> set row"
proof -
  obtain a b where ab: "a \<in> set row" "b \<in> set row" "path_step H acc p = get_node_hash H a b"
    using rows_above_node [OF assms(3,5)] .
  show ?thesis
  proof (cases "pp_order p")
    case PathLeft
    then show ?thesis
      using node_hash_inj [OF assms(1), of acc "pp_hash p" a b] assms(2,4) ab by (auto simp: path_step_def)
  next
    case PathRight
    then show ?thesis
      using node_hash_inj [OF assms(1), of "pp_hash p" acc a b] assms(2,4) ab by (auto simp: path_step_def)
  qed
qed

lemma path_descends:
  assumes cf: "collision_free H xs" and rows: "rows_above H (R ! 0) (tl R)" "R \<noteq> []"
    and nodes: "\<And>row. row \<in> set R \<Longrightarrow> \<forall>a \<in> set row. \<forall>b \<in> set row. node_input H a b \<in> xs"
    and leaves: "\<And>h. h \<in> set (R ! 0) \<Longrightarrow> \<exists>d. h = get_leaf_hash H d \<and> (MERKLE_PATH_LEAF_TAG, d) \<in> xs"
  shows "\<lbrakk>path_inputs H acc ps \<subseteq> xs; i < length R; foldl (path_step H) acc ps \<in> set (R ! i)\<rbrakk> \<Longrightarrow>
    length ps \<le> i \<and> acc \<in> set (R ! (i - length ps))"
proof (induction ps arbitrary: i rule: rev_induct)
  case (snoc p qs)
  define m where "m = foldl (path_step H) acc qs"
  have inp: "path_inputs H acc qs \<subseteq> xs" "path_inputs H m [p] \<subseteq> xs"
    using snoc.prems(1) by (simp_all add: path_inputs_append m_def)
  have step: "path_step H m p \<in> set (R ! i)" using snoc.prems(3) by (simp add: m_def)
  show ?case
  proof (cases i)
    case 0
    with leaves step obtain d where "path_step H m p = get_leaf_hash H d" "(MERKLE_PATH_LEAF_TAG, d) \<in> xs"
      by blast
    then show ?thesis
      using node_not_leaf [OF cf] inp(2)
      by (cases "pp_order p") (auto simp: path_step_def)
  next
    case (Suc j)
    then have j: "Suc j < length R" using snoc.prems(2) by simp
    have "m \<in> set (R ! j)"
    proof (rule path_step_below [OF cf inp(2)])
      show "rows_above H (R ! j) (R ! Suc j # drop (Suc (Suc j)) R)"
        unfolding Cons_nth_drop_Suc [OF j] by (rule rows_above_nth [OF rows j])
      show "\<forall>a \<in> set (R ! j). \<forall>b \<in> set (R ! j). node_input H a b \<in> xs" using nodes [of "R ! j"] j by simp
      show "path_step H m p \<in> set (R ! Suc j)" using step Suc by simp
    qed
    then have "length qs \<le> j \<and> acc \<in> set (R ! (j - length qs))"
      using snoc.IH [OF inp(1), of j] j by (simp add: m_def)
    then show ?thesis using Suc by simp
  qed
qed simp

lemma path_sound:
  assumes tree: "merkle_new H data = Some nodes" "data \<noteq> []"
    and ver: "path_verify H d p (merkle_root H nodes)"
    and cf: "collision_free H (tree_inputs H data nodes
      \<union> insert (MERKLE_PATH_LEAF_TAG, d) (path_inputs H (get_leaf_hash H d) p))"
  shows "d \<in> set data"
proof -
  define xs where "xs = tree_inputs H data nodes
    \<union> insert (MERKLE_PATH_LEAF_TAG, d) (path_inputs H (get_leaf_hash H d) p)"
  from merkle_new_total [OF tree(2), of H] tree(1) obtain rs where
    nd: "nodes = force_even (map (get_leaf_hash H) data) # rs" and rs: "rs \<noteq> []"
    and above: "rows_above H (nodes ! 0) (tl nodes)" by auto
  have inputs: "\<forall>a \<in> set row. \<forall>b \<in> set row. node_input H a b \<in> xs" if "row \<in> set nodes" for row
    using that by (auto simp: xs_def tree_inputs_def)
  have leaves: "\<exists>d. h = get_leaf_hash H d \<and> (MERKLE_PATH_LEAF_TAG, d) \<in> xs \<and> d \<in> set data"
    if "h \<in> set (nodes ! 0)" for h
    using that by (auto simp: nd xs_def tree_inputs_def)
  have "length (nodes ! (length nodes - 1)) = 1" using rows_above_last [OF above] nd by simp
  then have root: "merkle_root H nodes \<in> set (nodes ! (length nodes - 1))"
    using nd by (simp add: merkle_root_def)
  have "foldl (path_step H) (get_leaf_hash H d) p = merkle_root H nodes"
    using ver by (auto simp: path_verify_def split: if_splits)
  then have desc: "length p \<le> length nodes - 1 \<and> get_leaf_hash H d \<in> set (nodes ! (length nodes - 1 - length p))"
    using path_descends [OF cf [folded xs_def] above _ inputs, of "get_leaf_hash H d" p "length nodes - 1"]
      root leaves nd by (auto simp: xs_def)
  define i where "i = length nodes - 1 - length p"
  have dx: "(MERKLE_PATH_LEAF_TAG, d) \<in> xs" by (simp add: xs_def)
  show ?thesis
  proof (cases i)
    case 0
    then obtain d' where d': "get_leaf_hash H d = get_leaf_hash H d'" "(MERKLE_PATH_LEAF_TAG, d') \<in> xs"
      "d' \<in> set data" using leaves desc by (auto simp: i_def)
    then have "d = d'"
      using collision_freeD [OF cf [folded xs_def] _ dx d'(2)] by (simp add: get_leaf_hash_def)
    with d'(3) show ?thesis by simp
  next
    case (Suc j)
    then have j: "Suc j < length nodes" "get_leaf_hash H d \<in> set (nodes ! Suc j)" "j < length nodes"
      using desc by (auto simp: i_def)
    have "rows_above H (nodes ! j) (nodes ! Suc j # drop (Suc (Suc j)) nodes)"
      unfolding Cons_nth_drop_Suc [OF j(1)] by (rule rows_above_nth [OF above _ j(1)]) (simp add: nd)
    from rows_above_node [OF this j(2)] obtain a b where
      ab: "a \<in> set (nodes ! j)" "b \<in> set (nodes ! j)" "get_leaf_hash H d = get_node_hash H a b" .
    have "node_input H a b \<in> xs" using inputs [of "nodes ! j"] ab j(3) by simp
    from node_not_leaf [OF cf [folded xs_def] this dx] ab(3) show ?thesis by simp
  qed
qed

end

lemma bytes20_length [simp]: "length (bytes20_bits h) = 20"
  using bytes20_bits [of h] by simp

lemma bytes32_length [simp]: "length (bytes32_bits h) = 32"
  using bytes32_bits [of h] by simp

interpretation hash160: fixed_size_hash "hash160_func sha256 ripemd160" 20 for sha256 ripemd160
  by unfold_locales (simp_all add: hash160_func_def bytes20_bits_inject)

interpretation sha256_sum: fixed_size_hash "sha256_sum_func sha256" 32 for sha256
  by unfold_locales (simp_all add: sha256_sum_func_def bytes32_bits_inject)

interpretation double_sha256: fixed_size_hash "double_sha256_func sha256" 32 for sha256
  by unfold_locales (simp_all add: double_sha256_func_def bytes32_bits_inject)

interpretation sha512_trunc256: fixed_size_hash "sha512_trunc256_func sha512_256" 32 for sha512_256
  by unfold_locales (simp_all add: sha512_trunc256_func_def bytes32_bits_inject)

lemma merkle_path_exists:
  assumes "merkle_new H data = Some nodes" "d \<in> set data"
  shows "\<exists>p. merkle_path H nodes d = Ok (Some p) \<and> path_verify H d p (merkle_root H nodes)"
proof -
  have "data \<noteq> []" using assms(2) by auto
  from merkle_new_total [OF this, of H] assms(1) obtain rs where
    nd: "nodes = force_even (map (get_leaf_hash H) data) # rs" and rs: "rs \<noteq> []"
    and above: "rows_above H (force_even (map (get_leaf_hash H) data)) rs" by auto
  let ?h = "get_leaf_hash H d"
  have "?h \<in> set (nodes ! 0)" using assms(2) nd by simp
  then obtain i where i: "find_index (\<lambda>x. x = ?h) (nodes ! 0) 0 = Some i"
    using find_index_None [of "\<lambda>x. x = ?h" "nodes ! 0" 0]
    by (cases "find_index (\<lambda>x. x = ?h) (nodes ! 0) 0") auto
  then have "i < length (nodes ! 0)" "nodes ! 0 ! i = ?h" by (simp_all add: find_index_spec)
  then obtain p where "merkle_path_loop H nodes [0..<length nodes - 1] ?h i = Ok (Some p)"
    "length p = length rs" "foldl (path_step H) ?h p = merkle_root H nodes"
    using merkle_path_loop_ok [of H "nodes ! 0" rs nodes "[]" i ?h] above nd by auto
  then show ?thesis
    using i nd rs
    by (auto simp: merkle_path_def find_hash_index_def path_verify_def Let_def Suc_le_eq)
qed

section \<open>Properties\<close>

text \<open>C35: Building a Merkle tree ends on every input, whatever the hash, with an even non-empty row
  at the bottom and a single root at the top.\<close>

theorem merkle_new_terminates:
  "\<exists>nodes. merkle_new H data = Some nodes \<and> (data = [] \<longrightarrow> nodes = [])
    \<and> (data \<noteq> [] \<longrightarrow> even (length (hd nodes)) \<and> length data \<le> length (hd nodes)
        \<and> 2 \<le> length nodes \<and> length (last nodes) = 1)"
proof (cases "data = []")
  case False
  from merkle_new_total [OF this, of H] obtain nodes rs where
    nd: "merkle_new H data = Some nodes" "nodes = force_even (map (get_leaf_hash H) data) # rs"
    and rs: "rs \<noteq> []" and above: "rows_above H (nodes ! 0) (tl nodes)" by auto
  have "length (last nodes) = 1"
    using rows_above_last [OF above] nd(2) by (simp add: last_conv_nth del: last.simps)
  moreover have "even (length (hd nodes))" "length data \<le> length (hd nodes)" "2 \<le> length nodes"
    using rs nd(2) by (simp_all add: length_force_even Suc_le_eq)
  ultimately show ?thesis using nd(1) False by simp
qed (simp add: merkle_new_def)

theorem merkle_new_terminates_witness:
  "\<exists>nodes. merkle_new \<lparr>mh_empty = 0, mh_from_tagged_data = \<lambda>tag data. 16 * tag + sum_list data, mh_bits = \<lambda>h. [h]\<rparr>
      [[1], [2], [3 :: u8]] = Some nodes \<and> 2 \<le> length nodes"
  using merkle_new_terminates [of "\<lparr>mh_empty = 0, mh_from_tagged_data = \<lambda>tag data. 16 * tag + sum_list data, mh_bits = \<lambda>h. [h]\<rparr>"
      "[[1], [2], [3 :: u8]]"] by auto

text \<open>C13: Every datum of a Merkle tree has a path, computed without panicking, and the path verifies
  against the root, whatever the hash function.\<close>

theorem merkle_path_complete:
  assumes "merkle_new H data = Some nodes" "d \<in> set data"
  shows "\<exists>p. merkle_path H nodes d = Ok (Some p) \<and> path_verify H d p (merkle_root H nodes)"
  using assms by (rule merkle_path_exists)

theorem merkle_path_complete_witness:
  "let H = \<lparr>mh_empty = 0, mh_from_tagged_data = \<lambda>tag data. 16 * tag + sum_list data, mh_bits = \<lambda>h. [h]\<rparr>
   in \<exists>nodes p. merkle_new H [[1], [2 :: u8]] = Some nodes \<and> merkle_path H nodes [2] = Ok (Some p)
      \<and> path_verify H [2] p (merkle_root H nodes)"
proof -
  let ?H = "\<lparr>mh_empty = 0, mh_from_tagged_data = \<lambda>tag data. 16 * tag + sum_list data, mh_bits = \<lambda>h. [h]\<rparr>"
  from merkle_new_total [of "[[1], [2 :: u8]]" ?H] obtain nodes
    where "merkle_new ?H [[1], [2 :: u8]] = Some nodes" by auto
  with merkle_path_complete [OF this, of "[2]"] show ?thesis by auto
qed

text \<open>C14: Verification is sound for the hash of the transaction trees: if a path for a datum verifies
  against the root of a non-empty tree, the datum is one of the tree's, unless two of the tagged
  byte strings hashed to build the tree and to check the path have the same digest.\<close>

theorem merkle_path_sound:
  assumes "merkle_new (sha512_trunc256_func dg) data = Some nodes" "data \<noteq> []"
    and "path_verify (sha512_trunc256_func dg) d p (merkle_root (sha512_trunc256_func dg) nodes)"
    and "collision_free (sha512_trunc256_func dg) (tree_inputs (sha512_trunc256_func dg) data nodes
      \<union> insert (MERKLE_PATH_LEAF_TAG, d)
          (path_inputs (sha512_trunc256_func dg) (get_leaf_hash (sha512_trunc256_func dg) d) p))"
  shows "d \<in> set data"
  using assms by (rule sha512_trunc256.path_sound)

definition toy_digest :: "u8 list \<Rightarrow> bytes32" where
  "toy_digest xs = Bytes32
     ((100 * xs ! 0 + xs ! 1 + (if length xs > 33 then 7 * xs ! 33 else 0)) # replicate 31 0)"

lemma toy_digest_bits: "bytes32_bits (toy_digest xs) =
  (100 * xs ! 0 + xs ! 1 + (if length xs > 33 then 7 * xs ! 33 else 0)) # replicate 31 0"
  by (simp add: toy_digest_def Bytes32_inverse)

lemma toy_digest_eq: "toy_digest xs = toy_digest ys \<longleftrightarrow>
  100 * xs ! 0 + xs ! 1 + (if length xs > 33 then 7 * xs ! 33 else 0) =
  100 * ys ! 0 + ys ! 1 + (if length ys > 33 then 7 * ys ! 33 else 0)"
  by (simp add: bytes32_bits_inject [symmetric] toy_digest_bits)

theorem merkle_path_sound_witness:
  "\<exists>nodes p. merkle_new (sha512_trunc256_func toy_digest) [[1], [2]] = Some nodes
    \<and> path_verify (sha512_trunc256_func toy_digest) [1] p (merkle_root (sha512_trunc256_func toy_digest) nodes)
    \<and> [1] \<in> set [[1], [2 :: u8]]"
proof -
  let ?H = "sha512_trunc256_func toy_digest"
  let ?a = "toy_digest [0, 1]" and ?b = "toy_digest [0, 2]"
  let ?r = "toy_digest (1 # bytes32_bits ?a @ bytes32_bits ?b)"
  let ?p = "[\<lparr>pp_order = PathLeft, pp_hash = ?b\<rparr>]"
  have nodes: "merkle_new ?H [[1], [2]] = Some [[?a, ?b], [?r]]"
    by (simp add: merkle_new_def force_even_def get_leaf_hash_def sha512_trunc256_func_def
        MERKLE_PATH_LEAF_TAG_def MERKLE_PATH_NODE_TAG_def merkle_rows.simps next_row_def get_node_hash_def)
  have ver: "path_verify ?H [1] ?p (merkle_root ?H [[?a, ?b], [?r]])"
    by (simp add: path_verify_def merkle_root_def path_step_def get_leaf_hash_def get_node_hash_def
        sha512_trunc256_func_def MERKLE_PATH_LEAF_TAG_def MERKLE_PATH_NODE_TAG_def)
  have cf: "collision_free ?H (tree_inputs ?H [[1], [2]] [[?a, ?b], [?r]]
      \<union> insert (MERKLE_PATH_LEAF_TAG, [1]) (path_inputs ?H (get_leaf_hash ?H [1]) ?p))"
    by (auto simp: collision_free_def inj_on_def tree_inputs_def node_input_def get_leaf_hash_def
        sha512_trunc256_func_def MERKLE_PATH_LEAF_TAG_def MERKLE_PATH_NODE_TAG_def toy_digest_eq toy_digest_bits
        nth_append)
  show ?thesis
    using merkle_path_sound [OF nodes _ ver cf] nodes ver by blast
qed

end
