(* ===== verification/Radix.thy ===== *)
theory Radix
  imports Prelude
begin

text \<open>
  Positional notation, shared by the base-32 and base-58 address encodings: the number a list of
  digits stands for (least significant digit first), the canonical list of a number, and the
  contract of an alphabet, by which digits are printed and read.
\<close>

fun lval :: "nat \<Rightarrow> nat list \<Rightarrow> nat" where
  "lval B [] = 0"
| "lval B (d # ds) = d + B * lval B ds"

definition digits :: "nat \<Rightarrow> nat list \<Rightarrow> bool" where
  "digits B ds \<longleftrightarrow> list_all (\<lambda>d. d < B) ds"

text \<open>Popping the trailing occurrences of \<open>z\<close> off a vector.\<close>

definition pop_while :: "'a \<Rightarrow> 'a list \<Rightarrow> 'a list" where
  "pop_while z xs = rev (dropWhile (\<lambda>x. x = z) (rev xs))"

definition canonical :: "nat list \<Rightarrow> bool" where
  "canonical ds \<longleftrightarrow> ds = [] \<or> last ds \<noteq> 0"

lemma digits_simps [simp]:
  "digits B []" "digits B (d # ds) \<longleftrightarrow> d < B \<and> digits B ds"
  "digits B (xs @ ys) \<longleftrightarrow> digits B xs \<and> digits B ys" "digits B (rev xs) \<longleftrightarrow> digits B xs"
  "digits B (replicate n d) \<longleftrightarrow> n = 0 \<or> d < B"
  by (auto simp: digits_def list_all_iff)

lemma lval_append: "lval B (xs @ ys) = lval B xs + B ^ length xs * lval B ys"
  by (induction xs) (auto simp: algebra_simps)

lemma lval_replicate_zero [simp]: "lval B (replicate n 0) = 0"
  by (induction n) auto

lemma lval_less: "\<lbrakk>digits B ds; 0 < B\<rbrakk> \<Longrightarrow> lval B ds < B ^ length ds"
proof (induction ds)
  case (Cons d ds)
  then have "d + B * lval B ds < B + B * lval B ds" "lval B ds + 1 \<le> B ^ length ds" by auto
  moreover from mult_le_mono2 [OF this(2), of B] have "B + B * lval B ds \<le> B * B ^ length ds"
    by (simp add: algebra_simps)
  ultimately show ?case by simp
qed simp

lemma pop_while_append: "pop_while z xs @ replicate (length xs - length (pop_while z xs)) z = xs"
proof -
  have "dropWhile (\<lambda>x. x = z) ys = drop (length (takeWhile (\<lambda>x. x = z) ys)) ys" for ys
    by (simp add: dropWhile_eq_drop)
  moreover have "takeWhile (\<lambda>x. x = z) ys = replicate (length (takeWhile (\<lambda>x. x = z) ys)) z" for ys
    by (induction ys) auto
  ultimately have "replicate (length ys - length (dropWhile (\<lambda>x. x = z) ys)) z
      @ dropWhile (\<lambda>x. x = z) ys = ys" for ys
    by (metis (no_types, lifting) add_diff_cancel_right' length_append takeWhile_dropWhile_id)
  from arg_cong [OF this [of "rev xs"], of rev] show ?thesis by (simp add: pop_while_def)
qed

lemma pop_while_canonical: "canonical (pop_while 0 xs)"
  unfolding canonical_def pop_while_def
  using hd_dropWhile [of "\<lambda>x. x = 0" "rev xs"] by (metis last_rev rev_is_Nil_conv)

lemma lval_pop_while [simp]: "lval B (pop_while 0 xs) = lval B xs"
proof -
  have "lval B xs = lval B (pop_while 0 xs @ replicate (length xs - length (pop_while 0 xs)) 0)"
    by (simp only: pop_while_append)
  then show ?thesis by (simp add: lval_append)
qed

lemma digits_pop_while: "digits B xs \<Longrightarrow> digits B (pop_while 0 xs)"
  by (auto simp: digits_def list_all_iff pop_while_def dest: set_dropWhileD)

lemma pop_while_map: "(\<And>x. x \<in> set xs \<Longrightarrow> f x = f z \<longleftrightarrow> x = z) \<Longrightarrow> pop_while (f z) (map f xs) = map f (pop_while z xs)"
proof -
  assume *: "\<And>x. x \<in> set xs \<Longrightarrow> f x = f z \<longleftrightarrow> x = z"
  have "dropWhile (\<lambda>x. x = f z) (map f ys) = map f (dropWhile (\<lambda>x. x = z) ys)" if "set ys \<subseteq> set xs" for ys
    using that by (induction ys) (auto simp: *)
  from this [of "rev xs"] show ?thesis by (simp add: pop_while_def rev_map [symmetric])
qed

lemma canonical_zero: "\<lbrakk>canonical ds; lval B ds = 0; 0 < B\<rbrakk> \<Longrightarrow> ds = []"
proof (induction ds)
  case (Cons d ds)
  then show ?case by (cases "ds = []") (auto simp: canonical_def)
qed simp

text \<open>A number has one canonical list of digits.\<close>

lemma canonical_unique:
  "\<lbrakk>digits B xs; digits B ys; canonical xs; canonical ys; lval B xs = lval B ys; 0 < B\<rbrakk> \<Longrightarrow> xs = ys"
proof (induction xs arbitrary: ys)
  case Nil
  then show ?case using canonical_zero [of ys B] by simp
next
  case (Cons x xs)
  then obtain y ys' where ys: "ys = y # ys'" using canonical_zero [of "x # xs" B] by (cases ys) auto
  have "(x + B * lval B xs) mod B = (y + B * lval B ys') mod B"
    "(x + B * lval B xs) div B = (y + B * lval B ys') div B"
    using Cons.prems(5) by (simp_all add: ys)
  then have "x = y" "lval B xs = lval B ys'" using Cons.prems by (auto simp: ys)
  moreover have "canonical xs" "canonical ys'"
    using Cons.prems(3,4) by (auto simp: ys canonical_def split: if_splits)
  ultimately show ?case using Cons by (simp add: ys)
qed

lemma canonical_ge: "\<lbrakk>canonical cs; cs \<noteq> []; 0 < C\<rbrakk> \<Longrightarrow> C ^ (length cs - 1) \<le> lval C cs"
proof (induction cs)
  case (Cons c cs)
  show ?case
  proof (cases "cs = []")
    case False
    then have "C ^ (length cs - 1) \<le> lval C cs" using Cons by (simp add: canonical_def)
    then have "C * C ^ (length cs - 1) \<le> C * lval C cs" by (rule mult_le_mono2)
    also have "C * C ^ (length cs - 1) = C ^ length cs"
      using False by (cases cs) simp_all
    finally show ?thesis by simp
  qed (use Cons in \<open>simp add: canonical_def\<close>)
qed simp

lemma canonical_length:
  assumes "canonical cs" "lval C cs = lval B ds" "digits B ds" "1 < B" "B \<le> C"
  shows "length cs \<le> length ds"
proof (cases "cs = []")
  case False
  have "C ^ (length cs - 1) < B ^ length ds"
    using canonical_ge [OF assms(1) False, of C] lval_less [OF assms(3)] assms(2,4,5) by simp
  also have "\<dots> \<le> C ^ length ds" using assms(5) by (simp add: power_mono)
  finally have "length cs - 1 < length ds" using assms(4,5) power_less_imp_less_exp by fastforce
  then show ?thesis using False by (cases cs) auto
qed simp

text \<open>
  Canonical digits after leading zeros. A list in big-endian order splits into its leading zeros
  and a canonical rest.
\<close>

definition zeros :: "nat list \<Rightarrow> nat" where
  "zeros ds = length (takeWhile (\<lambda>d. d = 0) ds)"

lemma zeros_split: "rev (pop_while 0 (rev ds)) = drop (zeros ds) ds" "ds = replicate (zeros ds) 0 @ drop (zeros ds) ds"
proof -
  show "rev (pop_while 0 (rev ds)) = drop (zeros ds) ds"
    by (simp add: pop_while_def zeros_def dropWhile_eq_drop)
  have "takeWhile (\<lambda>d. d = 0) ds = replicate (zeros ds) 0"
    unfolding zeros_def by (induction ds) auto
  then show "ds = replicate (zeros ds) 0 @ drop (zeros ds) ds"
    by (metis takeWhile_dropWhile_id dropWhile_eq_drop zeros_def)
qed

lemma zeros_canonical: "canonical (rev ds) \<Longrightarrow> zeros (replicate n 0 @ ds) = n"
  by (induction n) (cases ds; auto simp: zeros_def canonical_def)+

text \<open>
  Converting between bases keeps the number and the count of leading zeros; it is undone by the
  conversion back.
\<close>

lemma radix_round_trip:
  assumes "digits B ds" "0 < B" "0 < C" "es = replicate (zeros ds) 0 @ rev cs"
    "digits C cs" "canonical cs" "lval C cs = lval B (rev ds)"
    and "digits B bs" "canonical bs" "lval B bs = lval C (rev es)"
  shows "replicate (zeros es) 0 @ rev bs = ds"
proof -
  have "lval B bs = lval B (rev ds)" using assms by (simp add: lval_append)
  then have "bs = pop_while 0 (rev ds)"
    using assms by (intro canonical_unique [of B]) (auto simp: pop_while_canonical digits_pop_while)
  moreover have "zeros es = zeros ds" using assms zeros_canonical [of "rev cs"] by simp
  ultimately show ?thesis using zeros_split [of ds] by simp
qed

text \<open>An alphabet: the character of each digit, and the digit of a character.\<close>

locale alphabet =
  fixes chars :: "u8 list" and digit :: "u8 \<Rightarrow> u8 option"
  assumes digit_char: "i < length chars \<Longrightarrow> digit (chars ! i) = Some (of_nat i)"
    and small: "length chars \<le> 128"
    and ascii: "list_all (\<lambda>c. c < 128) chars"
begin

lemma char_inject: "\<lbrakk>i < length chars; j < length chars\<rbrakk> \<Longrightarrow> chars ! i = chars ! j \<longleftrightarrow> i = j"
proof
  assume *: "i < length chars" "j < length chars" "chars ! i = chars ! j"
  then have "(of_nat i :: u8) = of_nat j" using digit_char by (metis option.inject)
  then have "unat (of_nat i :: u8) = unat (of_nat j :: u8)" by simp
  with * small show "i = j" by (simp add: unat_of_nat)
qed simp

lemma digits_of_chars: "digits (length chars) ds \<Longrightarrow>
  map digit (map (\<lambda>d. chars ! d) ds) = map (\<lambda>d. Some (of_nat d)) ds"
  by (induction ds) (auto simp: digit_char)

lemma pop_chars: "\<lbrakk>digits (length chars) ds; chars \<noteq> []\<rbrakk> \<Longrightarrow>
  pop_while (chars ! 0) (map (\<lambda>d. chars ! d) ds) = map (\<lambda>d. chars ! d) (pop_while 0 ds)"
  by (rule pop_while_map) (auto simp: digits_def list_all_iff char_inject)

lemma char_ascii: "i < length chars \<Longrightarrow> chars ! i < 128"
  using ascii by (simp add: list_all_length)

end

end
