(* ===== verification/C32.thy ===== *)
theory C32
  imports Strings Radix Merkle
begin

text \<open>
  The Crockford base-32 address encoding of \<open>stacks-common/src/address/c32.rs\<close> and the older
  implementation it replaced (\<open>c32_old.rs\<close>). Strings are byte strings; a slice that does not start
  on a character boundary panics, as in Rust. SHA-256 is a parameter.
\<close>

unbundle bit_operations_syntax

datatype address_error =
    InvalidCrockford32
  | InvalidVersion u8
  | EmptyData
  | BadByte u8
  | BadChecksum u32 u32
  | InvalidLength nat
  | TooShort nat
  | OtherAddressError string

definition C32_CHARACTERS :: "u8 list" where
  "C32_CHARACTERS = string_to_bytes ''0123456789ABCDEFGHJKMNPQRSTVWXYZ''"

definition C32_CHARACTERS_MAP :: "u8 option list" where
  "C32_CHARACTERS_MAP =
     replicate 48 None
     @ map Some [0, 1, 2, 3, 4, 5, 6, 7, 8, 9]
     @ replicate 7 None
     @ map Some [10, 11, 12, 13, 14, 15, 16, 17, 1, 18, 19, 1, 20, 21, 0, 22, 23, 24, 25, 26]
     @ [None]
     @ map Some [27, 28, 29, 30, 31]
     @ replicate 6 None
     @ map Some [10, 11, 12, 13, 14, 15, 16, 17, 1, 18, 19, 1, 20, 21, 0, 22, 23, 24, 25, 26]
     @ [None]
     @ map Some [27, 28, 29, 30, 31]
     @ replicate 5 None"

definition c32_char :: "u8 \<Rightarrow> (address_error, u8) result" where
  "c32_char i = (if unat i < length C32_CHARACTERS then Ok (C32_CHARACTERS ! unat i) else Panic)"

definition c32_digit :: "u8 \<Rightarrow> u8 option" where
  "c32_digit x = (if unat x < length C32_CHARACTERS_MAP then C32_CHARACTERS_MAP ! unat x else None)"

text \<open>\<open>String::from_utf8(\<dots>).unwrap()\<close>.\<close>

definition string_from_utf8 :: "u8 list \<Rightarrow> (address_error, string) result" where
  "string_from_utf8 bs = (if utf8_split bs = None then Panic else Ok (bytes_to_string bs))"

definition is_ascii :: "string \<Rightarrow> bool" where
  "is_ascii s \<longleftrightarrow> list_all (\<lambda>b. b < 0x80) (string_to_bytes s)"

fun c32_encode_loop :: "u8 list \<Rightarrow> u8 list \<Rightarrow> u8 \<Rightarrow> nat \<Rightarrow> (address_error, u8 list \<times> u8 \<times> nat) result" where
  "c32_encode_loop [] result carry carry_bits = Ok (result, carry, carry_bits)"
| "c32_encode_loop (current_value # vs) result carry carry_bits =
     (let low_bits_to_take = 5 - carry_bits;
          low_bits = current_value AND (push_bit low_bits_to_take 1 - 1);
          c32_value = push_bit carry_bits low_bits + carry
      in and_then (c32_char c32_value) (\<lambda>ch.
         let result = result @ [ch];
             carry_bits = (8 + carry_bits) - 5;
             carry = drop_bit (8 - carry_bits) current_value
         in if carry_bits \<ge> 5 then
              and_then (c32_char (carry AND (push_bit 5 1 - 1))) (\<lambda>ch.
              c32_encode_loop vs (result @ [ch]) (drop_bit 5 carry) (carry_bits - 5))
            else c32_encode_loop vs result carry carry_bits))"

definition c32_encode :: "u8 list \<Rightarrow> (address_error, string) result" where
  "c32_encode input_bytes =
     and_then (c32_encode_loop (rev input_bytes) [] 0 0) (\<lambda>(result, carry, carry_bits).
     and_then (if carry_bits > 0 then map_ok (\<lambda>ch. result @ [ch]) (c32_char carry) else Ok result)
       (\<lambda>result.
     let result = pop_while (C32_CHARACTERS ! 0) result;
         result = result @ map (\<lambda>_. C32_CHARACTERS ! 0) (takeWhile (\<lambda>v. v = 0) input_bytes)
     in string_from_utf8 (rev result)))"

fun c32_decode_loop :: "u8 list \<Rightarrow> u8 list \<Rightarrow> u16 \<Rightarrow> nat \<Rightarrow> u8 list \<times> u16 \<times> nat" where
  "c32_decode_loop [] result carry carry_bits = (result, carry, carry_bits)"
| "c32_decode_loop (current_5bit # ds) result carry carry_bits =
     (let carry = carry + push_bit carry_bits (ucast current_5bit);
          carry_bits = carry_bits + 5
      in if carry_bits \<ge> 8 then
           c32_decode_loop ds (result @ [ucast (carry AND (push_bit 8 1 - 1))])
             (drop_bit 8 carry) (carry_bits - 8)
         else c32_decode_loop ds result carry carry_bits)"

definition c32_decode_ascii :: "string \<Rightarrow> (address_error, u8 list) result" where
  "c32_decode_ascii input_str =
     (let iter_c32_digits = List.map_filter c32_digit (rev (string_to_bytes input_str)) in
      if length input_str \<noteq> length iter_c32_digits then Err InvalidCrockford32
      else
        let (result, carry, carry_bits) = c32_decode_loop iter_c32_digits [] 0 0;
            result = (if carry_bits > 0 then result @ [ucast carry] else result);
            result = pop_while 0 result;
            result = result @ map (\<lambda>_. 0) (takeWhile (\<lambda>v. v = 0) (rev iter_c32_digits))
        in Ok (rev result))"

definition c32_decode :: "string \<Rightarrow> (address_error, u8 list) result" where
  "c32_decode input_str =
     (if \<not> is_ascii input_str then Err InvalidCrockford32 else c32_decode_ascii input_str)"

definition double_sha256_checksum :: "(u8 list \<Rightarrow> bytes32) \<Rightarrow> u8 list \<Rightarrow> u8 list" where
  "double_sha256_checksum sha256 data = take 4 (bytes32_bits (sha256 (bytes32_bits (sha256 data))))"

definition c32_check_encode :: "(u8 list \<Rightarrow> bytes32) \<Rightarrow> u8 \<Rightarrow> u8 list \<Rightarrow> (address_error, string) result" where
  "c32_check_encode sha256 version data =
     (if version \<ge> 32 then Err (InvalidVersion version)
      else
        let check_data = [version] @ data;
            checksum = double_sha256_checksum sha256 check_data;
            encoding_data = data @ checksum
        in and_then (c32_encode encoding_data) (\<lambda>c32_string.
           and_then (c32_char version) (\<lambda>version_char.
           string_from_utf8 (version_char # string_to_bytes c32_string))))"

text \<open>The 32-bit number printed for a checksum, least significant byte first.\<close>

definition sum_u32 :: "u8 list \<Rightarrow> u32" where
  "sum_u32 s = ucast (s ! 0) OR push_bit 8 (ucast (s ! 1)) OR push_bit 16 (ucast (s ! 2))
     OR push_bit 24 (ucast (s ! 3))"

definition c32_check_decode :: "(u8 list \<Rightarrow> bytes32) \<Rightarrow> string \<Rightarrow> (address_error, u8 \<times> u8 list) result" where
  "c32_check_decode sha256 s =
     (if \<not> is_ascii s then Err InvalidCrockford32
      else if length s < 2 then Err InvalidCrockford32
      else
        and_then (c32_decode_ascii (drop 1 s)) (\<lambda>data_sum_bytes.
        if length data_sum_bytes < 5 then Err InvalidCrockford32
        else
          let data_bytes = take (length data_sum_bytes - 4) data_sum_bytes;
              expected_sum = drop (length data_sum_bytes - 4) data_sum_bytes
          in and_then (c32_decode_ascii (take 1 s)) (\<lambda>check_data.
             let check_data = check_data @ data_bytes;
                 computed_sum = double_sha256_checksum sha256 check_data
             in if computed_sum \<noteq> expected_sum then
                  Err (BadChecksum (sum_u32 computed_sum) (sum_u32 expected_sum))
                else Ok (check_data ! 0, data_bytes))))"

text \<open>\<open>&s[1..]\<close> on a string longer than one byte.\<close>

definition slice_from_1 :: "string \<Rightarrow> (address_error, string) result" where
  "slice_from_1 s = (if utf8_cont (string_to_bytes s ! 1) then Panic else Ok (drop 1 s))"

definition c32_address_decode :: "(u8 list \<Rightarrow> bytes32) \<Rightarrow> string \<Rightarrow> (address_error, u8 \<times> u8 list) result" where
  "c32_address_decode sha256 s =
     (if length s \<le> 5 then Err InvalidCrockford32
      else and_then (slice_from_1 s) (c32_check_decode sha256))"

definition c32_address :: "(u8 list \<Rightarrow> bytes32) \<Rightarrow> u8 \<Rightarrow> u8 list \<Rightarrow> (address_error, string) result" where
  "c32_address sha256 version data =
     map_ok (\<lambda>c32_string. ''S'' @ c32_string) (c32_check_encode sha256 version data)"

section \<open>The older implementation\<close>

definition ascii_upper :: "char \<Rightarrow> char" where
  "ascii_upper c =
     (case map_of (zip ''abcdefghijklmnopqrstuvwxyz'' ''ABCDEFGHIJKLMNOPQRSTUVWXYZ'') c of
        Some u \<Rightarrow> u | None \<Rightarrow> c)"

text \<open>\<open>to_uppercase\<close> on an ASCII string, and the three single-character replacements.\<close>

definition c32_normalize :: "string \<Rightarrow> string" where
  "c32_normalize input_str =
     map (\<lambda>c. if c = CHR ''I'' then CHR ''1'' else c)
       (map (\<lambda>c. if c = CHR ''L'' then CHR ''1'' else c)
         (map (\<lambda>c. if c = CHR ''O'' then CHR ''0'' else c)
           (map ascii_upper input_str)))"

definition C32_CHARACTERS_old :: string where
  "C32_CHARACTERS_old = ''0123456789ABCDEFGHJKMNPQRSTVWXYZ''"

definition c32_decode_old :: "string \<Rightarrow> (address_error, u8 list) result" where
  "c32_decode_old input_str =
     (if \<not> is_ascii input_str then Err InvalidCrockford32
      else
        let opts = map (\<lambda>x. find_index (\<lambda>c. c = x) C32_CHARACTERS_old 0)
                     (rev (c32_normalize input_str));
            iter_c32_digits = List.map_filter (\<lambda>x. x) opts
        in if length iter_c32_digits \<noteq> length opts then Err InvalidCrockford32
           else
             let (result, carry, carry_bits) = c32_decode_loop (map of_nat iter_c32_digits) [] 0 0;
                 result = (if carry_bits > 0 then result @ [ucast carry] else result);
                 result = pop_while 0 result;
                 result = result @ map (\<lambda>_. 0) (takeWhile (\<lambda>c. c = CHR ''0'') input_str)
             in Ok (rev result))"

definition c32_check_decode_old :: "(u8 list \<Rightarrow> bytes32) \<Rightarrow> string \<Rightarrow> (address_error, u8 \<times> u8 list) result" where
  "c32_check_decode_old sha256 s =
     (if \<not> is_ascii s then Err InvalidCrockford32
      else if length s < 2 then Err InvalidCrockford32
      else
        let check_data = c32_normalize s in
        and_then (c32_decode_old (drop 1 check_data)) (\<lambda>data_sum_bytes.
        if length data_sum_bytes < 5 then Err InvalidCrockford32
        else
          let data_bytes = take (length data_sum_bytes - 4) data_sum_bytes;
              expected_sum = drop (length data_sum_bytes - 4) data_sum_bytes
          in and_then (c32_decode_old (take 1 check_data)) (\<lambda>check_data.
             let check_data = check_data @ data_bytes;
                 computed_sum = double_sha256_checksum sha256 check_data
             in if computed_sum \<noteq> expected_sum then
                  Err (BadChecksum (sum_u32 computed_sum) (sum_u32 expected_sum))
                else Ok (check_data ! 0, data_bytes))))"

definition c32_address_decode_old :: "(u8 list \<Rightarrow> bytes32) \<Rightarrow> string \<Rightarrow> (address_error, u8 \<times> u8 list) result" where
  "c32_address_decode_old sha256 s =
     (if length s \<le> 5 then Err InvalidCrockford32
      else and_then (slice_from_1 s) (c32_check_decode_old sha256))"


section \<open>Encoding and decoding as change of base\<close>

lemma length_C32 [simp]: "length C32_CHARACTERS = 32" "length C32_CHARACTERS_MAP = 128"
  by (simp_all add: C32_CHARACTERS_def C32_CHARACTERS_MAP_def string_to_bytes_def)

lemma c32_table: "list_all (\<lambda>i. c32_digit (C32_CHARACTERS ! i) = Some (of_nat i)) [0..<32]"
  by code_simp

lemma c32_ascii: "list_all (\<lambda>c. c < 128) C32_CHARACTERS"
  by code_simp

interpretation c32: alphabet C32_CHARACTERS c32_digit
  using c32_table c32_ascii by unfold_locales (auto simp: list_all_iff)

lemma c32_digit_less: "c32_digit x = Some d \<Longrightarrow> unat d < 32"
proof -
  have "list_all (\<lambda>d. case d of Some d \<Rightarrow> unat d < 32 | None \<Rightarrow> True) C32_CHARACTERS_MAP" by code_simp
  then show "c32_digit x = Some d \<Longrightarrow> unat d < 32"
    by (auto simp: c32_digit_def list_all_length split: if_splits option.splits)
qed

lemma c32_char_nat: "unat i < 32 \<Longrightarrow> c32_char i = Ok (C32_CHARACTERS ! unat i)"
  by (simp add: c32_char_def)

lemma low_mask: "(v :: 'a :: len word) AND (push_bit n 1 - 1) = take_bit n v"
  by (simp add: take_bit_eq_mask mask_eq_exp_minus_1 push_bit_eq_mult)

lemma unat_take: "unat (take_bit n v) = unat v mod 2 ^ n"
  by (simp only: unsigned_take_bit_eq) (simp add: take_bit_eq_mod)

lemma unat_drop: "unat (drop_bit n v) = unat v div 2 ^ n"
  by (simp only: unsigned_drop_bit_eq) (simp add: drop_bit_eq_div flip: unsigned_take_bit_eq)

text \<open>One byte of the encoder: the digit taken with the carry, and what is left.\<close>

lemma c32_value_nat:
  assumes "cb \<le> 4" "unat (carry :: u8) < 2 ^ cb"
  shows "unat (push_bit cb (take_bit (5 - cb) v) + carry) = unat carry + 2 ^ cb * (unat v mod 2 ^ (5 - cb))"
    "unat carry + 2 ^ cb * (unat v mod 2 ^ (5 - cb)) < 32"
proof -
  have "unat v mod 2 ^ (5 - cb) + 1 \<le> 2 ^ (5 - cb)" by (simp add: Suc_le_eq)
  then have "2 ^ cb * (unat v mod 2 ^ (5 - cb) + 1) \<le> 2 ^ cb * 2 ^ (5 - cb)" by (rule mult_le_mono2)
  also have "(2 :: nat) ^ cb * 2 ^ (5 - cb) = 32" using assms(1) by (simp flip: power_add)
  finally show *: "unat carry + 2 ^ cb * (unat v mod 2 ^ (5 - cb)) < 32"
    using assms(2) by (simp add: algebra_simps)
  have "push_bit cb (take_bit (5 - cb) v) = of_nat (2 ^ cb * (unat v mod 2 ^ (5 - cb)))"
    by (simp add: push_bit_eq_mult unat_take [symmetric] mult.commute)
  then have "push_bit cb (take_bit (5 - cb) v) + carry
      = of_nat (unat carry + 2 ^ cb * (unat v mod 2 ^ (5 - cb)))" by simp
  then show "unat (push_bit cb (take_bit (5 - cb) v) + carry)
      = unat carry + 2 ^ cb * (unat v mod 2 ^ (5 - cb))"
    using * by (simp add: unat_of_nat del: of_nat_add of_nat_mult)
qed

lemma c32_encode_loop_Cons:
  "c32_encode_loop (v # vs) result carry cb =
     and_then (c32_char (push_bit cb (take_bit (5 - cb) v) + carry)) (\<lambda>ch.
     if 8 + cb - 5 \<ge> 5 then
       and_then (c32_char (take_bit 5 (drop_bit (8 - (8 + cb - 5)) v))) (\<lambda>ch'.
       c32_encode_loop vs ((result @ [ch]) @ [ch']) (drop_bit 5 (drop_bit (8 - (8 + cb - 5)) v)) (8 + cb - 5 - 5))
     else c32_encode_loop vs (result @ [ch]) (drop_bit (8 - (8 + cb - 5)) v) (8 + cb - 5))"
  by (simp only: c32_encode_loop.simps low_mask Let_def)

lemma c32_encode_loop_spec:
  "\<lbrakk>cb \<le> 4; unat carry < 2 ^ cb\<rbrakk> \<Longrightarrow>
    \<exists>ds carry' cb'. c32_encode_loop vs result carry cb =
        Ok (result @ map (\<lambda>d. C32_CHARACTERS ! d) ds, carry', cb')
      \<and> digits 32 ds \<and> cb' \<le> 4 \<and> unat carry' < 2 ^ cb'
      \<and> lval 32 ds + 32 ^ length ds * unat carry' = unat carry + 2 ^ cb * lval 256 (map unat vs)"
proof (induction vs arbitrary: result carry cb)
  case Nil
  then show ?case by (intro exI [of _ "[]"]) auto
next
  case (Cons v vs)
  define d where "d = unat carry + 2 ^ cb * (unat v mod 2 ^ (5 - cb))"
  note dn = c32_value_nat [OF Cons.prems, of v, folded d_def]
  have char: "c32_char (push_bit cb (take_bit (5 - cb) v) + carry) = Ok (C32_CHARACTERS ! d)"
    using dn by (simp add: c32_char_nat)
  have v: "unat v < 256" using unat_lt [of v] by simp
  have split: "unat carry + 2 ^ cb * unat v = d + 32 * (unat v div 2 ^ (5 - cb))"
  proof -
    have "unat v = unat v mod 2 ^ (5 - cb) + 2 ^ (5 - cb) * (unat v div 2 ^ (5 - cb))" by simp
    then have "2 ^ cb * unat v = 2 ^ cb * (unat v mod 2 ^ (5 - cb))
        + (2 ^ cb * 2 ^ (5 - cb)) * (unat v div 2 ^ (5 - cb))"
      by (metis distrib_left mult.assoc)
    moreover have "(2 :: nat) ^ cb * 2 ^ (5 - cb) = 32" using Cons.prems(1) by (simp flip: power_add)
    ultimately show ?thesis by (simp add: d_def)
  qed
  show ?case
  proof (cases "cb \<ge> 2")
    case False
    then have cb: "3 + cb \<le> 4" "8 - (3 + cb) = 5 - cb" by auto
    have c: "unat (drop_bit (5 - cb) v) < 2 ^ (3 + cb)"
    proof -
      have "unat v < 2 ^ (5 - cb) * 2 ^ (3 + cb)" using v False by (simp flip: power_add)
      then show ?thesis by (simp add: unat_drop less_mult_imp_div_less mult.commute)
    qed
    from Cons.IH [OF cb(1) c, of "result @ [C32_CHARACTERS ! d]"] obtain ds c' cb' where
      ih: "c32_encode_loop vs (result @ [C32_CHARACTERS ! d]) (drop_bit (5 - cb) v) (3 + cb) =
        Ok ((result @ [C32_CHARACTERS ! d]) @ map (\<lambda>d. C32_CHARACTERS ! d) ds, c', cb')"
      "digits 32 ds" "cb' \<le> 4" "unat c' < 2 ^ cb'"
      "lval 32 ds + 32 ^ length ds * unat c' = unat (drop_bit (5 - cb) v) + 2 ^ (3 + cb) * lval 256 (map unat vs)"
      by blast
    have "lval 32 (d # ds) + 32 ^ length (d # ds) * unat c' = d + 32 * (lval 32 ds + 32 ^ length ds * unat c')"
      by (simp add: algebra_simps)
    also have "\<dots> = unat carry + 2 ^ cb * unat v + 32 * 2 ^ (3 + cb) * lval 256 (map unat vs)"
      unfolding ih(5) unat_drop split by (simp add: algebra_simps)
    also have "\<dots> = unat carry + 2 ^ cb * lval 256 (map unat (v # vs))"
      by (simp add: power_add algebra_simps)
    finally show ?thesis
      using ih char False cb by (intro exI [of _ "d # ds"] exI [of _ c'] exI [of _ cb']) (auto simp: c32_encode_loop_Cons dn add.commute
            simp del: c32_encode_loop.simps)
  next
    case True
    then have cb: "cb - 2 \<le> 4" "8 + cb - 5 - 5 = cb - 2" "8 - (8 + cb - 5) = 5 - cb" "5 \<le> 8 + cb - 5"
      using Cons.prems(1) by auto
    define w where "w = drop_bit (5 - cb) v"
    have w: "unat w = unat v div 2 ^ (5 - cb)" by (simp add: w_def unat_drop)
    define e where "e = unat w mod 32"
    have e: "c32_char (take_bit 5 w) = Ok (C32_CHARACTERS ! e)"
      using unat_take [of 5 w] by (simp add: c32_char_nat e_def)
    have c: "unat (drop_bit 5 w) < 2 ^ (cb - 2)"
    proof -
      have "unat v < (2 ^ (5 - cb) * 2 ^ 5) * 2 ^ (cb - 2)"
        using v True Cons.prems(1) by (simp only: flip: power_add) simp
      then show ?thesis
        by (simp add: unat_drop w less_mult_imp_div_less mult.commute flip: div_mult2_eq)
    qed
    from Cons.IH [OF cb(1) c, of "(result @ [C32_CHARACTERS ! d]) @ [C32_CHARACTERS ! e]"] obtain ds c' cb' where
      ih: "c32_encode_loop vs ((result @ [C32_CHARACTERS ! d]) @ [C32_CHARACTERS ! e]) (drop_bit 5 w) (cb - 2) =
        Ok (((result @ [C32_CHARACTERS ! d]) @ [C32_CHARACTERS ! e]) @ map (\<lambda>d. C32_CHARACTERS ! d) ds, c', cb')"
      "digits 32 ds" "cb' \<le> 4" "unat c' < 2 ^ cb'"
      "lval 32 ds + 32 ^ length ds * unat c' = unat (drop_bit 5 w) + 2 ^ (cb - 2) * lval 256 (map unat vs)"
      by blast
    have "lval 32 (d # e # ds) + 32 ^ length (d # e # ds) * unat c'
        = d + 32 * (e + 32 * (lval 32 ds + 32 ^ length ds * unat c'))"
      by (simp add: algebra_simps)
    also have "\<dots> = d + 32 * unat w + 32 * 32 * 2 ^ (cb - 2) * lval 256 (map unat vs)"
      unfolding ih(5) unat_drop e_def by (simp add: algebra_simps)
    also have "\<dots> = unat carry + 2 ^ cb * unat v + 256 * 2 ^ cb * lval 256 (map unat vs)"
      using split True by (auto simp: w le_iff_add power_add)
    also have "\<dots> = unat carry + 2 ^ cb * lval 256 (map unat (v # vs))"
      by (simp add: algebra_simps)
    finally have "lval 32 (d # e # ds) + 32 ^ length (d # e # ds) * unat c'
      = unat carry + 2 ^ cb * lval 256 (map unat (v # vs))" .
    moreover have "c32_encode_loop (v # vs) result carry cb =
        Ok (result @ map (\<lambda>d. C32_CHARACTERS ! d) (d # e # ds), c', cb')"
      using ih(1) char e cb by (simp add: c32_encode_loop_Cons w_def del: c32_encode_loop.simps)
    ultimately show ?thesis
      using ih(2-4) dn(2) by (intro exI [of _ "d # e # ds"] exI [of _ c'] exI [of _ cb']) (auto simp: e_def)
  qed
qed


lemma leading_zeros: "map (\<lambda>_. z) (takeWhile (\<lambda>v. v = 0) (bs :: u8 list)) = replicate (zeros (map unat bs)) z"
  unfolding zeros_def by (induction bs) (auto simp: unat_eq_0)

lemma string_from_ascii: "list_all (\<lambda>b. b < 0x80) bs \<Longrightarrow> string_from_utf8 bs = Ok (bytes_to_string bs)"
  by (simp add: string_from_utf8_def utf8_split_ascii)

lemma c32_chars_ascii: "digits 32 ds \<Longrightarrow> list_all (\<lambda>b. b < 128) (map (\<lambda>d. C32_CHARACTERS ! d) ds)"
  using c32.char_ascii by (auto simp: digits_def list_all_iff)

lemma c32_encode_spec:
  "\<exists>cs. c32_encode bs =
      Ok (bytes_to_string (map (\<lambda>d. C32_CHARACTERS ! d) (replicate (zeros (map unat bs)) 0 @ rev cs)))
    \<and> digits 32 cs \<and> canonical cs \<and> lval 32 cs = lval 256 (rev (map unat bs))"
proof -
  from c32_encode_loop_spec [of 0 0 "rev bs" "[]"] obtain ds c cb where
    loop: "c32_encode_loop (rev bs) [] 0 0 = Ok (map (\<lambda>d. C32_CHARACTERS ! d) ds, c, cb)"
    and ds: "digits 32 ds" "cb \<le> 4" "unat c < 2 ^ cb"
      "lval 32 ds + 32 ^ length ds * unat c = lval 256 (rev (map unat bs))"
    by (auto simp: rev_map)
  have "(2 :: nat) ^ cb \<le> 2 ^ 4" using ds(2) by (intro power_increasing) auto
  then have c: "unat c < 32" using ds(3) by simp
  define es where "es = (if cb > 0 then ds @ [unat c] else ds)"
  have es: "digits 32 es" "lval 32 es = lval 256 (rev (map unat bs))"
    using ds c by (auto simp: es_def lval_append)
  have "(if cb > 0 then map_ok (\<lambda>ch. map (\<lambda>d. C32_CHARACTERS ! d) ds @ [ch]) (c32_char c)
      else Ok (map (\<lambda>d. C32_CHARACTERS ! d) ds)) = Ok (map (\<lambda>d. C32_CHARACTERS ! d) es)"
    using c by (simp add: es_def c32_char_nat)
  moreover have "pop_while (C32_CHARACTERS ! 0) (map (\<lambda>d. C32_CHARACTERS ! d) es)
      = map (\<lambda>d. C32_CHARACTERS ! d) (pop_while 0 es)"
    using c32.pop_chars [of es] es(1) length_C32(1) by (metis length_0_conv zero_neq_numeral)
  moreover have "digits 32 (replicate (zeros (map unat bs)) 0 @ rev (pop_while 0 es))"
    using digits_pop_while [OF es(1)] by simp
  note string_from_ascii [OF c32_chars_ascii [OF this]]
  ultimately have "c32_encode bs = Ok (bytes_to_string (map (\<lambda>d. C32_CHARACTERS ! d)
      (replicate (zeros (map unat bs)) 0 @ rev (pop_while 0 es))))"
    by (simp add: c32_encode_def loop leading_zeros rev_map)
  then show ?thesis
    using es by (intro exI [of _ "pop_while 0 es"]) (simp add: pop_while_canonical digits_pop_while)
qed

text \<open>One digit of the decoder.\<close>

lemma c32_carry_nat:
  assumes "cb \<le> 7" "unat (carry :: u16) < 2 ^ cb" "unat (d :: u8) < 32"
  shows "unat (carry + push_bit cb (ucast d)) = unat carry + 2 ^ cb * unat d"
    "unat carry + 2 ^ cb * unat d < 2 ^ (cb + 5)"
proof -
  have "2 ^ cb * unat d + 2 ^ cb \<le> 2 ^ cb * 2 ^ 5"
    using mult_le_mono2 [of "unat d + 1" "2 ^ 5" "2 ^ cb"] assms(3) by (simp only: distrib_left) simp
  then show *: "unat carry + 2 ^ cb * unat d < 2 ^ (cb + 5)"
    using assms(2) power_add [of "2 :: nat" cb 5] by linarith
  have "(2 :: nat) ^ (cb + 5) \<le> 2 ^ 12" using assms(1) by (intro power_increasing) auto
  with * have "unat carry + 2 ^ cb * unat d < 2 ^ 16" by simp
  moreover have "push_bit cb (ucast d :: u16) = of_nat (2 ^ cb * unat d)"
    by (simp add: push_bit_eq_mult mult.commute)
  then have "carry + push_bit cb (ucast d) = of_nat (unat carry + 2 ^ cb * unat d)" by simp
  ultimately show "unat (carry + push_bit cb (ucast d)) = unat carry + 2 ^ cb * unat d"
    by (simp add: unat_of_nat del: of_nat_add of_nat_mult)
qed

lemma c32_decode_loop_Cons:
  "c32_decode_loop (d # ds) result carry cb =
     (let carry = carry + push_bit cb (ucast d); cb = cb + 5
      in if cb \<ge> 8 then c32_decode_loop ds (result @ [ucast (take_bit 8 carry)]) (drop_bit 8 carry) (cb - 8)
         else c32_decode_loop ds result carry cb)"
  by (simp only: c32_decode_loop.simps low_mask)

lemma c32_decode_loop_spec:
  "\<lbrakk>cb \<le> 7; unat carry < 2 ^ cb; digits 32 (map unat ds)\<rbrakk> \<Longrightarrow>
    \<exists>bs carry' cb'. c32_decode_loop ds result carry cb = (result @ bs, carry', cb')
      \<and> cb' \<le> 7 \<and> unat carry' < 2 ^ cb'
      \<and> lval 256 (map unat bs) + 256 ^ length bs * unat carry' = unat carry + 2 ^ cb * lval 32 (map unat ds)"
proof (induction ds arbitrary: result carry cb)
  case (Cons d ds)
  define c where "c = carry + push_bit cb (ucast d)"
  have c: "unat c = unat carry + 2 ^ cb * unat d" "unat c < 2 ^ (cb + 5)"
    using c32_carry_nat [of cb carry d] Cons.prems by (simp_all add: c_def)
  show ?case
  proof (cases "cb + 5 \<ge> 8")
    case True
    define b :: u8 where "b = ucast (take_bit 8 c)"
    have b: "unat b = unat c mod 256"
      using unat_take [of 8 c] by (simp add: b_def unsigned_ucast_eq take_bit_eq_mod)
    have "unat (drop_bit 8 c) < 2 ^ (cb + 5 - 8)"
    proof -
      have "unat c < 2 ^ (cb + 5 - 8) * 2 ^ 8" using c(2) True by (auto simp: le_iff_add power_add)
      then show ?thesis by (simp add: unat_drop less_mult_imp_div_less)
    qed
    moreover have "cb + 5 - 8 \<le> 7" using Cons.prems(1) by simp
    ultimately obtain bs c' cb' where
      ih: "c32_decode_loop ds (result @ [b]) (drop_bit 8 c) (cb + 5 - 8) = ((result @ [b]) @ bs, c', cb')"
      "cb' \<le> 7" "unat c' < 2 ^ cb'"
      "lval 256 (map unat bs) + 256 ^ length bs * unat c'
        = unat (drop_bit 8 c) + 2 ^ (cb + 5 - 8) * lval 32 (map unat ds)"
      using Cons.IH [of "cb + 5 - 8" "drop_bit 8 c" "result @ [b]"] Cons.prems(3) by auto
    have "lval 256 (map unat (b # bs)) + 256 ^ length (b # bs) * unat c'
        = unat b + 256 * (lval 256 (map unat bs) + 256 ^ length bs * unat c')"
      by (simp add: algebra_simps)
    also have "\<dots> = unat c + 256 * 2 ^ (cb + 5 - 8) * lval 32 (map unat ds)"
      unfolding ih(4) b unat_drop by (simp add: algebra_simps)
    also have "256 * 2 ^ (cb + 5 - 8) = (2 :: nat) ^ (cb + 5)"
      using True by (auto simp: le_iff_add power_add)
    finally show ?thesis
      using ih True c(1)
      by (intro exI [of _ "b # bs"] exI [of _ c'] exI [of _ cb'])
        (simp add: c32_decode_loop_Cons Let_def b_def c_def power_add algebra_simps del: c32_decode_loop.simps)
  next
    case False
    with Cons.IH [of "cb + 5" c result] Cons.prems c obtain bs c' cb' where
      ih: "c32_decode_loop ds result c (cb + 5) = (result @ bs, c', cb')" "cb' \<le> 7" "unat c' < 2 ^ cb'"
      "lval 256 (map unat bs) + 256 ^ length bs * unat c' = unat c + 2 ^ (cb + 5) * lval 32 (map unat ds)"
      by auto
    then show ?thesis
      using False c(1)
      by (intro exI [of _ bs] exI [of _ c'] exI [of _ cb'])
        (simp add: c32_decode_loop_Cons Let_def c_def power_add algebra_simps del: c32_decode_loop.simps)
  qed
qed simp


lemma map_filter_Some: "map f xs = map Some ys \<Longrightarrow> List.map_filter f xs = ys"
  by (induction xs arbitrary: ys) (auto simp: map_filter_simps)

lemma length_map_filter_eq: "length (List.map_filter f xs) = length xs \<longleftrightarrow> (\<forall>x \<in> set xs. f x \<noteq> None)"
proof (induction xs)
  case (Cons x xs)
  have "length (List.map_filter f xs) \<le> length xs" by (simp add: map_filter_def)
  with Cons show ?case by (auto simp: map_filter_simps split: option.splits)
qed simp

lemma all_Some: "(\<forall>x \<in> set xs. f x \<noteq> None) \<Longrightarrow> \<exists>ys. map f xs = map Some ys"
  by (induction xs) (auto intro: exI [of _ "_ # _"])

lemma c32_decode_ascii_eq:
  assumes "map c32_digit (string_to_bytes s) = map Some ds"
  shows "\<exists>cs. c32_decode_ascii s = Ok (map of_nat (replicate (zeros (map unat ds)) 0 @ rev cs))
    \<and> digits 256 cs \<and> canonical cs \<and> lval 256 cs = lval 32 (rev (map unat ds)) \<and> digits 32 (map unat ds)"
proof -
  have "unat d < 32" if "d \<in> set ds" for d
  proof -
    from that have "Some d \<in> set (map c32_digit (string_to_bytes s))" unfolding assms by simp
    then show ?thesis using c32_digit_less by (metis (no_types, lifting) imageE list.set_map)
  qed
  then have ds: "digits 32 (map unat ds)" by (auto simp: digits_def list_all_iff)
  have mf: "List.map_filter c32_digit (rev (string_to_bytes s)) = rev ds"
    using assms by (intro map_filter_Some) (simp add: rev_map [symmetric])
  have len: "length s = length ds" using arg_cong [OF assms, of length] by (simp add: string_to_bytes_def)
  from c32_decode_loop_spec [of 0 0 "rev ds" "[]"] ds obtain bs c cb where
    loop: "c32_decode_loop (rev ds) [] 0 0 = (bs, c, cb)" and bs: "cb \<le> 7" "unat c < 2 ^ cb"
      "lval 256 (map unat bs) + 256 ^ length bs * unat c = lval 32 (rev (map unat ds))"
    by (auto simp: rev_map [symmetric])
  have "(2 :: nat) ^ cb \<le> 2 ^ 7" using bs(1) by (intro power_increasing) auto
  then have c: "unat (ucast c :: u8) = unat c" using bs(2) by (simp add: unsigned_ucast_eq take_bit_eq_mod)
  define es where "es = (if cb > 0 then bs @ [ucast c] else bs)"
  have es: "lval 256 (map unat es) = lval 32 (rev (map unat ds))"
    using bs c by (auto simp: es_def lval_append)
  have dig: "digits 256 (map unat (xs :: u8 list))" for xs
    using unat_lt [where 'a = 8] by (auto simp: digits_def list_all_iff)
  have pop: "map unat (pop_while 0 es) = pop_while 0 (map unat es)"
    using pop_while_map [of es unat "0 :: u8"] by (simp add: unat_eq_0)
  have "c32_decode_ascii s = Ok (replicate (zeros (map unat ds)) 0 @ rev (pop_while 0 es))"
    using len by (simp add: c32_decode_ascii_def mf loop leading_zeros es_def)
  moreover have "rev (pop_while 0 es) = map of_nat (rev (map unat (pop_while 0 es)))"
    by (simp add: rev_map [symmetric] comp_def)
  ultimately show ?thesis
    using es ds dig by (intro exI [of _ "map unat (pop_while 0 es)"])
      (simp add: pop pop_while_canonical digits_pop_while rev_map)
qed

lemma c32_decode_ascii_Ok:
  "c32_decode_ascii s = Ok bs \<Longrightarrow> \<exists>ds. map c32_digit (string_to_bytes s) = map Some ds"
  using length_map_filter_eq [of c32_digit "rev (string_to_bytes s)"]
    all_Some [of "string_to_bytes s" c32_digit]
  by (auto simp: c32_decode_ascii_def string_to_bytes_def split: if_splits)

lemma unat_of_digits: "digits 256 es \<Longrightarrow> map (\<lambda>x. unat (of_nat x :: u8)) es = es"
  by (auto simp: digits_def list_all_iff unat_of_nat intro!: map_idI)

lemma digits_bytes: "digits 256 (map unat (bs :: u8 list))"
  using unat_lt [where 'a = 8] by (auto simp: digits_def list_all_iff)

lemma digits_mono: "digits B ds \<Longrightarrow> B \<le> C \<Longrightarrow> digits C ds"
  by (auto simp: digits_def list_all_iff)

lemma c32_round_trip: "\<exists>s. c32_encode bs = Ok s \<and> c32_decode_ascii s = Ok bs \<and> is_ascii s"
proof -
  obtain cs where enc: "c32_encode bs = Ok (bytes_to_string (map (\<lambda>d. C32_CHARACTERS ! d)
      (replicate (zeros (map unat bs)) 0 @ rev cs)))"
    and cs: "digits 32 cs" "canonical cs" "lval 32 cs = lval 256 (rev (map unat bs))"
    using c32_encode_spec by blast
  define es where "es = replicate (zeros (map unat bs)) 0 @ rev cs"
  have es: "digits 32 es" using cs(1) by (simp add: es_def)
  have un: "map unat (map of_nat es :: u8 list) = es"
    using unat_of_digits [OF digits_mono [OF es]] by (simp add: comp_def)
  obtain ds where dec: "c32_decode_ascii (bytes_to_string (map (\<lambda>d. C32_CHARACTERS ! d) es)) =
      Ok (map of_nat (replicate (zeros es) 0 @ rev ds))"
    and ds: "digits 256 ds" "canonical ds" "lval 256 ds = lval 32 (rev es)"
    using c32_decode_ascii_eq [of "bytes_to_string (map (\<lambda>d. C32_CHARACTERS ! d) es)" "map of_nat es"]
      c32.digits_of_chars [of es] es un by (auto simp: comp_def)
  have "replicate (zeros es) 0 @ rev ds = map unat bs"
    using radix_round_trip [OF digits_bytes _ _ es_def cs ds] by simp
  then have "c32_decode_ascii (bytes_to_string (map (\<lambda>d. C32_CHARACTERS ! d) es)) = Ok bs"
    using dec by (simp add: comp_def)
  moreover have "is_ascii (bytes_to_string (map (\<lambda>d. C32_CHARACTERS ! d) es))"
    using c32_chars_ascii [OF es] by (simp add: is_ascii_def)
  ultimately show ?thesis using enc by (auto simp: es_def)
qed


section \<open>Normalisation\<close>

definition norm_char :: "char \<Rightarrow> char" where
  "norm_char c = (let u = ascii_upper c in
     if u = CHR ''O'' then CHR ''0'' else if u = CHR ''L'' \<or> u = CHR ''I'' then CHR ''1'' else u)"

lemma c32_normalize_map: "c32_normalize s = map norm_char s"
  by (simp add: c32_normalize_def norm_char_def comp_def Let_def)

definition ascii_chars :: string where
  "ascii_chars = [CHR 0x00, CHR 0x01, CHR 0x02, CHR 0x03, CHR 0x04, CHR 0x05, CHR 0x06, CHR 0x07,
     CHR 0x08, CHR 0x09, CHR 0x0A, CHR 0x0B, CHR 0x0C, CHR 0x0D, CHR 0x0E, CHR 0x0F,
     CHR 0x10, CHR 0x11, CHR 0x12, CHR 0x13, CHR 0x14, CHR 0x15, CHR 0x16, CHR 0x17,
     CHR 0x18, CHR 0x19, CHR 0x1A, CHR 0x1B, CHR 0x1C, CHR 0x1D, CHR 0x1E, CHR 0x1F,
     CHR 0x20, CHR 0x21, CHR 0x22, CHR 0x23, CHR 0x24, CHR 0x25, CHR 0x26, CHR 0x27,
     CHR 0x28, CHR 0x29, CHR 0x2A, CHR 0x2B, CHR 0x2C, CHR 0x2D, CHR 0x2E, CHR 0x2F,
     CHR 0x30, CHR 0x31, CHR 0x32, CHR 0x33, CHR 0x34, CHR 0x35, CHR 0x36, CHR 0x37,
     CHR 0x38, CHR 0x39, CHR 0x3A, CHR 0x3B, CHR 0x3C, CHR 0x3D, CHR 0x3E, CHR 0x3F,
     CHR 0x40, CHR 0x41, CHR 0x42, CHR 0x43, CHR 0x44, CHR 0x45, CHR 0x46, CHR 0x47,
     CHR 0x48, CHR 0x49, CHR 0x4A, CHR 0x4B, CHR 0x4C, CHR 0x4D, CHR 0x4E, CHR 0x4F,
     CHR 0x50, CHR 0x51, CHR 0x52, CHR 0x53, CHR 0x54, CHR 0x55, CHR 0x56, CHR 0x57,
     CHR 0x58, CHR 0x59, CHR 0x5A, CHR 0x5B, CHR 0x5C, CHR 0x5D, CHR 0x5E, CHR 0x5F,
     CHR 0x60, CHR 0x61, CHR 0x62, CHR 0x63, CHR 0x64, CHR 0x65, CHR 0x66, CHR 0x67,
     CHR 0x68, CHR 0x69, CHR 0x6A, CHR 0x6B, CHR 0x6C, CHR 0x6D, CHR 0x6E, CHR 0x6F,
     CHR 0x70, CHR 0x71, CHR 0x72, CHR 0x73, CHR 0x74, CHR 0x75, CHR 0x76, CHR 0x77,
     CHR 0x78, CHR 0x79, CHR 0x7A, CHR 0x7B, CHR 0x7C, CHR 0x7D, CHR 0x7E, CHR 0x7F]"

lemma ascii_chars_nth: "i < 128 \<Longrightarrow> ascii_chars ! i = char_of i"
proof -
  have "map of_char ascii_chars = [0..<128 :: nat]" by code_simp
  then have "i < 128 \<Longrightarrow> of_char (ascii_chars ! i) = i"
    by (metis add_0 diff_zero length_map length_upt nth_map nth_upt)
  then show "i < 128 \<Longrightarrow> ascii_chars ! i = char_of i" by (metis char_of_char)
qed

text \<open>The lookup table against the search in the alphabet after normalisation, character by character.\<close>

lemma c32_table_search:
  "list_all2 (\<lambda>c d. find_index (\<lambda>x. x = c) C32_CHARACTERS_old 0 = map_option unat d)
    (map norm_char ascii_chars) C32_CHARACTERS_MAP"
  by code_simp

lemma norm_char_idem: "map norm_char (map norm_char ascii_chars) = map norm_char ascii_chars"
  by code_simp

lemma is_ascii_iff: "is_ascii s \<longleftrightarrow> (\<forall>c \<in> set s. of_char c < (128 :: nat))"
proof -
  have "(of_nat (of_char c) :: u8) < 128 \<longleftrightarrow> of_char c < (128 :: nat)" for c :: char
    using nat_of_char_less_256 [of c] by (simp add: word_less_nat_alt unat_of_nat_lt)
  then show ?thesis by (simp add: is_ascii_def string_to_bytes_def list_all_iff)
qed

lemma length_ascii_chars [simp]: "length ascii_chars = 128"
  by (simp add: ascii_chars_def)

lemma c32_digit_char:
  "of_char c < (128 :: nat) \<Longrightarrow> c32_digit (of_nat (of_char c)) = C32_CHARACTERS_MAP ! of_char c"
  by (simp add: c32_digit_def unat_of_nat_lt)

lemma c32_search:
  assumes "of_char c < (128 :: nat)"
  shows "find_index (\<lambda>x. x = norm_char c) C32_CHARACTERS_old 0
    = map_option unat (c32_digit (of_nat (of_char c)))"
  using list_all2_nthD [OF c32_table_search, of "of_char c"] assms
  by (simp add: ascii_chars_nth c32_digit_char)

lemma norm_char_norm_char:
  assumes "of_char c < (128 :: nat)"
  shows "norm_char (norm_char c) = norm_char c"
  using arg_cong [OF norm_char_idem, of "\<lambda>cs. cs ! of_char c"] assms by (simp add: ascii_chars_nth)

lemma norm_char_ascii: "of_char c < (128 :: nat) \<Longrightarrow> of_char (norm_char c) < (128 :: nat)"
proof -
  have "map_of (zip ''abcdefghijklmnopqrstuvwxyz'' ''ABCDEFGHIJKLMNOPQRSTUVWXYZ'') c = Some u
      \<Longrightarrow> u \<in> set ''ABCDEFGHIJKLMNOPQRSTUVWXYZ''" for u
    by (rule set_zip_rightD [OF map_of_SomeD])
  then show "of_char c < (128 :: nat) \<Longrightarrow> of_char (norm_char c) < (128 :: nat)"
    by (auto simp: norm_char_def ascii_upper_def Let_def split: option.splits)
qed

lemma c32_digit_norm:
  assumes "of_char c < (128 :: nat)"
  shows "c32_digit (of_nat (of_char (norm_char c))) = c32_digit (of_nat (of_char c))"
proof -
  have "map_option unat (c32_digit (of_nat (of_char (norm_char c))))
      = map_option unat (c32_digit (of_nat (of_char c)))"
    using c32_search [OF assms] c32_search [OF norm_char_ascii [OF assms]] norm_char_norm_char [OF assms] by simp
  then show ?thesis
    by (cases "c32_digit (of_nat (of_char (norm_char c)))"; cases "c32_digit (of_nat (of_char c))")
      (auto dest: unsigned_word_eqI)
qed

lemma c32_digit_Some:
  assumes "of_char c < (128 :: nat)" "c32_digit (of_nat (of_char c)) = Some d"
  shows "C32_CHARACTERS ! unat d = of_nat (of_char (norm_char c))" "norm_char c = CHR ''0'' \<longleftrightarrow> d = 0"
proof -
  have found: "find_index (\<lambda>x. x = norm_char c) C32_CHARACTERS_old 0 = Some (unat d)"
    using c32_search [OF assms(1)] assms(2) by simp
  then have spec: "unat d < length C32_CHARACTERS_old" "C32_CHARACTERS_old ! unat d = norm_char c"
    by (simp_all add: find_index_spec)
  then show "C32_CHARACTERS ! unat d = of_nat (of_char (norm_char c))"
    by (simp add: C32_CHARACTERS_def flip: C32_CHARACTERS_old_def) (simp add: string_to_bytes_def)
  have "find_index (\<lambda>x. x = CHR ''0'') C32_CHARACTERS_old 0 = Some 0" "C32_CHARACTERS_old ! 0 = CHR ''0''"
    by (simp_all add: C32_CHARACTERS_old_def)
  then show "norm_char c = CHR ''0'' \<longleftrightarrow> d = 0"
    using found spec(2) by (auto simp: unat_eq_0)
qed

lemma c32_decode_ascii_normalize:
  "is_ascii s \<Longrightarrow> c32_decode_ascii (c32_normalize s) = c32_decode_ascii s"
proof -
  assume s: "is_ascii s"
  have mf: "List.map_filter c32_digit (map (\<lambda>c. of_nat (of_char (norm_char c))) t)
      = List.map_filter c32_digit (map (\<lambda>c. of_nat (of_char c)) t)" if "set t \<subseteq> set s" for t
    using that s by (induction t) (auto simp: map_filter_simps is_ascii_iff c32_digit_norm split: option.splits)
  show ?thesis
    using mf [of "rev s"]
    by (simp add: c32_decode_ascii_def string_to_bytes_def c32_normalize_map rev_map comp_def)
qed

lemma c32_decode_old_eq:
  assumes "is_ascii s" "c32_normalize s = s"
  shows "c32_decode_old s = c32_decode_ascii s"
proof -
  have fixd: "norm_char c = c" if "c \<in> set s" for c
    using assms(2) that by (auto simp: c32_normalize_map map_eq_conv [of _ s id, simplified])
  have opts: "map (\<lambda>x. find_index (\<lambda>c. c = x) C32_CHARACTERS_old 0) (rev s)
      = map (\<lambda>b. map_option unat (c32_digit b)) (rev (string_to_bytes s))"
  proof -
    have "find_index (\<lambda>c. c = x) C32_CHARACTERS_old 0 = map_option unat (c32_digit (of_nat (of_char x)))"
      if "x \<in> set s" for x
      using c32_search [of x] fixd [OF that] that assms(1) by (simp add: is_ascii_iff)
    then show ?thesis by (simp add: string_to_bytes_def rev_map)
  qed
  have mf: "List.map_filter (\<lambda>x. x) (map (\<lambda>b. map_option unat (c32_digit b)) bs) = map unat (List.map_filter c32_digit bs)"
    for bs by (induction bs) (auto simp: map_filter_simps split: option.splits)
  have zeros: "map (\<lambda>_. 0) (takeWhile (\<lambda>c. c = CHR ''0'') t) = map (\<lambda>_. 0 :: u8) (takeWhile (\<lambda>d. d = 0) ds)"
    if "map c32_digit (string_to_bytes t) = map Some ds" "set t \<subseteq> set s" for t ds
    using that
  proof (induction t arbitrary: ds)
    case (Cons c t)
    then obtain d ds' where ds: "ds = d # ds'" "c32_digit (of_nat (of_char c)) = Some d"
      "map c32_digit (string_to_bytes t) = map Some ds'" by (auto simp: string_to_bytes_def)
    have "c = CHR ''0'' \<longleftrightarrow> d = 0"
      using c32_digit_Some(2) [OF _ ds(2)] Cons.prems(2) fixd assms(1) by (auto simp: is_ascii_iff)
    with Cons.IH [OF ds(3)] Cons.prems(2) ds(1) show ?case by simp
  qed (simp add: string_to_bytes_def)
  have len: "length (string_to_bytes s) = length s" by (simp add: string_to_bytes_def)
  show ?thesis
  proof (cases "\<exists>ds. map c32_digit (string_to_bytes s) = map Some ds")
    case True
    then obtain ds where ds: "map c32_digit (string_to_bytes s) = map Some ds" by blast
    have "List.map_filter c32_digit (rev (string_to_bytes s)) = rev ds"
      using ds by (intro map_filter_Some) (simp add: rev_map [symmetric])
    then show ?thesis
      using assms zeros [OF ds] arg_cong [OF ds, of length] len
      by (simp add: c32_decode_old_def c32_decode_ascii_def opts mf comp_def)
  next
    case False
    then have "length (List.map_filter c32_digit (rev (string_to_bytes s))) \<noteq> length s"
      using length_map_filter_eq [of c32_digit "rev (string_to_bytes s)"] all_Some [of "string_to_bytes s" c32_digit] len
      by auto
    then show ?thesis
      using assms len by (simp add: c32_decode_old_def c32_decode_ascii_def opts mf)
  qed
qed

lemma c32_normalize_slices:
  "drop n (c32_normalize s) = c32_normalize (drop n s)" "take n (c32_normalize s) = c32_normalize (take n s)"
  "length (c32_normalize s) = length s"
  by (simp_all add: c32_normalize_map drop_map take_map)

lemma is_ascii_normalize:
  "is_ascii s \<Longrightarrow> is_ascii (c32_normalize s) \<and> c32_normalize (c32_normalize s) = c32_normalize s"
  by (auto simp: is_ascii_iff c32_normalize_map norm_char_ascii norm_char_norm_char)

lemma c32_decode_old_normalize:
  "is_ascii s \<Longrightarrow> c32_decode_old (c32_normalize s) = c32_decode_ascii s"
  by (simp add: c32_decode_old_eq is_ascii_normalize c32_decode_ascii_normalize)

lemma is_ascii_slices: "is_ascii s \<Longrightarrow> is_ascii (drop n s)" "is_ascii s \<Longrightarrow> is_ascii (take n s)"
  by (auto simp: is_ascii_iff dest: in_set_dropD in_set_takeD)

lemma c32_check_decode_old_eq: "c32_check_decode_old sha256 s = c32_check_decode sha256 s"
proof (cases "is_ascii s")
  case True
  then have "c32_decode_old (take n (c32_normalize s)) = c32_decode_ascii (take n s)"
    "c32_decode_old (drop n (c32_normalize s)) = c32_decode_ascii (drop n s)" for n
    by (simp_all add: c32_normalize_slices c32_decode_old_normalize is_ascii_slices)
  then show ?thesis by (simp only: c32_check_decode_old_def c32_check_decode_def Let_def)
qed (simp add: c32_check_decode_old_def c32_check_decode_def)


section \<open>Checked strings\<close>

lemma c32_decode_digit:
  assumes "c32_digit b = Some d"
  shows "c32_decode_ascii (bytes_to_string [b]) = Ok [d]"
proof -
  have "List.map_filter c32_digit [b] = [d]" using assms by (simp add: map_filter_simps)
  moreover have "length (bytes_to_string [b]) = 1" by (simp add: bytes_to_string_def)
  moreover have "(ucast (ucast d :: u16) :: u8) = d" by (rule bit_word_eqI) (simp add: bit_ucast_iff)
  ultimately show ?thesis
    by (simp add: c32_decode_ascii_def c32_decode_loop_Cons pop_while_def del: c32_decode_loop.simps(2))
qed

lemma c32_decode_length: "c32_decode_ascii s = Ok bs \<Longrightarrow> length bs \<le> length s"
proof -
  assume dec: "c32_decode_ascii s = Ok bs"
  from c32_decode_ascii_Ok [OF dec] obtain ds where ds: "map c32_digit (string_to_bytes s) = map Some ds" ..
  from c32_decode_ascii_eq [OF ds] dec obtain cs where
    bs: "bs = map of_nat (replicate (zeros (map unat ds)) 0 @ rev cs)" and cs: "canonical cs"
    "lval 256 cs = lval 32 (rev (map unat ds))" "digits 32 (map unat ds)" by auto
  define z where "z = zeros (map unat ds)"
  define r where "r = drop z (map unat ds)"
  have split: "map unat ds = replicate z 0 @ r" using zeros_split(2) [of "map unat ds"] by (simp add: z_def r_def)
  have "lval 32 (rev (map unat ds)) = lval 32 (rev r)" unfolding split by (simp add: lval_append)
  moreover have "digits 32 (rev r)" using cs(3) unfolding split by simp
  ultimately have "length cs \<le> length r" using canonical_length [of cs 256 32 "rev r"] cs(1,2) by simp
  moreover have "length s = z + length r"
    using arg_cong [OF ds, of length] arg_cong [OF split, of length] by (simp add: string_to_bytes_def)
  ultimately show ?thesis by (simp add: bs z_def)
qed

lemma c32_chars_of_digits:
  "\<lbrakk>map c32_digit (string_to_bytes s) = map Some ds; is_ascii s\<rbrakk> \<Longrightarrow>
    map (\<lambda>d. C32_CHARACTERS ! unat d) ds = string_to_bytes (c32_normalize s)"
proof (induction s arbitrary: ds)
  case (Cons c s)
  then obtain d ds' where ds: "ds = d # ds'" "c32_digit (of_nat (of_char c)) = Some d"
    "map c32_digit (string_to_bytes s) = map Some ds'" by (auto simp: string_to_bytes_def)
  with Cons.IH [OF ds(3)] Cons.prems(2) c32_digit_Some(1) [OF _ ds(2)] show ?case
    by (simp add: is_ascii_iff c32_normalize_map string_to_bytes_def)
qed (simp add: string_to_bytes_def c32_normalize_map)

text \<open>Decoding is injective up to normalisation: encoding the decoded bytes returns the text.\<close>

lemma c32_encode_decoded:
  assumes "c32_decode_ascii s = Ok bs" "is_ascii s"
  shows "c32_encode bs = Ok (c32_normalize s)"
proof -
  from c32_decode_ascii_Ok [OF assms(1)] obtain ds where
    ds: "map c32_digit (string_to_bytes s) = map Some ds" ..
  from c32_decode_ascii_eq [OF ds] assms(1) obtain cs where
    bs: "bs = map of_nat (replicate (zeros (map unat ds)) 0 @ rev cs)" and cs: "digits 256 cs" "canonical cs"
    "lval 256 cs = lval 32 (rev (map unat ds))" and d32: "digits 32 (map unat ds)" by auto
  have es: "map unat bs = replicate (zeros (map unat ds)) 0 @ rev cs"
    using unat_of_digits [of "replicate (zeros (map unat ds)) 0 @ rev cs"] cs(1) by (simp add: bs comp_def)
  obtain fs where enc: "c32_encode bs =
      Ok (bytes_to_string (map (\<lambda>d. C32_CHARACTERS ! d) (replicate (zeros (map unat bs)) 0 @ rev fs)))"
    and fs: "digits 32 fs" "canonical fs" "lval 32 fs = lval 256 (rev (map unat bs))"
    using c32_encode_spec by blast
  have "replicate (zeros (map unat bs)) 0 @ rev fs = map unat ds"
    using radix_round_trip [OF d32 _ _ es cs fs] by simp
  then have "c32_encode bs = Ok (bytes_to_string (map (\<lambda>d. C32_CHARACTERS ! d) (map unat ds)))"
    using enc by simp
  then show ?thesis using c32_chars_of_digits [OF ds assms(2)] by (simp add: comp_def)
qed

lemma length_checksum [simp]: "length (double_sha256_checksum sha256 data) = 4"
  using bytes32_bits [of "sha256 (bytes32_bits (sha256 data))"] by (simp add: double_sha256_checksum_def)

lemma is_ascii_Cons: "is_ascii (c # s) \<longleftrightarrow> of_char c < (128 :: nat) \<and> is_ascii s"
  by (simp add: is_ascii_iff)

lemma c32_version_char:
  assumes "unat v < 32"
  obtains c where "c32_char v = Ok (of_nat (of_char c))" "of_char c < (128 :: nat)"
    "c32_digit (of_nat (of_char c)) = Some v"
proof -
  define b where "b = C32_CHARACTERS ! unat v"
  have b: "b < 128" "c32_digit b = Some v" using assms c32.char_ascii [of "unat v"] c32.digit_char [of "unat v"]
    by (simp_all add: b_def)
  then have "unat b < 128" by (simp add: word_less_nat_alt)
  then show thesis
    using that [of "char_of (unat b)"] b assms by (simp add: c32_char_nat b_def of_char_of)
qed

lemma c32_check_round_trip:
  assumes "v < 32" "data \<noteq> []"
  obtains s where "c32_check_encode sha256 v data = Ok s" "c32_check_decode sha256 s = Ok (v, data)"
    "is_ascii s" "6 \<le> length s"
proof -
  have v: "unat v < 32" "\<not> 32 \<le> v" using assms(1) by (simp_all add: word_less_nat_alt word_le_nat_alt)
  obtain c where c: "c32_char v = Ok (of_nat (of_char c))" "of_char c < (128 :: nat)"
    "c32_digit (of_nat (of_char c)) = Some v" using c32_version_char [OF v(1)] .
  define sum where "sum = double_sha256_checksum sha256 (v # data)"
  obtain t where t: "c32_encode (data @ sum) = Ok t" "c32_decode_ascii t = Ok (data @ sum)" "is_ascii t"
    using c32_round_trip by blast
  have len: "5 \<le> length (data @ sum)" "length (data @ sum) \<le> length t"
    using assms(2) c32_decode_length [OF t(2)] by (cases data; simp add: sum_def)+
  have ascii: "is_ascii (c # t)" using c(2) t(3) by (simp add: is_ascii_Cons)
  have bytes: "of_nat (of_char c) # string_to_bytes t = string_to_bytes (c # t)" by (simp add: string_to_bytes_def)
  have enc: "c32_check_encode sha256 v data = Ok (c # t)"
    using v c(1) t(1) string_from_ascii [of "string_to_bytes (c # t)"] ascii
    by (simp add: c32_check_encode_def sum_def [symmetric] bytes is_ascii_def)
  have "bytes_to_string [of_nat (of_char c)] = [c]"
    using bytes_to_string_to_bytes [of "[c]"] by (simp add: string_to_bytes_def)
  then have "c32_decode_ascii [c] = Ok [v]" using c32_decode_digit [OF c(3)] by simp
  then have "c32_check_decode sha256 (c # t) = Ok (v, data)"
    using ascii len t(2) assms(2) by (auto simp: c32_check_decode_def sum_def)
  then show thesis using that [OF enc _ ascii] len by simp
qed

lemma c32_check_decode_unique:
  assumes "c32_check_decode sha256 s = Ok (v, data)"
  shows "c32_check_encode sha256 v data = Ok (c32_normalize s) \<and> v < 32 \<and> data \<noteq> [] \<and> is_ascii s"
proof -
  from assms obtain c t where s: "s = c # t" "t \<noteq> []" "is_ascii s"
    by (cases s rule: remdups_adj.cases) (auto simp: c32_check_decode_def split: if_splits)
  from assms obtain bs vs where bs: "c32_decode_ascii t = Ok bs" "5 \<le> length bs"
    and vs: "c32_decode_ascii [c] = Ok vs" and res: "v = (vs @ take (length bs - 4) bs) ! 0"
      "data = take (length bs - 4) bs" "double_sha256_checksum sha256 (vs @ data) = drop (length bs - 4) bs"
    by (auto simp: c32_check_decode_def s Let_def split: if_splits)
  from c32_decode_ascii_Ok [OF vs] obtain d where d: "c32_digit (of_nat (of_char c)) = Some d"
    by (auto simp: string_to_bytes_def)
  then have "vs = [d]"
    using c32_decode_digit [OF d] vs bytes_to_string_to_bytes [of "[c]"] by (simp add: string_to_bytes_def)
  then have v: "vs = [v]" "v = d" using res(1) by simp_all
  have asc: "of_char c < (128 :: nat)" "is_ascii t" using s by (simp_all add: is_ascii_Cons)
  have lt: "unat v < 32" using c32_digit_less [OF d] v by simp
  have "c32_char v = Ok (of_nat (of_char (norm_char c)))"
    using c32_char_nat [OF lt] c32_digit_Some(1) [OF asc(1) d] v by simp
  moreover have "c32_encode bs = Ok (c32_normalize t)" by (rule c32_encode_decoded [OF bs(1) asc(2)])
  moreover have "data @ double_sha256_checksum sha256 (v # data) = bs" using res v by simp
  moreover have "of_nat (of_char (norm_char c)) # string_to_bytes (c32_normalize t) = string_to_bytes (c32_normalize s)"
    by (simp add: s string_to_bytes_def c32_normalize_map)
  moreover have "string_from_utf8 (string_to_bytes (c32_normalize s)) = Ok (c32_normalize s)"
    using string_from_ascii [of "string_to_bytes (c32_normalize s)"] is_ascii_normalize [OF s(3)]
    by (simp add: is_ascii_def)
  ultimately have "c32_check_encode sha256 v data = Ok (c32_normalize s)"
    using lt by (simp add: c32_check_encode_def word_le_nat_alt)
  then show ?thesis using res(2) bs(2) lt s(3) by (auto simp: word_less_nat_alt)
qed
lemma c32_decode_no_panic: "c32_check_decode sha256 s \<noteq> Panic"
proof -
  have "c32_decode_ascii t \<noteq> Panic" for t
    by (simp add: c32_decode_ascii_def Let_def case_prod_unfold)
  then show ?thesis by (auto simp: c32_check_decode_def Let_def and_then_eq_Panic split: if_splits)
qed

lemma utf8_char_start: "utf8_char c \<Longrightarrow> \<not> utf8_cont (hd c)"
  by (induction c rule: utf8_char.induct)
    (auto simp: utf8_cont_def word_le_nat_alt word_less_nat_alt split: if_splits)

lemma utf8_char_second: "utf8_char c \<Longrightarrow> 1 < length c \<Longrightarrow> utf8_cont (c ! 1)"
  by (induction c rule: utf8_char.induct)
    (auto simp: utf8_cont_def word_le_nat_alt word_less_nat_alt split: if_splits)

lemma slice_boundary:
  assumes "utf8_split bs = Some (c # cs)" "1 < length bs"
  shows "utf8_cont (bs ! 1) \<longleftrightarrow> 1 < length c"
proof -
  have bs: "bs = c @ concat cs" "utf8_char c" "list_all utf8_char cs"
    using utf8_split_Some [OF assms(1)] by auto
  show ?thesis
  proof (cases "1 < length c")
    case True
    then show ?thesis using utf8_char_second [OF bs(2)] bs(1) by (simp add: nth_append)
  next
    case False
    then obtain a where a: "c = [a]" using bs(2) by (cases c rule: utf8_char.cases) auto
    obtain c' cs' where cs: "cs = c' # cs'" using assms(2) bs(1) a by (cases cs) auto
    then have c': "utf8_char c'" "c' \<noteq> []" using bs(3) utf8_char_width [of c'] by auto
    then have "bs ! 1 = hd c'" using bs(1) a cs by (simp add: nth_append hd_conv_nth)
    then show ?thesis using utf8_char_start [OF c'(1)] a by simp
  qed
qed

text \<open>The text of an address uses the alphabet only.\<close>

lemma C32_CHARACTERS_eq: "C32_CHARACTERS = string_to_bytes C32_CHARACTERS_old"
  by (simp add: C32_CHARACTERS_def C32_CHARACTERS_old_def)

lemma c32_chars_string:
  "digits 32 ds \<Longrightarrow> set (bytes_to_string (map (\<lambda>d. C32_CHARACTERS ! d) ds)) \<subseteq> set C32_CHARACTERS_old"
proof -
  have "map (\<lambda>d. C32_CHARACTERS ! d) ds = string_to_bytes (map (\<lambda>d. C32_CHARACTERS_old ! d) ds)" if "digits 32 ds"
    using that by (induction ds) (auto simp: C32_CHARACTERS_eq string_to_bytes_def C32_CHARACTERS_old_def [THEN arg_cong, of length])
  then show "digits 32 ds \<Longrightarrow> set (bytes_to_string (map (\<lambda>d. C32_CHARACTERS ! d) ds)) \<subseteq> set C32_CHARACTERS_old"
    using C32_CHARACTERS_old_def [THEN arg_cong, of length]
    by (auto simp: digits_def list_all_iff intro!: nth_mem)
qed

lemma c32_check_encode_chars:
  assumes "c32_check_encode sha256 v data = Ok s"
  shows "set s \<subseteq> set C32_CHARACTERS_old"
proof -
  obtain t where t: "c32_encode (data @ double_sha256_checksum sha256 (v # data)) = Ok t"
    "set t \<subseteq> set C32_CHARACTERS_old"
    using c32_encode_spec [of "data @ double_sha256_checksum sha256 (v # data)"] c32_chars_string
    by (metis digits_simps(3-5) zero_less_numeral)
  from assms t obtain b where b: "c32_char v = Ok b" "string_from_utf8 (b # string_to_bytes t) = Ok s"
    by (auto simp: c32_check_encode_def Let_def split: if_splits)
  then have "s = bytes_to_string [b] @ t"
    using bytes_to_string_to_bytes [of t]
    by (auto simp: string_from_utf8_def bytes_to_string_def split: if_splits)
  moreover have "set (bytes_to_string [b]) \<subseteq> set C32_CHARACTERS_old"
    using b(1) c32_chars_string [of "[unat v]"] by (auto simp: c32_char_def split: if_splits)
  ultimately show ?thesis using t(2) by auto
qed

lemma c32_encode_total: "\<exists>t. c32_encode bs = Ok t"
  using c32_encode_spec by blast

lemma c32_address_invalid: "32 \<le> v \<Longrightarrow> c32_address sha256 v data = Err (InvalidVersion v)"
  by (simp add: c32_address_def c32_check_encode_def)

lemma c32_address_inverse:
  assumes "v < 32" "data \<noteq> []"
  shows "\<exists>s. c32_address sha256 v data = Ok s \<and> c32_address_decode sha256 s = Ok (v, data)"
proof -
  obtain s where s: "c32_check_encode sha256 v data = Ok s" "c32_check_decode sha256 s = Ok (v, data)"
    "is_ascii s" "6 \<le> length s" using c32_check_round_trip [OF assms] .
  then obtain c t where "s = c # t" "of_char c < (128 :: nat)" by (cases s) (auto simp: is_ascii_Cons)
  then have "slice_from_1 (''S'' @ s) = Ok s"
    by (simp add: slice_from_1_def string_to_bytes_def utf8_cont_def word_le_nat_alt unat_of_nat_lt)
  then show ?thesis using s by (auto simp: c32_address_def c32_address_decode_def)
qed

section \<open>Properties\<close>

text \<open>C23: An address made of a version below 32 and non-empty data decodes to that version and data.\<close>

theorem c32_address_round_trip:
  assumes "v < 32" "data \<noteq> []"
  shows "\<exists>s. c32_address sha256 v data = Ok s \<and> c32_address_decode sha256 s = Ok (v, data)"
  using assms by (rule c32_address_inverse)

theorem c32_address_round_trip_witness:
  "\<exists>s. c32_address (\<lambda>_. Bytes32 (replicate 32 7)) 22 [0, 1, 2] = Ok s
    \<and> c32_address_decode (\<lambda>_. Bytes32 (replicate 32 7)) s = Ok (22, [0, 1, 2])"
  by (rule c32_address_round_trip) simp_all



text \<open>C37: The table-driven decoder agrees with the implementation it replaced on every string, errors,
  checksum numbers and panics included.\<close>

theorem c32_old_equivalent: "c32_address_decode sha256 s = c32_address_decode_old sha256 s"
  by (simp add: c32_address_decode_def c32_address_decode_old_def c32_check_decode_old_eq [abs_def])

text \<open>On a string of more than five bytes whose first character takes more than one byte, decoding
  panics instead of returning an error; on every other valid string it does not panic.\<close>

lemma c32_address_decode_panics:
  assumes "utf8_split (string_to_bytes s) = Some (c # cs)"
  shows "c32_address_decode sha256 s = Panic \<longleftrightarrow> 5 < length s \<and> 1 < length c"
proof (cases "5 < length s")
  case True
  then have "utf8_cont (string_to_bytes s ! 1) \<longleftrightarrow> 1 < length c"
    by (intro slice_boundary [OF assms]) (simp add: string_to_bytes_def)
  then show ?thesis
    using True c32_decode_no_panic by (simp add: c32_address_decode_def slice_from_1_def)
qed (simp add: c32_address_decode_def)

end
