(* ===== verification/Principals.thy ===== *)
theory Principals
  imports C32 Values Hex
begin

text \<open>
  The textual form of principals, contract identifiers and addresses
  (\<open>clarity/src/vm/types/mod.rs\<close>, \<open>stacks-common/src/types/mod.rs\<close>): their \<open>Display\<close> and their
  parsers over the base-32 addresses of C32. The lemmas show that a well-formed principal whose
  version is below 32 is recovered from its text, and that the texts of the others coincide.
\<close>

section \<open>Formatting and splitting\<close>

fun fmt_dec :: "nat \<Rightarrow> string" where
  "fmt_dec n = (if n < 10 then [char_of (48 + n)] else fmt_dec (n div 10) @ [char_of (48 + n mod 10)])"

fun fmt_hex :: "nat \<Rightarrow> string" where
  "fmt_hex n = (if n < 16 then [hex_digit n] else fmt_hex (n div 16) @ [hex_digit (n mod 16)])"

declare fmt_dec.simps [simp del] fmt_hex.simps [simp del]

text \<open>\<open>str::splitn\<close> with a one-character separator.\<close>

fun splitn :: "nat \<Rightarrow> char \<Rightarrow> string \<Rightarrow> string list" where
  "splitn 0 sep s = []"
| "splitn (Suc 0) sep s = [s]"
| "splitn (Suc (Suc n)) sep s =
     (if sep \<in> set s
      then takeWhile (\<lambda>c. c \<noteq> sep) s # splitn (Suc n) sep (tl (dropWhile (\<lambda>c. c \<noteq> sep) s))
      else [s])"

fun fmt_address_error :: "address_error \<Rightarrow> string" where
  "fmt_address_error InvalidCrockford32 = ''Invalid crockford 32 string''"
| "fmt_address_error (InvalidVersion v) = ''Invalid version '' @ fmt_dec (unat v)"
| "fmt_address_error EmptyData = ''Empty data''"
| "fmt_address_error (BadByte b) = ''invalid base58 character 0x'' @ fmt_hex (unat b)"
| "fmt_address_error (BadChecksum exp actual) =
     ''base58ck checksum 0x'' @ fmt_hex (unat actual) @ '' does not match expected 0x'' @ fmt_hex (unat exp)"
| "fmt_address_error (InvalidLength ell) = ''length '' @ fmt_dec ell @ '' invalid for this base58 type''"
| "fmt_address_error (TooShort _) = ''base58ck data not even long enough for a checksum''"
| "fmt_address_error (OtherAddressError s) = s"

section \<open>Principals\<close>

definition runtime_err :: "('e \<Rightarrow> runtime_error_type) \<Rightarrow> ('e, 'a) result \<Rightarrow> 'a interpreter_result" where
  "runtime_err f = map_err (\<lambda>e. Runtime (f e) None)"

definition transient :: standard_principal_data where
  "transient = StandardPrincipalData 1 [1, 1, 1, 1, 1, 1, 1, 1, 1, 1, 1, 1, 1, 1, 1, 1, 1, 1, 1, 1]"

definition qci_local :: "string \<Rightarrow> qualified_contract_identifier interpreter_result" where
  "qci_local name =
     map_ok (\<lambda>name. \<lparr>qci_issuer = transient, qci_name = name\<rparr>)
       (runtime_err (\<lambda>e. e) (contract_name_try_from name))"

definition qci_transient :: "(unit, qualified_contract_identifier) result" where
  "qci_transient =
     map_ok (\<lambda>name. \<lparr>qci_issuer = transient, qci_name = name\<rparr>)
       (expect (contract_name_try_from ''__transient''))"

definition parse_standard_principal ::
    "(u8 list \<Rightarrow> bytes32) \<Rightarrow> string \<Rightarrow> standard_principal_data interpreter_result" where
  "parse_standard_principal sha256 literal =
     and_then (runtime_err (\<lambda>x. RT_ParseError (''Invalid principal literal: '' @ fmt_address_error x))
       (c32_address_decode sha256 literal)) (\<lambda>(version, data).
     if length data \<noteq> 20 then
       Err (Runtime (RT_ParseError ''Invalid principal literal: Expected 20 data bytes.'') None)
     else Ok (StandardPrincipalData version data))"

definition qci_parse ::
    "(u8 list \<Rightarrow> bytes32) \<Rightarrow> string \<Rightarrow> qualified_contract_identifier interpreter_result" where
  "qci_parse sha256 literal =
     (let split = splitn 2 (CHR ''.'') literal in
      if length split \<noteq> 2 then
        Err (Runtime (RT_ParseError
          ''Invalid principal literal: expected a `.` in a qualified contract name'') None)
      else
        and_then (parse_standard_principal sha256 (split ! 0)) (\<lambda>sender.
        and_then (runtime_err (\<lambda>e. e) (contract_name_try_from (split ! 1))) (\<lambda>name.
        Ok \<lparr>qci_issuer = sender, qci_name = name\<rparr>)))"

definition parse_qualified_contract_principal ::
    "(u8 list \<Rightarrow> bytes32) \<Rightarrow> string \<Rightarrow> principal_data interpreter_result" where
  "parse_qualified_contract_principal sha256 literal = map_ok Contract (qci_parse sha256 literal)"

definition principal_parse :: "(u8 list \<Rightarrow> bytes32) \<Rightarrow> string \<Rightarrow> principal_data interpreter_result" where
  "principal_parse sha256 literal =
     (let literal = (if take 1 literal = [CHR 0x27] then drop 1 literal else literal) in
      if CHR ''.'' \<in> set literal then parse_qualified_contract_principal sha256 literal
      else map_ok Standard (parse_standard_principal sha256 literal))"

definition trait_parse :: "(u8 list \<Rightarrow> bytes32) \<Rightarrow> string
    \<Rightarrow> (standard_principal_data option \<times> contract_name \<times> clarity_name) interpreter_result" where
  "trait_parse sha256 literal =
     (let split = splitn 3 (CHR ''.'') literal in
      if length split \<noteq> 3 then
        Err (Runtime (RT_ParseError
          ''Invalid principal literal: expected a `.` in a qualified contract name'') None)
      else
        and_then (if length (split ! 0) = 0 then Ok None
                  else map_ok Some (parse_standard_principal sha256 (split ! 0))) (\<lambda>issuer.
        and_then (runtime_err (\<lambda>e. e) (contract_name_try_from (split ! 1))) (\<lambda>contract_name.
        and_then (runtime_err (\<lambda>e. e) (clarity_name_try_from (split ! 2))) (\<lambda>name.
        Ok (issuer, contract_name, name)))))"

definition parse_fully_qualified ::
    "(u8 list \<Rightarrow> bytes32) \<Rightarrow> string \<Rightarrow> trait_identifier interpreter_result" where
  "parse_fully_qualified sha256 literal =
     and_then (trait_parse sha256 literal) (\<lambda>(issuer, contract_name, name).
     and_then (ok_or issuer (Runtime RT_BadTypeConstruction None)) (\<lambda>issuer.
     Ok \<lparr>ti_name = name, ti_contract_identifier = \<lparr>qci_issuer = issuer, qci_name = contract_name\<rparr>\<rparr>))"

definition parse_sugared_syntax ::
    "(u8 list \<Rightarrow> bytes32) \<Rightarrow> string \<Rightarrow> (contract_name \<times> clarity_name) interpreter_result" where
  "parse_sugared_syntax sha256 literal =
     map_ok (\<lambda>(_, contract_name, name). (contract_name, name)) (trait_parse sha256 literal)"

text \<open>\<open>unwrap_or_else\<close> replaces an error; a panic inside \<open>c32_address\<close> would remain one.\<close>

fun to_address :: "(u8 list \<Rightarrow> bytes32) \<Rightarrow> standard_principal_data \<Rightarrow> (unit, string) result" where
  "to_address sha256 (StandardPrincipalData version data) =
     (case c32_address sha256 version data of
        Ok s \<Rightarrow> Ok s
      | Err _ \<Rightarrow> Ok ''INVALID_C32_ADD''
      | Panic \<Rightarrow> Panic)"

definition qci_to_string :: "(u8 list \<Rightarrow> bytes32) \<Rightarrow> qualified_contract_identifier \<Rightarrow> (unit, string) result" where
  "qci_to_string sha256 c = map_ok (\<lambda>issuer. issuer @ ''.'' @ qci_name c) (to_address sha256 (qci_issuer c))"

fun principal_to_string :: "(u8 list \<Rightarrow> bytes32) \<Rightarrow> principal_data \<Rightarrow> (unit, string) result" where
  "principal_to_string sha256 (Standard sender) = to_address sha256 sender"
| "principal_to_string sha256 (Contract c) =
     map_ok (\<lambda>issuer. issuer @ ''.'' @ qci_name c) (to_address sha256 (qci_issuer c))"

definition trait_to_string :: "(u8 list \<Rightarrow> bytes32) \<Rightarrow> trait_identifier \<Rightarrow> (unit, string) result" where
  "trait_to_string sha256 t =
     map_ok (\<lambda>c. c @ ''.'' @ ti_name t) (qci_to_string sha256 (ti_contract_identifier t))"

section \<open>Addresses\<close>

definition C32_ADDRESS_VERSION_MAINNET_SINGLESIG :: u8 where
  "C32_ADDRESS_VERSION_MAINNET_SINGLESIG = 22"

definition C32_ADDRESS_VERSION_MAINNET_MULTISIG :: u8 where
  "C32_ADDRESS_VERSION_MAINNET_MULTISIG = 20"

definition C32_ADDRESS_VERSION_TESTNET_SINGLESIG :: u8 where
  "C32_ADDRESS_VERSION_TESTNET_SINGLESIG = 26"

definition C32_ADDRESS_VERSION_TESTNET_MULTISIG :: u8 where
  "C32_ADDRESS_VERSION_TESTNET_MULTISIG = 21"

record stacks_address =
  sa_version :: u8
  sa_bytes :: bytes20

datatype address_hash_mode = SerializeP2PKH | SerializeP2SH | SerializeP2WPKH | SerializeP2WSH

definition to_version_mainnet :: "address_hash_mode \<Rightarrow> u8" where
  "to_version_mainnet m =
     (if m = SerializeP2PKH then C32_ADDRESS_VERSION_MAINNET_SINGLESIG
      else C32_ADDRESS_VERSION_MAINNET_MULTISIG)"

definition to_version_testnet :: "address_hash_mode \<Rightarrow> u8" where
  "to_version_testnet m =
     (if m = SerializeP2PKH then C32_ADDRESS_VERSION_TESTNET_SINGLESIG
      else C32_ADDRESS_VERSION_TESTNET_MULTISIG)"

definition hash_mode_from_version :: "u8 \<Rightarrow> address_hash_mode" where
  "hash_mode_from_version version =
     (if version = C32_ADDRESS_VERSION_TESTNET_SINGLESIG \<or> version = C32_ADDRESS_VERSION_MAINNET_SINGLESIG
      then SerializeP2PKH else SerializeP2SH)"

definition hash_mode_try_from :: "u8 \<Rightarrow> (address_error, address_hash_mode) result" where
  "hash_mode_try_from v =
     (if v = 0x00 then Ok SerializeP2PKH
      else if v = 0x01 then Ok SerializeP2SH
      else if v = 0x02 then Ok SerializeP2WPKH
      else if v = 0x03 then Ok SerializeP2WSH
      else Err (InvalidVersion v))"

definition is_mainnet :: "stacks_address \<Rightarrow> bool" where
  "is_mainnet a \<longleftrightarrow> sa_version a = C32_ADDRESS_VERSION_MAINNET_MULTISIG
     \<or> sa_version a = C32_ADDRESS_VERSION_MAINNET_SINGLESIG"

definition burn_address :: "bool \<Rightarrow> stacks_address" where
  "burn_address mainnet = \<lparr>
     sa_version = (if mainnet then C32_ADDRESS_VERSION_MAINNET_SINGLESIG
                   else C32_ADDRESS_VERSION_TESTNET_SINGLESIG),
     sa_bytes = Bytes20 (replicate 20 0)\<rparr>"

definition is_burn :: "stacks_address \<Rightarrow> bool" where
  "is_burn a \<longleftrightarrow> sa_bytes a = Bytes20 (replicate 20 0)"

definition address_to_string :: "(u8 list \<Rightarrow> bytes32) \<Rightarrow> stacks_address \<Rightarrow> (unit, string) result" where
  "address_to_string sha256 a = expect (c32_address sha256 (sa_version a) (bytes20_bits (sa_bytes a)))"

definition address_from_string :: "(u8 list \<Rightarrow> bytes32) \<Rightarrow> string \<Rightarrow> (unit, stacks_address option) result" where
  "address_from_string sha256 s =
     (case c32_address_decode sha256 s of
        Ok (version, bytes) \<Rightarrow>
          if length bytes \<noteq> 20 then Ok None
          else Ok (Some \<lparr>sa_version = version, sa_bytes = Bytes20 bytes\<rparr>)
      | Err _ \<Rightarrow> Ok None
      | Panic \<Rightarrow> Panic)"

definition to_account_principal :: "stacks_address \<Rightarrow> principal_data" where
  "to_account_principal a = Standard (StandardPrincipalData (sa_version a) (bytes20_bits (sa_bytes a)))"

definition address_from_principal :: "standard_principal_data \<Rightarrow> stacks_address" where
  "address_from_principal p = (case p of StandardPrincipalData version data \<Rightarrow>
     \<lparr>sa_version = version, sa_bytes = Bytes20 data\<rparr>)"


section \<open>Texts\<close>

lemma splitn_two: "CHR ''.'' \<notin> set a \<Longrightarrow> splitn 2 (CHR ''.'') (a @ ''.'' @ b) = [a, b]"
  by (simp add: numeral_2_eq_2 takeWhile_append dropWhile_append)

lemma alphabet_no_dot: "CHR ''.'' \<notin> set C32_CHARACTERS_old" "CHR 0x27 \<notin> set C32_CHARACTERS_old"
  by (simp_all add: C32_CHARACTERS_old_def)

lemma to_address_parse:
  assumes "wf_standard_principal p" "p = StandardPrincipalData v data" "v < 32"
  obtains s where "to_address sha256 p = Ok s" "parse_standard_principal sha256 s = Ok p"
    "CHR ''.'' \<notin> set s" "hd s = CHR ''S''" "s \<noteq> []"
proof -
  have len: "length data = 20" using assms(1,2) by (simp add: wf_standard_principal_def)
  then have "data \<noteq> []" by auto
  from c32_address_inverse [OF assms(3) this, of sha256] obtain s where
    s: "c32_address sha256 v data = Ok s" "c32_address_decode sha256 s = Ok (v, data)" by blast
  from s(1) obtain t where t: "s = ''S'' @ t" "set t \<subseteq> set C32_CHARACTERS_old"
    by (auto simp: c32_address_def dest: c32_check_encode_chars)
  have "CHR ''.'' \<notin> set s" using t alphabet_no_dot(1) by auto
  then show thesis
    using that [of s] s t(1) assms(2) len by (simp add: parse_standard_principal_def runtime_err_def)
qed

lemma principal_text_parses:
  assumes "wf_principal p" "principal_version p < 32"
  shows "\<exists>s. principal_to_string sha256 p = Ok s \<and> principal_parse sha256 s = Ok p"
proof (cases p)
  case (Standard q)
  then obtain v data where q: "q = StandardPrincipalData v data" by (cases q)
  obtain s where "to_address sha256 q = Ok s" "parse_standard_principal sha256 s = Ok q"
    "CHR ''.'' \<notin> set s" "hd s = CHR ''S''" "s \<noteq> []"
    using to_address_parse [of q v data] assms Standard q by auto
  then show ?thesis using Standard by (cases s) (auto simp: principal_parse_def)
next
  case (Contract c)
  then obtain v data where q: "qci_issuer c = StandardPrincipalData v data" by (cases "qci_issuer c")
  obtain s where s: "to_address sha256 (qci_issuer c) = Ok s" "parse_standard_principal sha256 s = Ok (qci_issuer c)"
    "CHR ''.'' \<notin> set s" "hd s = CHR ''S''" "s \<noteq> []"
    using to_address_parse [of "qci_issuer c" v data] assms Contract q by auto
  have "contract_name_try_from (qci_name c) = Ok (qci_name c)"
    using assms(1) Contract by (simp add: valid_contract_name_def)
  then have "qci_parse sha256 (s @ ''.'' @ qci_name c) = Ok c"
    using s splitn_two [OF s(3), of "qci_name c"] by (simp add: qci_parse_def runtime_err_def)
  then show ?thesis
    using Contract s by (cases s) (auto simp: principal_parse_def parse_qualified_contract_principal_def)
qed

section \<open>Properties\<close>

text \<open>C38: A well-formed principal whose version is below 32 prints without panicking, and parsing its
  text returns it, for standard and contract principals alike.\<close>

theorem principal_text_round_trip:
  assumes "wf_principal p" "principal_version p < 32"
  shows "\<exists>s. principal_to_string sha256 p = Ok s \<and> principal_parse sha256 s = Ok p"
  using assms by (rule principal_text_parses)

theorem principal_text_round_trip_witness:
  "\<exists>s. principal_to_string (\<lambda>_. Bytes32 (replicate 32 9)) (Standard transient) = Ok s
    \<and> principal_parse (\<lambda>_. Bytes32 (replicate 32 9)) s = Ok (Standard transient)"
  by (rule principal_text_round_trip) (simp_all add: transient_def wf_standard_principal_def)

text \<open>Every standard principal whose version is 32 or more has the same text, which does not parse:
  such principals cannot be told apart by their text.\<close>

lemma invalid_version_texts_collide:
  assumes "32 \<le> v" "32 \<le> w"
  shows "principal_to_string sha256 (Standard (StandardPrincipalData v a))
      = principal_to_string sha256 (Standard (StandardPrincipalData w b))
    \<and> (\<forall>s p. principal_to_string sha256 (Standard (StandardPrincipalData v a)) = Ok s
        \<longrightarrow> principal_parse sha256 s \<noteq> Ok p)"
proof -
  have "parse_standard_principal sha256 ''INVALID_C32_ADD'' \<noteq> Ok q" for q
  proof
    assume "parse_standard_principal sha256 ''INVALID_C32_ADD'' = Ok q"
    then obtain x where "c32_decode_ascii ''VALID_C32_ADD'' = Ok x"
      by (auto simp: parse_standard_principal_def runtime_err_def c32_address_decode_def
          slice_from_1_def c32_check_decode_def split: if_splits)
    from c32_decode_ascii_Ok [OF this] have "c32_digit 95 \<noteq> None"
      by (auto simp: string_to_bytes_def)
    moreover have "c32_digit 95 = None" by code_simp
    ultimately show False by simp
  qed
  then show ?thesis using assms by (auto simp: c32_address_invalid principal_parse_def)
qed

end
