(* ===== verification/Base58.thy ===== *)
theory Base58
  imports C32
begin

text \<open>
  The base-58 codec of \<open>stacks-common/src/address/b58.rs\<close>, with and without checksum. The lemmas show
  that encoding and decoding are changes of base that keep leading zeros, that the scratch buffer
  is large enough, and that decoding does not panic on a valid string.
\<close>

definition BASE58_CHARS :: "u8 list" where
  "BASE58_CHARS = string_to_bytes ''123456789ABCDEFGHJKLMNPQRSTUVWXYZabcdefghijkmnopqrstuvwxyz''"

definition BASE58_DIGITS :: "u8 option list" where
  "BASE58_DIGITS =
     replicate 49 None
     @ map Some [0, 1, 2, 3, 4, 5, 6, 7, 8]
     @ replicate 7 None
     @ map Some [9, 10, 11, 12, 13, 14, 15, 16]
     @ [None]
     @ map Some [17, 18, 19, 20, 21]
     @ [None]
     @ map Some [22, 23, 24, 25, 26, 27, 28, 29, 30, 31, 32]
     @ replicate 6 None
     @ map Some [33, 34, 35, 36, 37, 38, 39, 40, 41, 42, 43]
     @ [None]
     @ map Some [44, 45, 46, 47, 48, 49, 50, 51, 52, 53, 54, 55, 56, 57]
     @ replicate 5 None"

section \<open>Decoding\<close>

text \<open>One pass over the scratch buffer, given from its last element to its first.\<close>

fun scratch_pass :: "u8 list \<Rightarrow> u32 \<Rightarrow> u8 list \<times> u32" where
  "scratch_pass [] carry = ([], carry)"
| "scratch_pass (d256 # ds) carry =
     (let carry = carry + ucast d256 * 58;
          (ds', carry') = scratch_pass ds (carry div 256)
      in (ucast carry # ds', carry'))"

fun b58_decode_loop :: "u8 list \<Rightarrow> u8 list \<Rightarrow> (address_error, u8 list) result" where
  "b58_decode_loop [] scratch = Ok scratch"
| "b58_decode_loop (d58 # bs) scratch =
     (if unat d58 > length BASE58_DIGITS then Err (BadByte d58)
      else if unat d58 \<ge> length BASE58_DIGITS then Panic
      else case BASE58_DIGITS ! unat d58 of
        None \<Rightarrow> Err (BadByte d58)
      | Some d \<Rightarrow>
          let (scratch', carry) = scratch_pass (rev scratch) (ucast d) in
          if carry \<noteq> 0 then Panic else b58_decode_loop bs (rev scratch'))"

definition b58_from :: "string \<Rightarrow> (address_error, u8 list) result" where
  "b58_from data =
     (let scratch = replicate (1 + length data * 11 div 15) 0 in
      and_then (b58_decode_loop (string_to_bytes data) scratch) (\<lambda>scratch.
      let ret = map (\<lambda>_. 0) (takeWhile (\<lambda>x. x = BASE58_CHARS ! 0) (string_to_bytes data))
      in Ok (ret @ dropWhile (\<lambda>x. x = 0) scratch)))"

definition double_sha256_data :: "(u8 list \<Rightarrow> bytes32) \<Rightarrow> u8 list \<Rightarrow> u8 list" where
  "double_sha256_data sha256 data = bytes32_bits (sha256 (bytes32_bits (sha256 data)))"

text \<open>The little-endian number of four bytes (\<open>into_le().low_u32()\<close>, \<open>u32::from_le_bytes\<close>).\<close>

definition le_u32 :: "u8 list \<Rightarrow> u32" where
  "le_u32 bs = from_be_bytes (rev (take 4 bs))"

definition b58_from_check :: "(u8 list \<Rightarrow> bytes32) \<Rightarrow> string \<Rightarrow> (address_error, u8 list) result" where
  "b58_from_check sha256 data =
     and_then (b58_from data) (\<lambda>ret.
     if length ret < 4 then Err (TooShort (length ret))
     else
       let ck_start = length ret - 4;
           expected = le_u32 (double_sha256_data sha256 (take ck_start ret));
           actual = le_u32 (drop ck_start ret)
       in if expected \<noteq> actual then Err (BadChecksum expected actual)
          else Ok (take ck_start ret))"

section \<open>Encoding\<close>

text \<open>One pass over the digits, least significant first; the carry is a \<open>usize\<close>.\<close>

fun digit_pass :: "u8 list \<Rightarrow> nat \<Rightarrow> u8 list \<times> nat" where
  "digit_pass [] carry = ([], carry)"
| "digit_pass (ch # chs) carry =
     (let new_ch = unat ch * 256 + carry;
          (chs', carry') = digit_pass chs (new_ch div 58)
      in (of_nat (new_ch mod 58) # chs', carry'))"

function push_carry :: "u8 list \<Rightarrow> nat \<Rightarrow> u8 list" where
  "push_carry ret carry =
     (if carry > 0 then push_carry (ret @ [of_nat (carry mod 58)]) (carry div 58) else ret)"
  by pat_completeness auto
termination
  by (relation "measure snd") auto

declare push_carry.simps [simp del]

fun b58_encode_loop :: "u8 list \<Rightarrow> u8 list \<Rightarrow> nat \<Rightarrow> bool \<Rightarrow> u8 list \<times> nat" where
  "b58_encode_loop [] ret leading_zero_count leading_zeroes = (ret, leading_zero_count)"
| "b58_encode_loop (d256 # data) ret leading_zero_count leading_zeroes =
     (let carry = unat d256;
          (leading_zero_count, leading_zeroes) =
            (if leading_zeroes \<and> carry = 0 then (leading_zero_count + 1, leading_zeroes)
             else (leading_zero_count, False));
          (ret, carry) = digit_pass ret carry
      in b58_encode_loop data (push_carry ret carry) leading_zero_count leading_zeroes)"

fun b58_chars :: "u8 list \<Rightarrow> (address_error, u8 list) result" where
  "b58_chars [] = Ok []"
| "b58_chars (ch # chs) =
     (if unat ch \<ge> length BASE58_CHARS then Panic
      else map_ok (\<lambda>cs. BASE58_CHARS ! unat ch # cs) (b58_chars chs))"

definition encode_iter_utf8 :: "u8 list \<Rightarrow> (address_error, u8 list) result" where
  "encode_iter_utf8 data =
     (let (ret, leading_zero_count) = b58_encode_loop data [] 0 True;
          ret = ret @ replicate leading_zero_count 0
      in b58_chars (rev ret))"

definition encode_iter :: "u8 list \<Rightarrow> (address_error, string) result" where
  "encode_iter data = and_then (encode_iter_utf8 data) string_from_utf8"

definition encode_slice :: "u8 list \<Rightarrow> (address_error, string) result" where
  "encode_slice data = encode_iter data"

definition check_encode_slice :: "(u8 list \<Rightarrow> bytes32) \<Rightarrow> u8 list \<Rightarrow> (address_error, string) result" where
  "check_encode_slice sha256 data =
     (let checksum = double_sha256_data sha256 data in encode_iter (data @ take 4 checksum))"


section \<open>Change of base\<close>

definition b58_digit :: "u8 \<Rightarrow> u8 option" where
  "b58_digit b = (if unat b < length BASE58_DIGITS then BASE58_DIGITS ! unat b else None)"

lemma length_BASE58 [simp]: "length BASE58_CHARS = 58" "length BASE58_DIGITS = 128"
  by (simp_all add: BASE58_CHARS_def BASE58_DIGITS_def string_to_bytes_def)

lemma b58_table: "list_all (\<lambda>i. b58_digit (BASE58_CHARS ! i) = Some (of_nat i)) [0..<58]"
  by code_simp

lemma b58_ascii: "list_all (\<lambda>c. c < 128) BASE58_CHARS"
  by code_simp

interpretation b58: alphabet BASE58_CHARS b58_digit
  using b58_table b58_ascii by unfold_locales (auto simp: list_all_iff)

lemma b58_digit_less: "b58_digit x = Some d \<Longrightarrow> unat d < 58"
proof -
  have "list_all (\<lambda>d. case d of Some d \<Rightarrow> unat d < 58 | None \<Rightarrow> True) BASE58_DIGITS" by code_simp
  then show "b58_digit x = Some d \<Longrightarrow> unat d < 58"
    by (auto simp: b58_digit_def list_all_length split: if_splits option.splits)
qed

lemma scratch_pass_spec:
  "unat carry < 58 \<Longrightarrow> scratch_pass ds carry = (ds', carry') \<Longrightarrow>
    length ds' = length ds \<and> unat carry' < 58
    \<and> lval 256 (map unat ds') + 256 ^ length ds * unat carry' = unat carry + 58 * lval 256 (map unat ds)"
proof (induction ds arbitrary: carry ds' carry')
  case (Cons d ds)
  define c where "c = carry + ucast d * 58"
  have d: "unat d < 256" using unat_lt [of d] by simp
  have "unat carry + unat d * 58 < 2 ^ 32" using d Cons.prems(1) by simp
  moreover have "carry + ucast d * 58 = of_nat (unat carry + unat d * 58)" by simp
  ultimately have c: "unat c = unat carry + unat d * 58"
    unfolding c_def by (simp add: unat_of_nat_lt del: of_nat_add of_nat_mult)
  have "unat (c div 256) = unat c div 256" by (simp add: unat_div)
  then have q: "unat (c div 256) = unat c div 256" "unat (c div 256) < 58" using c d Cons.prems(1) by simp_all
  obtain es e where es: "scratch_pass ds (c div 256) = (es, e)" by (cases "scratch_pass ds (c div 256)")
  note ih = Cons.IH [OF q(2) es]
  have "unat (ucast c :: u8) = unat c mod 256" by (simp add: unsigned_ucast_eq take_bit_eq_mod)
  moreover have "ds' = ucast c # es" "carry' = e" using Cons.prems(2) es by (simp_all add: c_def Let_def)
  ultimately have "lval 256 (map unat ds') + 256 ^ length (d # ds) * unat carry'
      = unat c mod 256 + 256 * (lval 256 (map unat es) + 256 ^ length ds * unat e)"
    by (simp add: algebra_simps)
  also have "lval 256 (map unat es) + 256 ^ length ds * unat e = unat c div 256 + 58 * lval 256 (map unat ds)"
    using ih q(1) by simp
  finally show ?case
    using ih c \<open>ds' = _\<close> \<open>carry' = _\<close> by (simp add: algebra_simps)
qed simp

lemma scratch_size: "58 ^ n \<le> (256 :: nat) ^ (1 + n * 11 div 15)"
proof -
  have "(58 :: nat) ^ 15 \<le> 256 ^ 11" by simp
  then have "((58 :: nat) ^ 15) ^ n \<le> (256 ^ 11) ^ n" by (rule power_mono) simp
  then have "((58 :: nat) ^ n) ^ 15 \<le> 256 ^ (11 * n)"
    by (simp only: power_mult [symmetric] mult.commute)
  also have "\<dots> \<le> 256 ^ ((1 + n * 11 div 15) * 15)" by (rule power_increasing) auto
  also have "\<dots> = (256 ^ (1 + n * 11 div 15)) ^ 15" by (rule power_mult)
  finally show ?thesis by (meson leI power_strict_mono not_le zero_le zero_less_numeral)
qed

lemma b58_decode_loop_spec:
  "\<lbrakk>map b58_digit bs = map Some ds; lval 256 (rev (map unat scratch)) < 58 ^ k; 58 ^ (k + length bs) \<le> (256 :: nat) ^ length scratch\<rbrakk> \<Longrightarrow>
    \<exists>scratch'. b58_decode_loop bs scratch = Ok scratch'
      \<and> lval 256 (rev (map unat scratch')) = lval 58 (rev (map unat ds)) + 58 ^ length bs * lval 256 (rev (map unat scratch))"
proof (induction bs arbitrary: ds scratch k)
  case (Cons b bs)
  then obtain d ds' where ds: "ds = d # ds'" "b58_digit b = Some d" "map b58_digit bs = map Some ds'" by auto
  have b: "unat b < 128" "BASE58_DIGITS ! unat b = Some d" using ds(2) by (auto simp: b58_digit_def split: if_splits)
  have d: "unat (ucast d :: u32) = unat d" "unat d < 58"
    using b58_digit_less [OF ds(2)] by (simp_all add: unsigned_ucast_eq take_bit_eq_mod)
  obtain s c where sc: "scratch_pass (rev scratch) (ucast d) = (s, c)" by (cases "scratch_pass (rev scratch) (ucast d)")
  have spec: "length s = length scratch" "lval 256 (map unat s) + 256 ^ length scratch * unat c
      = unat d + 58 * lval 256 (rev (map unat scratch))"
    using scratch_pass_spec [OF _ sc] d by (simp_all add: rev_map)
  have lt: "unat d + 58 * lval 256 (rev (map unat scratch)) < 58 ^ Suc k"
    using Cons.prems(2) d(2) by (simp add: Suc_le_eq [symmetric])
  also have "\<dots> \<le> 58 ^ (k + length (b # bs))" by (rule power_increasing) auto
  also have "\<dots> \<le> 256 ^ length scratch" by (rule Cons.prems(3))
  finally have "256 ^ length scratch * unat c < 256 ^ length scratch" using spec(2) by linarith
  then have c: "c = 0" by (simp add: unat_eq_0)
  with spec lt have v: "lval 256 (rev (map unat (rev s))) = unat d + 58 * lval 256 (rev (map unat scratch))"
    by (simp add: rev_map)
  obtain s' where s': "b58_decode_loop bs (rev s) = Ok s'"
    "lval 256 (rev (map unat s')) = lval 58 (rev (map unat ds')) + 58 ^ length bs * lval 256 (rev (map unat (rev s)))"
    using Cons.IH [OF ds(3), of "rev s" "Suc k"] v lt Cons.prems(3) spec(1) by auto
  have "b58_decode_loop (b # bs) scratch = Ok s'" using b sc c s'(1) by simp
  moreover have "length ds' = length bs" using arg_cong [OF ds(3), of length] by simp
  ultimately show ?case
    using s'(2) v ds(1) by (simp add: lval_append algebra_simps)
qed simp

lemma digit_pass_spec:
  "\<lbrakk>carry < 256; digits 58 (map unat chs); digit_pass chs carry = (chs', carry')\<rbrakk> \<Longrightarrow>
    length chs' = length chs \<and> carry' < 256 \<and> digits 58 (map unat chs')
    \<and> lval 58 (map unat chs') + 58 ^ length chs * carry' = carry + 256 * lval 58 (map unat chs)"
proof (induction chs arbitrary: carry chs' carry')
  case (Cons ch chs)
  define n where "n = unat ch * 256 + carry"
  have n: "n div 58 < 256" using Cons.prems(1,2) by (simp add: n_def div_less_iff_less_mult)
  obtain es e where es: "digit_pass chs (n div 58) = (es, e)" by (cases "digit_pass chs (n div 58)")
  note ih = Cons.IH [OF n _ es]
  have u: "unat (of_nat (n mod 58) :: u8) = n mod 58" by (simp add: unat_of_nat_lt)
  have "chs' = of_nat (n mod 58) # es" "carry' = e" using Cons.prems(3) es by (simp_all add: n_def Let_def)
  moreover have "n mod 58 + 58 * (lval 58 (map unat es) + 58 ^ length chs * e) = carry + 256 * (unat ch + 58 * lval 58 (map unat chs))"
    using ih Cons.prems(2) by (simp add: n_def algebra_simps)
  ultimately show ?case
    using ih Cons.prems(2) u by (simp add: algebra_simps)
qed simp

lemma push_carry_spec:
  "\<exists>es. push_carry ret carry = ret @ es \<and> digits 58 (map unat es) \<and> lval 58 (map unat es) = carry
    \<and> canonical (map unat es)"
proof (induction ret carry rule: push_carry.induct)
  case (1 ret carry)
  show ?case
  proof (cases "carry > 0")
    case True
    then obtain es where es: "push_carry (ret @ [of_nat (carry mod 58)]) (carry div 58) = (ret @ [of_nat (carry mod 58)]) @ es"
      "digits 58 (map unat es)" "lval 58 (map unat es) = carry div 58" "canonical (map unat es)"
      using 1 by blast
    have u: "unat (of_nat (carry mod 58) :: u8) = carry mod 58" by (simp add: unat_of_nat_lt)
    have "canonical (map unat (of_nat (carry mod 58) # es))"
    proof (cases "es = []")
      case True
      then show ?thesis using es(3) \<open>0 < carry\<close> u by (auto simp: canonical_def)
    qed (use es(4) in \<open>simp add: canonical_def\<close>)
    then show ?thesis
      using True es u by (subst push_carry.simps) (auto intro!: exI [of _ "of_nat (carry mod 58) # es"])
  qed (subst push_carry.simps, simp add: canonical_def)
qed


lemma canonical_large:
  assumes "digits B es" "B ^ (length es - 1) \<le> lval B es" "0 < B"
  shows "canonical es"
proof (cases es rule: rev_cases)
  case (snoc xs x)
  have "x \<noteq> 0"
  proof
    assume "x = 0"
    then have "lval B es = lval B xs" by (simp add: snoc lval_append)
    moreover have "lval B xs < B ^ length xs" using lval_less [of B xs] assms(1,3) by (simp add: snoc)
    ultimately show False using assms(2) by (simp add: snoc)
  qed
  then show ?thesis by (simp add: canonical_def snoc)
qed (simp add: canonical_def)

lemma b58_step:
  assumes "digits 58 (map unat ret)" "canonical (map unat ret)" "digit_pass ret (unat (d :: u8)) = (es, c)"
  shows "digits 58 (map unat (push_carry es c)) \<and> canonical (map unat (push_carry es c))
    \<and> lval 58 (map unat (push_carry es c)) = unat d + 256 * lval 58 (map unat ret)"
proof -
  have "unat d < 256" using unat_lt [of d] by simp
  note es = digit_pass_spec [OF this assms(1,3)]
  obtain fs where fs: "push_carry es c = es @ fs" "digits 58 (map unat fs)" "lval 58 (map unat fs) = c"
    "canonical (map unat fs)" using push_carry_spec by blast
  have val: "lval 58 (map unat (es @ fs)) = unat d + 256 * lval 58 (map unat ret)"
    using es fs(3) by (simp add: lval_append)
  have "canonical (map unat (es @ fs))"
  proof (cases "fs = [] \<and> es \<noteq> []")
    case True
    then have "ret \<noteq> []" using es by auto
    then have "58 ^ (length ret - 1) \<le> lval 58 (map unat ret)" using canonical_ge [OF assms(2), of 58] by simp
    then have "58 ^ (length ret - 1) \<le> lval 58 (map unat (es @ fs))" unfolding val by simp
    then show ?thesis using True es by (intro canonical_large [of 58]) auto
  next
    case False
    then show ?thesis using fs(4) by (auto simp: canonical_def)
  qed
  then show ?thesis using es fs val by simp
qed

lemma b58_encode_loop_spec:
  "\<lbrakk>digits 58 (map unat ret); canonical (map unat ret); b58_encode_loop data ret lz lead = (ret', lz')\<rbrakk> \<Longrightarrow>
    digits 58 (map unat ret') \<and> canonical (map unat ret')
    \<and> lval 58 (map unat ret') = lval 256 (rev (map unat data)) + 256 ^ length data * lval 58 (map unat ret)
    \<and> lz' = lz + (if lead then zeros (map unat data) else 0)"
proof (induction data arbitrary: ret lz lead)
  case (Cons d data)
  obtain es c where es: "digit_pass ret (unat d) = (es, c)" by (cases "digit_pass ret (unat d)")
  note step = b58_step [OF Cons.prems(1,2) es]
  have "b58_encode_loop data (push_carry es c) (if lead \<and> d = 0 then lz + 1 else lz) (lead \<and> d = 0) = (ret', lz')"
    using Cons.prems(3) es by (auto simp: Let_def unat_eq_0 split: if_splits)
  from Cons.IH [OF _ _ this] step show ?case
    by (auto simp: lval_append zeros_def unat_eq_0 algebra_simps)
qed (simp add: zeros_def)

lemma b58_chars_eq: "digits 58 (map unat chs) \<Longrightarrow> b58_chars chs = Ok (map (\<lambda>ch. BASE58_CHARS ! unat ch) chs)"
  by (induction chs) auto

lemma unat_of_digits58: "digits 58 es \<Longrightarrow> map (\<lambda>x. unat (of_nat x :: u8)) es = es"
  using unat_of_digits [OF digits_mono [of 58 es 256]] by simp

lemma leading_ones: "digits 58 es \<Longrightarrow>
  map (\<lambda>_. 0 :: u8) (takeWhile (\<lambda>x. x = BASE58_CHARS ! 0) (map (\<lambda>d. BASE58_CHARS ! d) es)) = replicate (zeros es) 0"
  unfolding zeros_def by (induction es) (auto simp: b58.char_inject)

lemma b58_round_trip:
  obtains s where "encode_iter bs = Ok s" "b58_from s = Ok bs"
proof -
  obtain ret lz where loop: "b58_encode_loop bs [] 0 True = (ret, lz)" by (cases "b58_encode_loop bs [] 0 True")
  have ret: "digits 58 (map unat ret)" "canonical (map unat ret)"
    "lval 58 (map unat ret) = lval 256 (rev (map unat bs))" "lz = zeros (map unat bs)"
    using b58_encode_loop_spec [OF _ _ loop] by (simp_all add: canonical_def)
  define es where "es = replicate (zeros (map unat bs)) 0 @ rev (map unat ret)"
  have es: "digits 58 es" using ret(1) by (simp add: es_def)
  define cs where "cs = map (\<lambda>d. BASE58_CHARS ! d) es"
  have "encode_iter_utf8 bs = Ok cs"
    using ret b58_chars_eq [of "replicate lz 0 @ rev ret"]
    by (simp add: encode_iter_utf8_def loop cs_def es_def comp_def flip: rev_map)
  moreover have "list_all (\<lambda>b. b < 128) cs"
    using es b58.char_ascii by (auto simp: cs_def digits_def list_all_iff)
  note string_from_ascii [OF this]
  ultimately have enc: "encode_iter bs = Ok (bytes_to_string cs)" by (simp add: encode_iter_def)
  have len: "length (bytes_to_string cs) = length es" by (simp add: bytes_to_string_def cs_def)
  define scratch where "scratch = replicate (1 + length es * 11 div 15) (0 :: u8)"
  have "map b58_digit cs = map Some (map of_nat es)"
    using b58.digits_of_chars [of es] es by (simp add: cs_def comp_def)
  moreover have "lval 256 (rev (map unat scratch)) < 58 ^ 0" by (simp add: scratch_def lval_append)
  moreover have "(58 :: nat) ^ (0 + length cs) \<le> 256 ^ length scratch"
    using scratch_size [of "length es"] by (simp add: cs_def scratch_def)
  ultimately obtain sc where sc: "b58_decode_loop cs scratch = Ok sc"
    "lval 256 (rev (map unat sc)) = lval 58 (rev (map unat (map of_nat es :: u8 list)))"
    using b58_decode_loop_spec [of cs "map of_nat es" scratch 0] by auto
  have val: "lval 256 (map unat (rev sc)) = lval 58 (rev es)"
    using sc(2) unat_of_digits58 [OF es] by (simp add: rev_map comp_def)
  have pop: "rev (map unat (pop_while 0 (rev sc))) = map unat (dropWhile (\<lambda>x. x = 0) sc)"
    by (simp add: pop_while_def rev_map)
  have pop2: "map unat (pop_while 0 (rev sc)) = pop_while 0 (map unat (rev sc))"
    using pop_while_map [of "rev sc" unat "0 :: u8"] by (simp add: unat_eq_0)
  have "replicate (zeros es) 0 @ rev (pop_while 0 (map unat (rev sc))) = map unat bs"
    using radix_round_trip [OF digits_bytes _ _ es_def ret(1-3) digits_pop_while [OF digits_bytes] pop_while_canonical]
      val by simp
  then have "map unat (replicate (zeros es) (0 :: u8) @ dropWhile (\<lambda>x. x = 0) sc) = map unat bs"
    using pop pop2 by simp
  then have "replicate (zeros es) 0 @ dropWhile (\<lambda>x. x = 0) sc = bs"
    by (simp only: inj_map_eq_map [OF injI, OF unsigned_word_eqI])
  moreover have "length (bytes_to_string cs) = length es" by (rule len)
  ultimately have "b58_from (bytes_to_string cs) = Ok bs"
    using sc(1) leading_ones [OF es] unfolding b58_from_def Let_def len scratch_def [symmetric]
    by (simp add: cs_def)
  with enc show thesis by (rule that)
qed

section \<open>Properties\<close>

text \<open>C39: Base 58 round trip: every byte string encodes without panicking, with and without checksum, and
  decoding the text returns it; leading zero bytes survive, and the scratch buffer of the decoder
  never overflows on such a text.\<close>

theorem base58_round_trip:
  "\<exists>s t. encode_slice data = Ok s \<and> b58_from s = Ok data
    \<and> check_encode_slice sha256 data = Ok t \<and> b58_from_check sha256 t = Ok data"
proof -
  obtain s where s: "encode_iter data = Ok s" "b58_from s = Ok data" by (rule b58_round_trip)
  define sum where "sum = take 4 (double_sha256_data sha256 data)"
  obtain t where t: "encode_iter (data @ sum) = Ok t" "b58_from t = Ok (data @ sum)" by (rule b58_round_trip)
  have len: "length sum = 4"
    using bytes32_bits [of "sha256 (bytes32_bits (sha256 data))"] by (simp add: sum_def double_sha256_data_def)
  have "le_u32 (double_sha256_data sha256 data) = le_u32 sum" by (simp add: le_u32_def sum_def)
  then have "b58_from_check sha256 t = Ok data"
    using t(2) len by (simp add: b58_from_check_def)
  then show ?thesis
    using s t(1) by (auto simp: encode_slice_def check_encode_slice_def sum_def)
qed

end
