(* ===== verification/Costs.thy ===== *)
theory Costs
  imports Principals
begin

text \<open>
  Execution costs (\<open>clarity/src/vm/costs/mod.rs\<close>, \<open>cost_functions.rs\<close>): the five-dimensional cost
  with its checked arithmetic, the trait \<open>CostTracker\<close> and its implementations for \<open>()\<close> and
  \<open>LimitedCostTracker\<close>. An operation returns its result and the tracker it leaves behind, so that
  what a failing operation has already written is visible. The interpreter that evaluates a cost
  function (\<open>eval_all\<close>), the \<open>Display\<close> of its errors and SHA-256 are fields of \<open>cost_env\<close>. Loading the
  cost contracts from the database is not modelled.
\<close>

section \<open>Cost functions\<close>

datatype (plugins only: ) clarity_cost_function =
    CF_AnalysisTypeAnnotate
  | CF_AnalysisTypeCheck
  | CF_AnalysisTypeLookup
  | CF_AnalysisVisit
  | CF_AnalysisIterableFunc
  | CF_AnalysisOptionCons
  | CF_AnalysisOptionCheck
  | CF_AnalysisBindName
  | CF_AnalysisListItemsCheck
  | CF_AnalysisCheckTupleGet
  | CF_AnalysisCheckTupleMerge
  | CF_AnalysisCheckTupleCons
  | CF_AnalysisTupleItemsCheck
  | CF_AnalysisCheckLet
  | CF_AnalysisLookupFunction
  | CF_AnalysisLookupFunctionTypes
  | CF_AnalysisLookupVariableConst
  | CF_AnalysisLookupVariableDepth
  | CF_AstParse
  | CF_AstCycleDetection
  | CF_AnalysisStorage
  | CF_AnalysisUseTraitEntry
  | CF_AnalysisGetFunctionEntry
  | CF_AnalysisFetchContractEntry
  | CF_LookupVariableDepth
  | CF_LookupVariableSize
  | CF_LookupFunction
  | CF_BindName
  | CF_InnerTypeCheckCost
  | CF_UserFunctionApplication
  | CF_Let
  | CF_If
  | CF_Asserts
  | CF_Map
  | CF_Filter
  | CF_Len
  | CF_ElementAt
  | CF_IndexOf
  | CF_Fold
  | CF_ListCons
  | CF_TypeParseStep
  | CF_TupleGet
  | CF_TupleMerge
  | CF_TupleCons
  | CF_Add
  | CF_Sub
  | CF_Mul
  | CF_Div
  | CF_Geq
  | CF_Leq
  | CF_Le
  | CF_Ge
  | CF_IntCast
  | CF_Mod
  | CF_Pow
  | CF_Sqrti
  | CF_Log2
  | CF_Xor
  | CF_Not
  | CF_Eq
  | CF_Begin
  | CF_Hash160
  | CF_Sha256
  | CF_Sha512
  | CF_Sha512t256
  | CF_Keccak256
  | CF_Secp256k1recover
  | CF_Secp256k1verify
  | CF_Print
  | CF_SomeCons
  | CF_OkCons
  | CF_ErrCons
  | CF_DefaultTo
  | CF_UnwrapRet
  | CF_UnwrapErrOrRet
  | CF_IsOkay
  | CF_IsNone
  | CF_IsErr
  | CF_IsSome
  | CF_Unwrap
  | CF_UnwrapErr
  | CF_TryRet
  | CF_Match
  | CF_Or
  | CF_And
  | CF_Append
  | CF_Concat
  | CF_AsMaxLen
  | CF_ContractCall
  | CF_ContractOf
  | CF_PrincipalOf
  | CF_AtBlock
  | CF_LoadContract
  | CF_CreateMap
  | CF_CreateVar
  | CF_CreateNft
  | CF_CreateFt
  | CF_FetchEntry
  | CF_SetEntry
  | CF_FetchVar
  | CF_SetVar
  | CF_ContractStorage
  | CF_BlockInfo
  | CF_StxBalance
  | CF_StxTransfer
  | CF_StxWithdraw
  | CF_FtMint
  | CF_FtTransfer
  | CF_FtBalance
  | CF_FtSupply
  | CF_FtBurn
  | CF_FtWithdraw
  | CF_NftMint
  | CF_NftTransfer
  | CF_NftOwner
  | CF_NftBurn
  | CF_NftWithdraw
  | CF_PoisonMicroblock

primrec cost_function_name :: "clarity_cost_function \<Rightarrow> string" where
  "cost_function_name CF_AnalysisTypeAnnotate = ''cost_analysis_type_annotate''"
| "cost_function_name CF_AnalysisTypeCheck = ''cost_analysis_type_check''"
| "cost_function_name CF_AnalysisTypeLookup = ''cost_analysis_type_lookup''"
| "cost_function_name CF_AnalysisVisit = ''cost_analysis_visit''"
| "cost_function_name CF_AnalysisIterableFunc = ''cost_analysis_iterable_func''"
| "cost_function_name CF_AnalysisOptionCons = ''cost_analysis_option_cons''"
| "cost_function_name CF_AnalysisOptionCheck = ''cost_analysis_option_check''"
| "cost_function_name CF_AnalysisBindName = ''cost_analysis_bind_name''"
| "cost_function_name CF_AnalysisListItemsCheck = ''cost_analysis_list_items_check''"
| "cost_function_name CF_AnalysisCheckTupleGet = ''cost_analysis_check_tuple_get''"
| "cost_function_name CF_AnalysisCheckTupleMerge = ''cost_analysis_check_tuple_merge''"
| "cost_function_name CF_AnalysisCheckTupleCons = ''cost_analysis_check_tuple_cons''"
| "cost_function_name CF_AnalysisTupleItemsCheck = ''cost_analysis_tuple_items_check''"
| "cost_function_name CF_AnalysisCheckLet = ''cost_analysis_check_let''"
| "cost_function_name CF_AnalysisLookupFunction = ''cost_analysis_lookup_function''"
| "cost_function_name CF_AnalysisLookupFunctionTypes = ''cost_analysis_lookup_function_types''"
| "cost_function_name CF_AnalysisLookupVariableConst = ''cost_analysis_lookup_variable_const''"
| "cost_function_name CF_AnalysisLookupVariableDepth = ''cost_analysis_lookup_variable_depth''"
| "cost_function_name CF_AstParse = ''cost_ast_parse''"
| "cost_function_name CF_AstCycleDetection = ''cost_ast_cycle_detection''"
| "cost_function_name CF_AnalysisStorage = ''cost_analysis_storage''"
| "cost_function_name CF_AnalysisUseTraitEntry = ''cost_analysis_use_trait_entry''"
| "cost_function_name CF_AnalysisGetFunctionEntry = ''cost_analysis_get_function_entry''"
| "cost_function_name CF_AnalysisFetchContractEntry = ''cost_analysis_fetch_contract_entry''"
| "cost_function_name CF_LookupVariableDepth = ''cost_lookup_variable_depth''"
| "cost_function_name CF_LookupVariableSize = ''cost_lookup_variable_size''"
| "cost_function_name CF_LookupFunction = ''cost_lookup_function''"
| "cost_function_name CF_BindName = ''cost_bind_name''"
| "cost_function_name CF_InnerTypeCheckCost = ''cost_inner_type_check_cost''"
| "cost_function_name CF_UserFunctionApplication = ''cost_user_function_application''"
| "cost_function_name CF_Let = ''cost_let''"
| "cost_function_name CF_If = ''cost_if''"
| "cost_function_name CF_Asserts = ''cost_asserts''"
| "cost_function_name CF_Map = ''cost_map''"
| "cost_function_name CF_Filter = ''cost_filter''"
| "cost_function_name CF_Len = ''cost_len''"
| "cost_function_name CF_ElementAt = ''cost_element_at''"
| "cost_function_name CF_IndexOf = ''cost_index_of''"
| "cost_function_name CF_Fold = ''cost_fold''"
| "cost_function_name CF_ListCons = ''cost_list_cons''"
| "cost_function_name CF_TypeParseStep = ''cost_type_parse_step''"
| "cost_function_name CF_TupleGet = ''cost_tuple_get''"
| "cost_function_name CF_TupleMerge = ''cost_tuple_merge''"
| "cost_function_name CF_TupleCons = ''cost_tuple_cons''"
| "cost_function_name CF_Add = ''cost_add''"
| "cost_function_name CF_Sub = ''cost_sub''"
| "cost_function_name CF_Mul = ''cost_mul''"
| "cost_function_name CF_Div = ''cost_div''"
| "cost_function_name CF_Geq = ''cost_geq''"
| "cost_function_name CF_Leq = ''cost_leq''"
| "cost_function_name CF_Le = ''cost_le''"
| "cost_function_name CF_Ge = ''cost_ge''"
| "cost_function_name CF_IntCast = ''cost_int_cast''"
| "cost_function_name CF_Mod = ''cost_mod''"
| "cost_function_name CF_Pow = ''cost_pow''"
| "cost_function_name CF_Sqrti = ''cost_sqrti''"
| "cost_function_name CF_Log2 = ''cost_log2''"
| "cost_function_name CF_Xor = ''cost_xor''"
| "cost_function_name CF_Not = ''cost_not''"
| "cost_function_name CF_Eq = ''cost_eq''"
| "cost_function_name CF_Begin = ''cost_begin''"
| "cost_function_name CF_Hash160 = ''cost_hash160''"
| "cost_function_name CF_Sha256 = ''cost_sha256''"
| "cost_function_name CF_Sha512 = ''cost_sha512''"
| "cost_function_name CF_Sha512t256 = ''cost_sha512t256''"
| "cost_function_name CF_Keccak256 = ''cost_keccak256''"
| "cost_function_name CF_Secp256k1recover = ''cost_secp256k1recover''"
| "cost_function_name CF_Secp256k1verify = ''cost_secp256k1verify''"
| "cost_function_name CF_Print = ''cost_print''"
| "cost_function_name CF_SomeCons = ''cost_some_cons''"
| "cost_function_name CF_OkCons = ''cost_ok_cons''"
| "cost_function_name CF_ErrCons = ''cost_err_cons''"
| "cost_function_name CF_DefaultTo = ''cost_default_to''"
| "cost_function_name CF_UnwrapRet = ''cost_unwrap_ret''"
| "cost_function_name CF_UnwrapErrOrRet = ''cost_unwrap_err_or_ret''"
| "cost_function_name CF_IsOkay = ''cost_is_okay''"
| "cost_function_name CF_IsNone = ''cost_is_none''"
| "cost_function_name CF_IsErr = ''cost_is_err''"
| "cost_function_name CF_IsSome = ''cost_is_some''"
| "cost_function_name CF_Unwrap = ''cost_unwrap''"
| "cost_function_name CF_UnwrapErr = ''cost_unwrap_err''"
| "cost_function_name CF_TryRet = ''cost_try_ret''"
| "cost_function_name CF_Match = ''cost_match''"
| "cost_function_name CF_Or = ''cost_or''"
| "cost_function_name CF_And = ''cost_and''"
| "cost_function_name CF_Append = ''cost_append''"
| "cost_function_name CF_Concat = ''cost_concat''"
| "cost_function_name CF_AsMaxLen = ''cost_as_max_len''"
| "cost_function_name CF_ContractCall = ''cost_contract_call''"
| "cost_function_name CF_ContractOf = ''cost_contract_of''"
| "cost_function_name CF_PrincipalOf = ''cost_principal_of''"
| "cost_function_name CF_AtBlock = ''cost_at_block''"
| "cost_function_name CF_LoadContract = ''cost_load_contract''"
| "cost_function_name CF_CreateMap = ''cost_create_map''"
| "cost_function_name CF_CreateVar = ''cost_create_var''"
| "cost_function_name CF_CreateNft = ''cost_create_nft''"
| "cost_function_name CF_CreateFt = ''cost_create_ft''"
| "cost_function_name CF_FetchEntry = ''cost_fetch_entry''"
| "cost_function_name CF_SetEntry = ''cost_set_entry''"
| "cost_function_name CF_FetchVar = ''cost_fetch_var''"
| "cost_function_name CF_SetVar = ''cost_set_var''"
| "cost_function_name CF_ContractStorage = ''cost_contract_storage''"
| "cost_function_name CF_BlockInfo = ''cost_block_info''"
| "cost_function_name CF_StxBalance = ''cost_stx_balance''"
| "cost_function_name CF_StxTransfer = ''cost_stx_transfer''"
| "cost_function_name CF_StxWithdraw = ''cost_stx_transfer''"
| "cost_function_name CF_FtMint = ''cost_ft_mint''"
| "cost_function_name CF_FtTransfer = ''cost_ft_transfer''"
| "cost_function_name CF_FtBalance = ''cost_ft_balance''"
| "cost_function_name CF_FtSupply = ''cost_ft_get_supply''"
| "cost_function_name CF_FtBurn = ''cost_ft_burn''"
| "cost_function_name CF_FtWithdraw = ''cost_ft_burn''"
| "cost_function_name CF_NftMint = ''cost_nft_mint''"
| "cost_function_name CF_NftTransfer = ''cost_nft_transfer''"
| "cost_function_name CF_NftOwner = ''cost_nft_owner''"
| "cost_function_name CF_NftBurn = ''cost_nft_burn''"
| "cost_function_name CF_NftWithdraw = ''cost_nft_burn''"
| "cost_function_name CF_PoisonMicroblock = ''poison_microblock''"

definition ALL_COST_FUNCTIONS :: "clarity_cost_function list" where
  "ALL_COST_FUNCTIONS =
    [CF_AnalysisTypeAnnotate, CF_AnalysisTypeCheck, CF_AnalysisTypeLookup, CF_AnalysisVisit,
     CF_AnalysisIterableFunc, CF_AnalysisOptionCons, CF_AnalysisOptionCheck,
     CF_AnalysisBindName, CF_AnalysisListItemsCheck, CF_AnalysisCheckTupleGet,
     CF_AnalysisCheckTupleMerge, CF_AnalysisCheckTupleCons, CF_AnalysisTupleItemsCheck,
     CF_AnalysisCheckLet, CF_AnalysisLookupFunction, CF_AnalysisLookupFunctionTypes,
     CF_AnalysisLookupVariableConst, CF_AnalysisLookupVariableDepth, CF_AstParse,
     CF_AstCycleDetection, CF_AnalysisStorage, CF_AnalysisUseTraitEntry,
     CF_AnalysisGetFunctionEntry, CF_AnalysisFetchContractEntry, CF_LookupVariableDepth,
     CF_LookupVariableSize, CF_LookupFunction, CF_BindName, CF_InnerTypeCheckCost,
     CF_UserFunctionApplication, CF_Let, CF_If, CF_Asserts, CF_Map, CF_Filter, CF_Len,
     CF_ElementAt, CF_IndexOf, CF_Fold, CF_ListCons, CF_TypeParseStep, CF_TupleGet,
     CF_TupleMerge, CF_TupleCons, CF_Add, CF_Sub, CF_Mul, CF_Div, CF_Geq, CF_Leq, CF_Le,
     CF_Ge, CF_IntCast, CF_Mod, CF_Pow, CF_Sqrti, CF_Log2, CF_Xor, CF_Not, CF_Eq, CF_Begin,
     CF_Hash160, CF_Sha256, CF_Sha512, CF_Sha512t256, CF_Keccak256, CF_Secp256k1recover,
     CF_Secp256k1verify, CF_Print, CF_SomeCons, CF_OkCons, CF_ErrCons, CF_DefaultTo,
     CF_UnwrapRet, CF_UnwrapErrOrRet, CF_IsOkay, CF_IsNone, CF_IsErr, CF_IsSome, CF_Unwrap,
     CF_UnwrapErr, CF_TryRet, CF_Match, CF_Or, CF_And, CF_Append, CF_Concat, CF_AsMaxLen,
     CF_ContractCall, CF_ContractOf, CF_PrincipalOf, CF_AtBlock, CF_LoadContract,
     CF_CreateMap, CF_CreateVar, CF_CreateNft, CF_CreateFt, CF_FetchEntry, CF_SetEntry,
     CF_FetchVar, CF_SetVar, CF_ContractStorage, CF_BlockInfo, CF_StxBalance, CF_StxTransfer,
     CF_StxWithdraw, CF_FtMint, CF_FtTransfer, CF_FtBalance, CF_FtSupply, CF_FtBurn,
     CF_FtWithdraw, CF_NftMint, CF_NftTransfer, CF_NftOwner, CF_NftBurn, CF_NftWithdraw,
     CF_PoisonMicroblock]"

definition lookup_by_name :: "string \<Rightarrow> clarity_cost_function option" where
  "lookup_by_name name = find (\<lambda>f. cost_function_name f = name) ALL_COST_FUNCTIONS"

section \<open>Costs\<close>

definition cost_overflow_mul :: "u64 \<Rightarrow> u64 \<Rightarrow> (cost_errors, u64) result" where
  "cost_overflow_mul x y = ok_or (checked_mul x y) CE_CostOverflow"

definition cost_overflow_add :: "u64 \<Rightarrow> u64 \<Rightarrow> (cost_errors, u64) result" where
  "cost_overflow_add x y = ok_or (checked_add x y) CE_CostOverflow"

definition cost_overflow_sub :: "u64 \<Rightarrow> u64 \<Rightarrow> (cost_errors, u64) result" where
  "cost_overflow_sub x y = ok_or (checked_sub x y) CE_CostOverflow"

definition cost_zero :: execution_cost where
  "cost_zero = \<lparr>write_length = 0, write_count = 0, read_length = 0, read_count = 0, runtime = 0\<rparr>"

definition cost_max_value :: execution_cost where
  "cost_max_value = \<lparr>write_length = - 1, write_count = - 1, read_length = - 1, read_count = - 1, runtime = - 1\<rparr>"

definition cost_runtime :: "u64 \<Rightarrow> execution_cost" where
  "cost_runtime r = \<lparr>write_length = 0, write_count = 0, read_length = 0, read_count = 0, runtime = r\<rparr>"

definition proportion_largest_dimension :: "execution_cost \<Rightarrow> execution_cost \<Rightarrow> u64" where
  "proportion_largest_dimension self numerator = foldr max
     [runtime numerator div max 1 (runtime self div 100),
      write_length numerator div max 1 (write_length self div 100),
      write_count numerator div max 1 (write_count self div 100),
      read_length numerator div max 1 (read_length self div 100)]
      (read_count numerator div max 1 (read_count self div 100))"

text \<open>A step on a field: on an error the record keeps what the earlier steps wrote.\<close>

definition on_field :: "('e, 'a) result \<Rightarrow> ('a \<Rightarrow> 's) \<Rightarrow> 's \<Rightarrow> ('s \<Rightarrow> ('e, 'b) result \<times> 's) \<Rightarrow> ('e, 'b) result \<times> 's" where
  "on_field r upd s k = (case r of Ok x \<Rightarrow> k (upd x) | Err e \<Rightarrow> (Err e, s) | Panic \<Rightarrow> (Panic, s))"

definition add_runtime :: "u64 \<Rightarrow> execution_cost \<Rightarrow> (cost_errors, unit) result \<times> execution_cost" where
  "add_runtime r s =
     on_field (cost_overflow_add (runtime s) r) (\<lambda>x. s\<lparr>runtime := x\<rparr>) s (\<lambda>s. (Ok (), s))"

definition field_wise :: "(u64 \<Rightarrow> u64 \<Rightarrow> (cost_errors, u64) result) \<Rightarrow> execution_cost \<Rightarrow> execution_cost
    \<Rightarrow> (cost_errors, unit) result \<times> execution_cost" where
  "field_wise f other s =
     on_field (f (runtime s) (runtime other)) (\<lambda>x. s\<lparr>runtime := x\<rparr>) s (\<lambda>s.
     on_field (f (read_count s) (read_count other)) (\<lambda>x. s\<lparr>read_count := x\<rparr>) s (\<lambda>s.
     on_field (f (read_length s) (read_length other)) (\<lambda>x. s\<lparr>read_length := x\<rparr>) s (\<lambda>s.
     on_field (f (write_length s) (write_length other)) (\<lambda>x. s\<lparr>write_length := x\<rparr>) s (\<lambda>s.
     on_field (f (write_count s) (write_count other)) (\<lambda>x. s\<lparr>write_count := x\<rparr>) s (\<lambda>s.
     (Ok (), s))))))"

definition cost_add :: "execution_cost \<Rightarrow> execution_cost \<Rightarrow> (cost_errors, unit) result \<times> execution_cost" where
  "cost_add other s = field_wise cost_overflow_add other s"

definition cost_sub :: "execution_cost \<Rightarrow> execution_cost \<Rightarrow> (cost_errors, unit) result \<times> execution_cost" where
  "cost_sub other s = field_wise cost_overflow_sub other s"

definition cost_multiply :: "u64 \<Rightarrow> execution_cost \<Rightarrow> (cost_errors, unit) result \<times> execution_cost" where
  "cost_multiply n s = field_wise cost_overflow_mul
     \<lparr>write_length = n, write_count = n, read_length = n, read_count = n, runtime = n\<rparr> s"

definition exceeds :: "execution_cost \<Rightarrow> execution_cost \<Rightarrow> bool" where
  "exceeds s other \<longleftrightarrow> runtime s > runtime other \<or> write_length s > write_length other
     \<or> write_count s > write_count other \<or> read_count s > read_count other
     \<or> read_length s > read_length other"

definition max_cost :: "execution_cost \<Rightarrow> execution_cost \<Rightarrow> execution_cost" where
  "max_cost first second = \<lparr>
     write_length = max (write_length first) (write_length second),
     write_count = max (write_count first) (write_count second),
     read_length = max (read_length first) (read_length second),
     read_count = max (read_count first) (read_count second),
     runtime = max (runtime first) (runtime second)\<rparr>"

text \<open>\<open>leading_zeros\<close> and \<open>trailing_zeros\<close> of a \<open>u64\<close>, and the rounded-up logarithm built on them.\<close>

definition leading_zeros_64 :: "u64 \<Rightarrow> nat" where
  "leading_zeros_64 x = length (takeWhile (\<lambda>i. \<not> bit x i) (rev [0..<64]))"

definition trailing_zeros_64 :: "u64 \<Rightarrow> nat" where
  "trailing_zeros_64 x = length (takeWhile (\<lambda>i. \<not> bit x i) [0..<64])"

definition int_log2 :: "u64 \<Rightarrow> u64 option" where
  "int_log2 input = map_option (\<lambda>floor_log :: u32.
     if of_nat (trailing_zeros_64 input) = floor_log then ucast floor_log else ucast (floor_log + 1))
     (checked_sub 63 (of_nat (leading_zeros_64 input)))"

section \<open>Trackers\<close>

datatype stacks_epoch_id = Epoch10 | Epoch20 | Epoch2_05

record clarity_cost_function_reference =
  cfr_contract_id :: qualified_contract_identifier
  cfr_function_name :: string

text \<open>What the tracker calls: SHA-256 (in the text of a contract identifier), the text of a virtual
  machine error, and the interpreter on one function application.\<close>

record 'ctx cost_env =
  ce_sha256 :: "u8 list \<Rightarrow> bytes32"
  ce_fmt_error :: "vm_error \<Rightarrow> string"
  ce_eval_all :: "bool \<Rightarrow> stacks_epoch_id \<Rightarrow> 'ctx \<Rightarrow> clarity_name \<Rightarrow> u128 list
    \<Rightarrow> (vm_error, clarity_value option) result \<times> 'ctx"

definition reference_to_string :: "'ctx cost_env \<Rightarrow> clarity_cost_function_reference \<Rightarrow> (cost_errors, string) result" where
  "reference_to_string env r =
     map_ok (\<lambda>c. c @ ''.'' @ cfr_function_name r) (expect (qci_to_string (ce_sha256 env) (cfr_contract_id r)))"

record 'ctx tracker_data =
  td_cost_function_references :: "(clarity_cost_function \<times> clarity_cost_function_reference) list"
  td_cost_contracts :: "(qualified_contract_identifier \<times> 'ctx) list"
  td_contract_call_circuits :: "((qualified_contract_identifier \<times> clarity_name) \<times> clarity_cost_function_reference) list"
  td_total :: execution_cost
  td_limit :: execution_cost
  td_memory :: u64
  td_memory_limit :: u64
  td_epoch :: stacks_epoch_id
  td_mainnet :: bool

datatype 'ctx limited_cost_tracker = Limited "'ctx tracker_data" | Free

definition CLARITY_MEMORY_LIMIT :: u64 where
  "CLARITY_MEMORY_LIMIT = 100 * 1000 * 1000"

definition default_cost_contract_for_epoch :: "stacks_epoch_id \<Rightarrow> (unit, string) result" where
  "default_cost_contract_for_epoch epoch_id = (case epoch_id of
     Epoch10 \<Rightarrow> Panic | Epoch20 \<Rightarrow> Ok ''costs'' | Epoch2_05 \<Rightarrow> Ok ''costs-2'')"

fun get_total :: "'ctx limited_cost_tracker \<Rightarrow> execution_cost" where
  "get_total (Limited d) = td_total d"
| "get_total Free = cost_zero"

fun set_total :: "execution_cost \<Rightarrow> 'ctx limited_cost_tracker \<Rightarrow> (unit, 'ctx limited_cost_tracker) result" where
  "set_total t (Limited d) = Ok (Limited (d\<lparr>td_total := t\<rparr>))"
| "set_total t Free = Panic"

fun get_limit :: "'ctx limited_cost_tracker \<Rightarrow> execution_cost" where
  "get_limit (Limited d) = td_limit d"
| "get_limit Free = cost_max_value"

fun tracker_eq :: "'ctx limited_cost_tracker \<Rightarrow> 'ctx limited_cost_tracker \<Rightarrow> bool" where
  "tracker_eq Free Free = True"
| "tracker_eq (Limited a) (Limited b) =
     (td_total a = td_total b \<and> td_limit b = td_limit a \<and> td_memory a = td_memory b
      \<and> td_memory_limit a = td_memory_limit b)"
| "tracker_eq _ _ = False"

definition parse_cost :: "'ctx cost_env \<Rightarrow> string \<Rightarrow> (vm_error, clarity_value option) result
    \<Rightarrow> (cost_errors, execution_cost) result" where
  "parse_cost env name eval_result = (case eval_result of
     Ok (Some (VTuple data)) \<Rightarrow>
       (case (map_of (td_data_map data) ''write_length'', map_of (td_data_map data) ''write_count'',
              map_of (td_data_map data) ''runtime'', map_of (td_data_map data) ''read_length'',
              map_of (td_data_map data) ''read_count'') of
          (Some (VUInt wl), Some (VUInt wc), Some (VUInt rt), Some (VUInt rl), Some (VUInt rc)) \<Rightarrow>
            Ok \<lparr>write_length = ucast wl, write_count = ucast wc, read_length = ucast rl,
               read_count = ucast rc, runtime = ucast rt\<rparr>
        | _ \<Rightarrow> Err (CE_CostComputationFailed ''Execution Cost tuple does not contain only UInts''))
   | Ok (Some _) \<Rightarrow> Err (CE_CostComputationFailed
       ''Clarity cost function returned something other than a Cost tuple'')
   | Ok None \<Rightarrow> Err (CE_CostComputationFailed ''Clarity cost function returned nothing'')
   | Err e \<Rightarrow> Err (CE_CostComputationFailed (''Error evaluating result of cost function ''
       @ name @ '': '' @ ce_fmt_error env e))
   | Panic \<Rightarrow> Panic)"

text \<open>
  \<open>compute_cost\<close> on the tracker's data. \<open>ok_or\<close> formats its message before it knows whether it is needed.
\<close>

definition data_compute_cost :: "'ctx cost_env \<Rightarrow> clarity_cost_function_reference \<Rightarrow> u64 list
    \<Rightarrow> stacks_epoch_id \<Rightarrow> 'ctx tracker_data \<Rightarrow> (cost_errors, execution_cost) result \<times> 'ctx tracker_data" where
  "data_compute_cost env r input_sizes eval_in_epoch d =
     (case reference_to_string env r of
        Ok name \<Rightarrow>
          (case map_of (td_cost_contracts d) (cfr_contract_id r) of
             None \<Rightarrow> (Err (CE_CostComputationFailed (''CostFunction not found: '' @ name)), d)
           | Some cost_contract \<Rightarrow>
               (case clarity_name_try_from (cfr_function_name r) of
                  Ok function_name \<Rightarrow>
                    let (eval_result, cost_contract) = ce_eval_all env (td_mainnet d) eval_in_epoch
                          cost_contract function_name (map ucast input_sizes)
                    in (parse_cost env name eval_result,
                        d\<lparr>td_cost_contracts :=
                          AList.update (cfr_contract_id r) cost_contract (td_cost_contracts d)\<rparr>)
                | _ \<Rightarrow> (Panic, d)))
      | Err e \<Rightarrow> (Err e, d)
      | Panic \<Rightarrow> (Panic, d))"

definition data_add_cost :: "execution_cost \<Rightarrow> 'ctx tracker_data \<Rightarrow> (cost_errors, unit) result \<times> 'ctx tracker_data" where
  "data_add_cost cost s =
     (case cost_add cost (td_total s) of
        (Ok _, t) \<Rightarrow>
          let s = s\<lparr>td_total := t\<rparr> in
          if exceeds (td_total s) (td_limit s)
          then (Err (CE_CostBalanceExceeded (td_total s) (td_limit s)), s) else (Ok (), s)
      | (Err e, t) \<Rightarrow> (Err e, s\<lparr>td_total := t\<rparr>)
      | (Panic, t) \<Rightarrow> (Panic, s\<lparr>td_total := t\<rparr>))"

definition data_add_memory :: "u64 \<Rightarrow> 'ctx tracker_data \<Rightarrow> (cost_errors, unit) result \<times> 'ctx tracker_data" where
  "data_add_memory memory s =
     on_field (cost_overflow_add (td_memory s) memory) (\<lambda>x. s\<lparr>td_memory := x\<rparr>) s (\<lambda>s.
     if td_memory s > td_memory_limit s
     then (Err (CE_MemoryBalanceExceeded (td_memory s) (td_memory_limit s)), s) else (Ok (), s))"

definition data_drop_memory :: "u64 \<Rightarrow> 'ctx tracker_data \<Rightarrow> (cost_errors, unit) result \<times> 'ctx tracker_data" where
  "data_drop_memory memory s =
     on_field (expect_some (checked_sub (td_memory s) memory)) (\<lambda>x. s\<lparr>td_memory := x\<rparr>) s (\<lambda>s. (Ok (), s))"

text \<open>Running an operation on the data of a limited tracker.\<close>

fun on_limited :: "('e, 'a) result \<Rightarrow> ('ctx tracker_data \<Rightarrow> ('e, 'a) result \<times> 'ctx tracker_data)
    \<Rightarrow> 'ctx limited_cost_tracker \<Rightarrow> ('e, 'a) result \<times> 'ctx limited_cost_tracker" where
  "on_limited free f Free = (free, Free)"
| "on_limited free f (Limited d) = apsnd Limited (f d)"

definition compute_cost :: "'ctx cost_env \<Rightarrow> clarity_cost_function \<Rightarrow> u64 list
    \<Rightarrow> 'ctx limited_cost_tracker \<Rightarrow> (cost_errors, execution_cost) result \<times> 'ctx limited_cost_tracker" where
  "compute_cost env cost_function input =
     on_limited (Ok cost_zero) (\<lambda>d.
       case map_of (td_cost_function_references d) cost_function of
         None \<Rightarrow> (Err (CE_CostComputationFailed (''CostFunction not defined: '' @ cost_function_name cost_function)), d)
       | Some cost_function_ref \<Rightarrow> data_compute_cost env cost_function_ref input (td_epoch d) d)"

definition add_cost :: "execution_cost \<Rightarrow> 'ctx limited_cost_tracker \<Rightarrow> (cost_errors, unit) result \<times> 'ctx limited_cost_tracker" where
  "add_cost cost = on_limited (Ok ()) (data_add_cost cost)"

definition add_memory :: "u64 \<Rightarrow> 'ctx limited_cost_tracker \<Rightarrow> (cost_errors, unit) result \<times> 'ctx limited_cost_tracker" where
  "add_memory memory = on_limited (Ok ()) (data_add_memory memory)"

definition drop_memory :: "u64 \<Rightarrow> 'ctx limited_cost_tracker \<Rightarrow> (cost_errors, unit) result \<times> 'ctx limited_cost_tracker" where
  "drop_memory memory = on_limited (Ok ()) (data_drop_memory memory)"

definition reset_memory :: "'ctx limited_cost_tracker \<Rightarrow> (cost_errors, unit) result \<times> 'ctx limited_cost_tracker" where
  "reset_memory = on_limited (Ok ()) (\<lambda>d. (Ok (), d\<lparr>td_memory := 0\<rparr>))"

definition short_circuit_contract_call :: "'ctx cost_env \<Rightarrow> qualified_contract_identifier \<Rightarrow> clarity_name
    \<Rightarrow> u64 list \<Rightarrow> 'ctx limited_cost_tracker \<Rightarrow> (cost_errors, bool) result \<times> 'ctx limited_cost_tracker" where
  "short_circuit_contract_call env contract function input =
     on_limited (Ok False) (\<lambda>d.
       case map_of (td_contract_call_circuits d) (contract, function) of
         Some cost_function \<Rightarrow> apfst (map_ok (\<lambda>_. True)) (data_compute_cost env cost_function input (td_epoch d) d)
       | None \<Rightarrow> (Ok False, d))"

section \<open>Clients of a tracker\<close>

text \<open>The operations of the trait, as the functions that charge costs use them.\<close>

record 's cost_tracker_ops =
  ct_compute_cost :: "clarity_cost_function \<Rightarrow> u64 list \<Rightarrow> 's \<Rightarrow> (cost_errors, execution_cost) result \<times> 's"
  ct_add_cost :: "execution_cost \<Rightarrow> 's \<Rightarrow> (cost_errors, unit) result \<times> 's"
  ct_add_memory :: "u64 \<Rightarrow> 's \<Rightarrow> (cost_errors, unit) result \<times> 's"
  ct_drop_memory :: "u64 \<Rightarrow> 's \<Rightarrow> (cost_errors, unit) result \<times> 's"
  ct_reset_memory :: "'s \<Rightarrow> (cost_errors, unit) result \<times> 's"
  ct_short_circuit_contract_call :: "qualified_contract_identifier \<Rightarrow> clarity_name \<Rightarrow> u64 list
    \<Rightarrow> 's \<Rightarrow> (cost_errors, bool) result \<times> 's"

definition free_tracker :: "unit cost_tracker_ops" where
  "free_tracker = \<lparr>
     ct_compute_cost = \<lambda>_ _ s. (Ok cost_zero, s),
     ct_add_cost = \<lambda>_ s. (Ok (), s),
     ct_add_memory = \<lambda>_ s. (Ok (), s),
     ct_drop_memory = \<lambda>_ s. (Ok (), s),
     ct_reset_memory = \<lambda>s. (Ok (), s),
     ct_short_circuit_contract_call = \<lambda>_ _ _ s. (Ok False, s)\<rparr>"

definition limited_tracker :: "'ctx cost_env \<Rightarrow> 'ctx limited_cost_tracker cost_tracker_ops" where
  "limited_tracker env = \<lparr>
     ct_compute_cost = compute_cost env,
     ct_add_cost = add_cost,
     ct_add_memory = add_memory,
     ct_drop_memory = drop_memory,
     ct_reset_memory = reset_memory,
     ct_short_circuit_contract_call = short_circuit_contract_call env\<rparr>"

definition runtime_cost :: "'s cost_tracker_ops \<Rightarrow> clarity_cost_function \<Rightarrow> u64 option
    \<Rightarrow> 's \<Rightarrow> (cost_errors, unit) result \<times> 's" where
  "runtime_cost T cost_function input s =
     (case input of
        None \<Rightarrow> (Err CE_CostOverflow, s)
      | Some n \<Rightarrow>
          (case ct_compute_cost T cost_function [n] s of
             (Ok cost, s) \<Rightarrow> ct_add_cost T cost s
           | (Err e, s) \<Rightarrow> (Err e, s)
           | (Panic, s) \<Rightarrow> (Panic, s)))"

definition analysis_typecheck_cost :: "'s cost_tracker_ops \<Rightarrow> type_signature \<Rightarrow> type_signature
    \<Rightarrow> 's \<Rightarrow> (cost_errors, unit) result \<times> 's" where
  "analysis_typecheck_cost T t1 t2 s =
     (case and_then (map_err (\<lambda>_. CE_CostOverflow) (type_size t1)) (\<lambda>t1_size.
           and_then (map_err (\<lambda>_. CE_CostOverflow) (type_size t2)) (\<lambda>t2_size.
           Ok (max t1_size t2_size))) of
        Ok n \<Rightarrow> runtime_cost T CF_AnalysisTypeCheck (Some (ucast n)) s
      | Err e \<Rightarrow> (Err e, s)
      | Panic \<Rightarrow> (Panic, s))"

text \<open>\<open>finally_drop_memory!\<close>: the memory is dropped whatever the body returned.\<close>

definition finally_drop_memory :: "'s cost_tracker_ops \<Rightarrow> u64 \<Rightarrow> ('s \<Rightarrow> (cost_errors, 'a) result \<times> 's)
    \<Rightarrow> 's \<Rightarrow> (cost_errors, 'a) result \<times> 's" where
  "finally_drop_memory T used_mem exec s =
     (let (result, s) = exec s in
      if result = Panic then (Panic, s)
      else case ct_drop_memory T used_mem s of
        (Ok _, s) \<Rightarrow> (result, s)
      | (_, s) \<Rightarrow> (Panic, s))"


section \<open>Specification level\<close>

text \<open>The five dimensions, and a run of charges that stops at the first that fails.\<close>

definition dimensions :: "(execution_cost \<Rightarrow> u64) set" where
  "dimensions = {runtime, read_count, read_length, write_length, write_count}"

fun charge_all :: "execution_cost list \<Rightarrow> 'ctx limited_cost_tracker
    \<Rightarrow> (cost_errors, unit) result \<times> 'ctx limited_cost_tracker" where
  "charge_all [] s = (Ok (), s)"
| "charge_all (c # cs) s =
     (case add_cost c s of (Ok _, s) \<Rightarrow> charge_all cs s | (Err e, s) \<Rightarrow> (Err e, s) | (Panic, s) \<Rightarrow> (Panic, s))"

section \<open>Cost arithmetic\<close>

lemma ball_dimensions: "(\<forall>f \<in> dimensions. P f) \<longleftrightarrow>
  P runtime \<and> P read_count \<and> P read_length \<and> P write_length \<and> P write_count"
  by (simp add: dimensions_def)

lemma on_field_simps [simp]:
  "on_field (Ok x) upd s k = k (upd x)" "on_field (Err e) upd s k = (Err e, s)" "on_field Panic upd s k = (Panic, s)"
  by (simp_all add: on_field_def)

lemma cost_overflow_add_eq:
  "cost_overflow_add x y = (if unat x + unat y < 2 ^ 64 then Ok (x + y) else Err CE_CostOverflow)"
  by (simp add: cost_overflow_add_def checked_add_def)

lemma unat_plus_lt: "unat x + unat y < 2 ^ 64 \<Longrightarrow> unat (x + y :: u64) = unat x + unat y"
  using checked_add_Some [of x y "x + y"] by (simp add: checked_add_def)

lemma cost_overflow_add_cases:
  obtains z where "cost_overflow_add x y = Ok z" "unat z = unat x + unat y"
  | "cost_overflow_add x y = Err CE_CostOverflow" "2 ^ 64 \<le> unat x + unat y"
  by (cases "checked_add x y") (auto simp: cost_overflow_add_def checked_iff)

lemma exceeds_iff: "exceeds s l \<longleftrightarrow> \<not> (\<forall>f \<in> dimensions. unat (f s) \<le> unat (f l))"
  by (auto simp: exceeds_def ball_dimensions word_less_nat_alt)

text \<open>Adding costs is exact in every dimension, or an overflow in one of them.\<close>

lemma cost_add_cases:
  obtains t where "cost_add c s = (Ok (), t)" "\<forall>f \<in> dimensions. unat (f t) = unat (f s) + unat (f c)"
  | t f where "cost_add c s = (Err CE_CostOverflow, t)" "f \<in> dimensions" "2 ^ 64 \<le> unat (f s) + unat (f c)"
proof (cases "\<forall>f \<in> dimensions. unat (f s) + unat (f c) < 2 ^ 64")
  case True
  then show thesis
    using that(1) by (simp add: cost_add_def field_wise_def ball_dimensions cost_overflow_add_eq unat_plus_lt)
next
  case False
  then obtain f where "f \<in> dimensions" "2 ^ 64 \<le> unat (f s) + unat (f c)" by (auto simp: not_less)
  moreover have "\<exists>t. cost_add c s = (Err CE_CostOverflow, t)"
    using False by (auto simp: cost_add_def field_wise_def ball_dimensions cost_overflow_add_eq)
  ultimately show thesis using that(2) by blast
qed

lemma add_cost_cases:
  obtains t where "add_cost c (Limited d) = (Ok (), Limited (d\<lparr>td_total := t\<rparr>))"
      "\<forall>f \<in> dimensions. unat (f t) = unat (f (td_total d)) + unat (f c) \<and> unat (f t) \<le> unat (f (td_limit d))"
  | e t f where "add_cost c (Limited d) = (Err e, Limited (d\<lparr>td_total := t\<rparr>))" "f \<in> dimensions"
      "unat (f (td_limit d)) < unat (f (td_total d)) + unat (f c)"
proof (cases rule: cost_add_cases [of c "td_total d"])
  case (1 t)
  show thesis
  proof (cases "exceeds t (td_limit d)")
    case True
    then obtain f where "f \<in> dimensions" "unat (f (td_limit d)) < unat (f t)"
      by (auto simp: exceeds_iff not_le)
    then show thesis using 1 True that(2) by (simp add: add_cost_def data_add_cost_def)
  next
    case False
    then show thesis using 1 that(1) by (simp add: add_cost_def data_add_cost_def exceeds_iff)
  qed
next
  case (2 t f)
  moreover have "unat (f (td_limit d)) < 2 ^ 64" using unat_lt [of "f (td_limit d)"] by simp
  ultimately show thesis using that(2) by (simp add: add_cost_def data_add_cost_def)
qed

section \<open>The contract of a tracker\<close>

text \<open>
  What the functions that charge costs rely on: a successful charge leaves the tracker within its
  budget, computing a cost does not spend, charging does not touch the memory in use, and memory
  that was added can be dropped again.
\<close>

locale cost_tracker =
  fixes T :: "'s cost_tracker_ops" and within :: "'s \<Rightarrow> bool" and same_memory :: "'s \<Rightarrow> 's \<Rightarrow> bool"
  assumes add_cost_within: "ct_add_cost T c s = (Ok u, s') \<Longrightarrow> within s'"
    and compute_cost_within: "ct_compute_cost T f is s = (res, s') \<Longrightarrow> within s \<Longrightarrow> within s'"
    and add_cost_memory: "ct_add_cost T c s = (r, s') \<Longrightarrow> same_memory s s'"
    and compute_cost_memory: "ct_compute_cost T f is s = (res, s') \<Longrightarrow> same_memory s s'"
    and memory_trans: "same_memory s s' \<Longrightarrow> same_memory s' s'' \<Longrightarrow> same_memory s s''"
    and memory_refl: "same_memory s s"
    and drop_added: "ct_add_memory T m s = (Ok u, s1) \<Longrightarrow> same_memory s1 s2 \<Longrightarrow>
      \<exists>s3. ct_drop_memory T m s2 = (Ok (), s3) \<and> same_memory s s3"
begin

lemma runtime_cost_within: "runtime_cost T f n s = (Ok u, s') \<Longrightarrow> within s'"
  by (auto simp: runtime_cost_def split: option.splits prod.splits result.splits intro: add_cost_within)

lemma runtime_cost_memory: "runtime_cost T f n s = (r, s') \<Longrightarrow> same_memory s s'"
  by (auto simp: runtime_cost_def memory_refl split: option.splits prod.splits result.splits
      intro: memory_trans compute_cost_memory add_cost_memory)

lemma typecheck_cost_within: "analysis_typecheck_cost T t1 t2 s = (Ok u, s') \<Longrightarrow> within s'"
  by (auto simp: analysis_typecheck_cost_def split: result.splits intro: runtime_cost_within)

lemma finally_drop_memory_balanced:
  assumes "ct_add_memory T m s = (Ok u, s1)" "exec s1 = (r, s2)" "same_memory s1 s2" "r \<noteq> Panic"
  shows "\<exists>s3. finally_drop_memory T m exec s1 = (r, s3) \<and> same_memory s s3"
  using drop_added [OF assms(1,3)] assms(2,4) by (auto simp: finally_drop_memory_def)

end

fun within_limit :: "'ctx limited_cost_tracker \<Rightarrow> bool" where
  "within_limit Free = True"
| "within_limit (Limited d) = (\<not> exceeds (td_total d) (td_limit d))"

fun memory_in_use :: "'ctx limited_cost_tracker \<Rightarrow> u64 option" where
  "memory_in_use Free = None"
| "memory_in_use (Limited d) = Some (td_memory d)"

lemma data_compute_cost_frame:
  "data_compute_cost env r is ep d = (res, d') \<Longrightarrow> \<exists>cc. d' = d\<lparr>td_cost_contracts := cc\<rparr>"
  by (auto simp: data_compute_cost_def Let_def split: result.splits option.splits prod.splits
      intro: exI [of _ "td_cost_contracts d"])

lemma compute_cost_Limited:
  "compute_cost env f is (Limited d) = (r, s') \<Longrightarrow> \<exists>cc. s' = Limited (d\<lparr>td_cost_contracts := cc\<rparr>)"
  by (cases "map_of (td_cost_function_references d) f")
    (auto simp: compute_cost_def apsnd_def map_prod_def split: prod.splits dest!: data_compute_cost_frame
      intro: exI [of _ "td_cost_contracts d"])

lemma compute_cost_frame:
  assumes "compute_cost env f is s = (r, s')"
  shows "within_limit s' = within_limit s \<and> memory_in_use s' = memory_in_use s \<and> get_total s' = get_total s"
proof (cases s)
  case (Limited d)
  then show ?thesis using assms by (auto dest!: compute_cost_Limited)
qed (use assms in \<open>simp add: compute_cost_def\<close>)

lemma add_cost_frame: "add_cost c s = (r, s') \<Longrightarrow> memory_in_use s' = memory_in_use s"
proof (cases s)
  case (Limited d)
  assume "add_cost c s = (r, s')"
  then show ?thesis by (cases rule: add_cost_cases [of c d]) (auto simp: Limited)
qed (simp add: add_cost_def)

lemma add_cost_Ok_within: "add_cost c s = (Ok u, s') \<Longrightarrow> within_limit s'"
proof (cases s)
  case (Limited d)
  assume "add_cost c s = (Ok u, s')"
  then show ?thesis by (cases rule: add_cost_cases [of c d]) (fastforce simp: Limited exceeds_iff)+
qed (simp add: add_cost_def)

lemma drop_added_memory:
  assumes "add_memory m s = (Ok u, s1)" "memory_in_use s1 = memory_in_use s2"
  shows "\<exists>s3. drop_memory m s2 = (Ok (), s3) \<and> memory_in_use s = memory_in_use s3"
proof (cases s)
  case Free
  then show ?thesis using assms by (cases s2) (auto simp: add_memory_def drop_memory_def)
next
  case (Limited d)
  obtain x where x: "s1 = Limited (d\<lparr>td_memory := x\<rparr>)" "unat x = unat (td_memory d) + unat m"
    using assms(1) Limited
    by (cases rule: cost_overflow_add_cases [of "td_memory d" m])
      (auto simp: add_memory_def data_add_memory_def split: if_splits)
  then obtain d2 where d2: "s2 = Limited d2" "td_memory d2 = x" using assms(2) by (cases s2) auto
  have "unat (td_memory d) + unat m < 2 ^ 64" using x(2) unat_lt [of x] by simp
  from unat_plus_lt [OF this] x(2) have "x = td_memory d + m" by (metis unsigned_word_eqI)
  then have "checked_sub x m = Some (td_memory d)" using x(2) by (simp add: checked_iff word_le_nat_alt)
  then show ?thesis
    using d2 Limited by (simp add: drop_memory_def data_drop_memory_def)
qed

interpretation limited: cost_tracker "limited_tracker env" within_limit "\<lambda>s s'. memory_in_use s = memory_in_use s'"
  for env :: "'ctx cost_env"
proof unfold_locales
  fix c s and s' :: "'ctx limited_cost_tracker" and u r f "is"
  show "ct_add_cost (limited_tracker env) c s = (Ok u, s') \<Longrightarrow> within_limit s'"
    by (auto simp: limited_tracker_def intro: add_cost_Ok_within)
  show "ct_compute_cost (limited_tracker env) f is s = (r, s') \<Longrightarrow> within_limit s \<Longrightarrow> within_limit s'"
    by (auto simp: limited_tracker_def dest: compute_cost_frame)
  show "ct_compute_cost (limited_tracker env) f is s = (r, s') \<Longrightarrow> memory_in_use s = memory_in_use s'"
    by (auto simp: limited_tracker_def dest: compute_cost_frame)
next
  fix c s and s' :: "'ctx limited_cost_tracker" and r
  show "ct_add_cost (limited_tracker env) c s = (r, s') \<Longrightarrow> memory_in_use s = memory_in_use s'"
    by (auto simp: limited_tracker_def dest: add_cost_frame)
next
  fix m s and s1 s2 :: "'ctx limited_cost_tracker" and u
  show "ct_add_memory (limited_tracker env) m s = (Ok u, s1) \<Longrightarrow> memory_in_use s1 = memory_in_use s2 \<Longrightarrow>
      \<exists>s3. ct_drop_memory (limited_tracker env) m s2 = (Ok (), s3) \<and> memory_in_use s = memory_in_use s3"
    by (auto simp: limited_tracker_def intro: drop_added_memory)
qed auto

interpretation free: cost_tracker free_tracker "\<lambda>_. True" "\<lambda>_ _. True"
  by unfold_locales (auto simp: free_tracker_def)


lemma charge_all_spec:
  assumes "within_limit (Limited d)"
  shows "fst (charge_all cs (Limited d)) \<noteq> Panic
    \<and> (fst (charge_all cs (Limited d)) = Ok () \<longleftrightarrow>
        (\<forall>f \<in> dimensions. unat (f (td_total d)) + (\<Sum>c\<leftarrow>cs. unat (f c)) \<le> unat (f (td_limit d))))
    \<and> (fst (charge_all cs (Limited d)) = Ok () \<longrightarrow>
        (\<forall>f \<in> dimensions. unat (f (get_total (snd (charge_all cs (Limited d))))) =
          unat (f (td_total d)) + (\<Sum>c\<leftarrow>cs. unat (f c))))"
  using assms
proof (induction cs arbitrary: d)
  case Nil
  then show ?case by (simp add: exceeds_iff)
next
  case (Cons c cs)
  show ?case
  proof (cases rule: add_cost_cases [of c d])
    case (1 t)
    then have "within_limit (Limited (d\<lparr>td_total := t\<rparr>))"
      by (auto simp: exceeds_iff)
    from Cons.IH [OF this] 1 show ?thesis by (simp add: add.assoc)
  next
    case (2 e t f)
    then have "\<not> (\<forall>f \<in> dimensions. unat (f (td_total d)) + (\<Sum>c\<leftarrow>c # cs. unat (f c)) \<le> unat (f (td_limit d)))"
      by (auto intro!: bexI [of _ f])
    with 2 show ?thesis by auto
  qed
qed

section \<open>Properties\<close>

text \<open>C21: Charging is exact: starting within the budget, a sequence of charges succeeds exactly when, in
  each of the five dimensions, what was spent before and all the charges together stay within the
  limit; the total is then their sum, with no wrap-around. A failing sequence returns an error and
  does not panic.\<close>

theorem charges_exact:
  assumes "\<not> exceeds (td_total d) (td_limit d)"
  shows "fst (charge_all cs (Limited d)) \<noteq> Panic
    \<and> (fst (charge_all cs (Limited d)) = Ok () \<longleftrightarrow>
        (\<forall>f \<in> dimensions. unat (f (td_total d)) + (\<Sum>c\<leftarrow>cs. unat (f c)) \<le> unat (f (td_limit d))))
    \<and> (fst (charge_all cs (Limited d)) = Ok () \<longrightarrow>
        (\<forall>f \<in> dimensions. unat (f (get_total (snd (charge_all cs (Limited d))))) =
          unat (f (td_total d)) + (\<Sum>c\<leftarrow>cs. unat (f c))))"
  using assms by (intro charge_all_spec) simp

definition sample_tracker :: "unit tracker_data" where
  "sample_tracker = \<lparr>td_cost_function_references = [], td_cost_contracts = [], td_contract_call_circuits = [],
     td_total = cost_zero, td_limit = cost_runtime 10, td_memory = 0, td_memory_limit = 100,
     td_epoch = Epoch20, td_mainnet = False\<rparr>"

theorem charges_exact_witness:
  "fst (charge_all [cost_runtime 4, cost_runtime 6] (Limited sample_tracker)) = Ok ()
    \<and> fst (charge_all [cost_runtime 4, cost_runtime 7] (Limited sample_tracker)) \<noteq> Ok ()"
proof -
  have "\<not> exceeds (td_total sample_tracker) (td_limit sample_tracker)"
    by (simp add: sample_tracker_def exceeds_def cost_zero_def cost_runtime_def)
  from charges_exact [OF this, of "[cost_runtime 4, cost_runtime 6]"]
    charges_exact [OF this, of "[cost_runtime 4, cost_runtime 7]"]
  show ?thesis by (simp add: sample_tracker_def cost_zero_def cost_runtime_def ball_dimensions)
qed

text \<open>C22: Charging inside \<open>finally_drop_memory!\<close>: after memory was added, a charge in the body neither
  panics on dropping the memory nor leaks it, whether the charge succeeds or fails; and when it
  succeeds the tracker is within its budget.\<close>

theorem charged_body_balanced:
  assumes "add_memory m s = (Ok (), s1)" "runtime_cost (limited_tracker env) f n s1 = (r, s2)" "r \<noteq> Panic"
  shows "\<exists>s3. finally_drop_memory (limited_tracker env) m (runtime_cost (limited_tracker env) f n) s1 = (r, s3)
    \<and> memory_in_use s3 = memory_in_use s \<and> (r = Ok () \<longrightarrow> within_limit s2)"
proof -
  have "ct_add_memory (limited_tracker env) m s = (Ok (), s1)" using assms(1) by (simp add: limited_tracker_def)
  from limited.finally_drop_memory_balanced [OF this, where exec = "runtime_cost (limited_tracker env) f n",
      OF assms(2) limited.runtime_cost_memory [OF assms(2)] assms(3)]
  show ?thesis using limited.runtime_cost_within [of env f n s1 "()" s2] assms(2) by auto
qed

theorem charged_body_balanced_witness:
  "\<exists>s3. finally_drop_memory (limited_tracker \<lparr>ce_sha256 = \<lambda>_. Bytes32 (replicate 32 0), ce_fmt_error = \<lambda>_. '''',
        ce_eval_all = \<lambda>_ _ ctx _ _. (Ok None, ctx)\<rparr>) 7
      (runtime_cost (limited_tracker \<lparr>ce_sha256 = \<lambda>_. Bytes32 (replicate 32 0), ce_fmt_error = \<lambda>_. '''',
        ce_eval_all = \<lambda>_ _ ctx _ _. (Ok None, ctx)\<rparr>) CF_Add (Some 1)) (Limited (sample_tracker\<lparr>td_memory := 7\<rparr>))
      = (Err (CE_CostComputationFailed (''CostFunction not defined: '' @ ''cost_add'')), s3)
    \<and> memory_in_use s3 = Some 0"
proof -
  let ?env = "\<lparr>ce_sha256 = \<lambda>_. Bytes32 (replicate 32 0), ce_fmt_error = \<lambda>_. '''',
    ce_eval_all = \<lambda>_ _ ctx _ _. (Ok None, ctx)\<rparr> :: unit cost_env"
  let ?s1 = "Limited (sample_tracker\<lparr>td_memory := 7\<rparr>)"
  have "add_memory 7 (Limited sample_tracker) = (Ok (), ?s1)"
    by (simp add: add_memory_def data_add_memory_def sample_tracker_def cost_overflow_add_eq)
  moreover have "runtime_cost (limited_tracker ?env) CF_Add (Some 1) ?s1 =
      (Err (CE_CostComputationFailed (''CostFunction not defined: '' @ ''cost_add'')), ?s1)"
    by (simp add: runtime_cost_def limited_tracker_def compute_cost_def sample_tracker_def)
  ultimately have "\<exists>s3. finally_drop_memory (limited_tracker ?env) 7 (runtime_cost (limited_tracker ?env) CF_Add (Some 1)) ?s1
      = (Err (CE_CostComputationFailed (''CostFunction not defined: '' @ ''cost_add'')), s3)
    \<and> memory_in_use s3 = memory_in_use (Limited sample_tracker)"
    using charged_body_balanced by blast
  then show ?thesis by (simp add: sample_tracker_def)
qed

text \<open>A short-circuited contract call is not charged: whatever the cost function of the circuit
  returns, the tracker's total stays as it was.\<close>

lemma short_circuit_uncharged:
  "get_total (snd (short_circuit_contract_call env contract function input s)) = get_total s"
proof (cases s)
  case (Limited d)
  show ?thesis
  proof (cases "map_of (td_contract_call_circuits d) (contract, function)")
    case (Some r)
    obtain res d' where c: "data_compute_cost env r input (td_epoch d) d = (res, d')"
      by (cases "data_compute_cost env r input (td_epoch d) d")
    from data_compute_cost_frame [OF this] obtain cc where "d' = d\<lparr>td_cost_contracts := cc\<rparr>" by blast
    with Limited Some c show ?thesis by (simp add: short_circuit_contract_call_def)
  qed (simp add: Limited short_circuit_contract_call_def)
qed (simp add: short_circuit_contract_call_def)

end
