(* ===== verification/Events.thy ===== *)
theory Events
  imports Costs
begin

text \<open>
  The events a transaction emits (\<open>clarity/src/vm/events.rs\<close>) and the receipt that carries them
  (\<open>src/chainstate/stacks/events.rs\<close> and the constructors in
  \<open>src/chainstate/stacks/db/transactions.rs\<close>). The transaction, the contract analysis and the
  microblock header of a receipt are opaque. The JSON forms are not modelled.
\<close>

record stx_transfer_event_data =
  stxt_sender :: principal_data
  stxt_recipient :: principal_data
  stxt_amount :: u128

record stx_mint_event_data =
  stxm_recipient :: principal_data
  stxm_amount :: u128

record stx_lock_event_data =
  stxl_locked_amount :: u128
  stxl_unlock_height :: u64
  stxl_locked_address :: principal_data

record stx_burn_event_data =
  stxb_sender :: principal_data
  stxb_amount :: u128

record stx_withdraw_event_data =
  stxw_sender :: principal_data
  stxw_amount :: u128
  stxw_withdrawal_id :: "u32 option"

record nft_transfer_event_data =
  nftt_asset_identifier :: asset_identifier
  nftt_sender :: principal_data
  nftt_recipient :: principal_data
  nftt_value :: clarity_value

record nft_mint_event_data =
  nftm_asset_identifier :: asset_identifier
  nftm_recipient :: principal_data
  nftm_value :: clarity_value

record nft_burn_event_data =
  nftb_asset_identifier :: asset_identifier
  nftb_sender :: principal_data
  nftb_value :: clarity_value

record nft_withdraw_event_data =
  nftw_asset_identifier :: asset_identifier
  nftw_sender :: principal_data
  nftw_id :: u128
  nftw_withdrawal_id :: "u32 option"

record ft_transfer_event_data =
  ftt_asset_identifier :: asset_identifier
  ftt_sender :: principal_data
  ftt_recipient :: principal_data
  ftt_amount :: u128

record ft_mint_event_data =
  ftm_asset_identifier :: asset_identifier
  ftm_recipient :: principal_data
  ftm_amount :: u128

record ft_burn_event_data =
  ftb_asset_identifier :: asset_identifier
  ftb_sender :: principal_data
  ftb_amount :: u128

record ft_withdraw_event_data =
  ftw_asset_identifier :: asset_identifier
  ftw_sender :: principal_data
  ftw_amount :: u128
  ftw_withdrawal_id :: "u32 option"

record smart_contract_event_data =
  sce_key :: "qualified_contract_identifier \<times> string"
  sce_value :: clarity_value

datatype stx_event_type =
    STXTransferEvent stx_transfer_event_data
  | STXMintEvent stx_mint_event_data
  | STXBurnEvent stx_burn_event_data
  | STXLockEvent stx_lock_event_data
  | STXWithdrawEvent stx_withdraw_event_data

datatype nft_event_type =
    NFTTransferEvent nft_transfer_event_data
  | NFTMintEvent nft_mint_event_data
  | NFTBurnEvent nft_burn_event_data
  | NFTWithdrawEvent nft_withdraw_event_data

datatype ft_event_type =
    FTTransferEvent ft_transfer_event_data
  | FTMintEvent ft_mint_event_data
  | FTBurnEvent ft_burn_event_data
  | FTWithdrawEvent ft_withdraw_event_data

datatype stacks_transaction_event =
    SmartContractEvent smart_contract_event_data
  | STXEvent stx_event_type
  | NFTEvent nft_event_type
  | FTEvent ft_event_type

record ('tx, 'analysis, 'header) stacks_transaction_receipt =
  receipt_transaction :: 'tx
  receipt_events :: "stacks_transaction_event list"
  receipt_post_condition_aborted :: bool
  receipt_result :: clarity_value
  receipt_stx_burned :: u128
  receipt_contract_analysis :: "'analysis option"
  receipt_execution_cost :: execution_cost
  receipt_microblock_header :: "'header option"
  receipt_tx_index :: u32

definition from_contract_call :: "'tx \<Rightarrow> stacks_transaction_event list \<Rightarrow> clarity_value \<Rightarrow> u128
    \<Rightarrow> execution_cost \<Rightarrow> ('tx, 'analysis, 'header) stacks_transaction_receipt" where
  "from_contract_call tx evs result burned cost = \<lparr>
     receipt_transaction = tx, receipt_events = evs, receipt_post_condition_aborted = False,
     receipt_result = result, receipt_stx_burned = burned, receipt_contract_analysis = None,
     receipt_execution_cost = cost, receipt_microblock_header = None, receipt_tx_index = 0\<rparr>"

definition from_condition_aborted_contract_call :: "'tx \<Rightarrow> stacks_transaction_event list
    \<Rightarrow> clarity_value \<Rightarrow> u128 \<Rightarrow> execution_cost \<Rightarrow> ('tx, 'analysis, 'header) stacks_transaction_receipt" where
  "from_condition_aborted_contract_call tx evs result burned cost = \<lparr>
     receipt_transaction = tx, receipt_events = evs, receipt_post_condition_aborted = True,
     receipt_result = result, receipt_stx_burned = burned, receipt_contract_analysis = None,
     receipt_execution_cost = cost, receipt_microblock_header = None, receipt_tx_index = 0\<rparr>"

definition from_stx_transfer :: "'tx \<Rightarrow> stacks_transaction_event list
    \<Rightarrow> clarity_value \<Rightarrow> execution_cost \<Rightarrow> ('tx, 'analysis, 'header) stacks_transaction_receipt" where
  "from_stx_transfer tx evs result cost = \<lparr>
     receipt_transaction = tx, receipt_events = evs, receipt_post_condition_aborted = False,
     receipt_result = result, receipt_stx_burned = 0, receipt_contract_analysis = None,
     receipt_execution_cost = cost, receipt_microblock_header = None, receipt_tx_index = 0\<rparr>"

definition from_smart_contract :: "'tx \<Rightarrow> stacks_transaction_event list \<Rightarrow> u128
    \<Rightarrow> 'analysis \<Rightarrow> execution_cost \<Rightarrow> ('tx, 'analysis, 'header) stacks_transaction_receipt" where
  "from_smart_contract tx evs burned analysis cost = \<lparr>
     receipt_transaction = tx, receipt_events = evs, receipt_post_condition_aborted = False,
     receipt_result = okay_true, receipt_stx_burned = burned,
     receipt_contract_analysis = Some analysis, receipt_execution_cost = cost,
     receipt_microblock_header = None, receipt_tx_index = 0\<rparr>"

definition from_condition_aborted_smart_contract :: "'tx \<Rightarrow> stacks_transaction_event list \<Rightarrow> u128
    \<Rightarrow> 'analysis \<Rightarrow> execution_cost \<Rightarrow> ('tx, 'analysis, 'header) stacks_transaction_receipt" where
  "from_condition_aborted_smart_contract tx evs burned analysis cost = \<lparr>
     receipt_transaction = tx, receipt_events = evs, receipt_post_condition_aborted = True,
     receipt_result = okay_true, receipt_stx_burned = burned,
     receipt_contract_analysis = Some analysis, receipt_execution_cost = cost,
     receipt_microblock_header = None, receipt_tx_index = 0\<rparr>"

definition from_coinbase :: "'tx \<Rightarrow> ('tx, 'analysis, 'header) stacks_transaction_receipt" where
  "from_coinbase tx = \<lparr>
     receipt_transaction = tx, receipt_events = [], receipt_post_condition_aborted = False,
     receipt_result = okay_true, receipt_stx_burned = 0, receipt_contract_analysis = None,
     receipt_execution_cost = cost_zero, receipt_microblock_header = None, receipt_tx_index = 0\<rparr>"

definition from_analysis_failure :: "'tx \<Rightarrow> execution_cost
    \<Rightarrow> ('tx, 'analysis, 'header) stacks_transaction_receipt" where
  "from_analysis_failure tx analysis_cost = \<lparr>
     receipt_transaction = tx, receipt_events = [], receipt_post_condition_aborted = False,
     receipt_result = err_none, receipt_stx_burned = 0, receipt_contract_analysis = None,
     receipt_execution_cost = analysis_cost, receipt_microblock_header = None, receipt_tx_index = 0\<rparr>"

definition from_poison_microblock :: "'tx \<Rightarrow> clarity_value \<Rightarrow> execution_cost
    \<Rightarrow> ('tx, 'analysis, 'header) stacks_transaction_receipt" where
  "from_poison_microblock tx result cost = \<lparr>
     receipt_transaction = tx, receipt_events = [], receipt_post_condition_aborted = False,
     receipt_result = result, receipt_stx_burned = 0, receipt_contract_analysis = None,
     receipt_execution_cost = cost, receipt_microblock_header = None, receipt_tx_index = 0\<rparr>"

end
