(* ===== verification/Withdrawal.thy ===== *)
theory Withdrawal
  imports Serialization Merkle Events
begin

text \<open>
  The withdrawal tree of a subnet block (\<open>src/clarity_vm/withdrawal.rs\<close>): every withdrawal event of the
  block's receipts is numbered in order, turned into a key (the serialization of a Clarity tuple)
  and put into a Merkle tree, against which the layer-1 contract checks withdrawals. The numbers
  are written back into the events. The macro that logs the events is not modelled.
\<close>

definition clarity_ascii_str :: "string \<Rightarrow> (unit, clarity_value) result" where
  "clarity_ascii_str input = expect (string_ascii_from_bytes (string_to_bytes input))"

definition buffer_from_hash :: "bytes32 \<Rightarrow> (unit, clarity_value) result" where
  "buffer_from_hash hash = expect (buff_from (bytes32_bits hash))"

text \<open>The literal field names are converted with \<open>into\<close>, which panics on an invalid name.\<close>

fun tuple_fields :: "(string \<times> clarity_value) list \<Rightarrow> (unit, (clarity_name \<times> clarity_value) list) result" where
  "tuple_fields [] = Ok []"
| "tuple_fields ((n, v) # fs) =
     and_then (expect (clarity_name_try_from n)) (\<lambda>n.
     and_then (tuple_fields fs) (\<lambda>fs. Ok ((n, v) # fs)))"

definition key_tuple :: "(string \<times> clarity_value) list \<Rightarrow> (unit, clarity_value) result" where
  "key_tuple fs = and_then (tuple_fields fs) (\<lambda>data. map_ok VTuple (expect (from_data data)))"

definition make_key_for_stx_withdrawal ::
    "principal_data \<Rightarrow> u32 \<Rightarrow> u128 \<Rightarrow> u64 \<Rightarrow> (unit, clarity_value) result" where
  "make_key_for_stx_withdrawal recipient withdrawal_id amount block_height =
     and_then (clarity_ascii_str ''stx'') (\<lambda>ty.
     key_tuple
       [(''type'', ty),
        (''height'', VUInt (ucast block_height)),
        (''withdrawal-id'', VUInt (ucast withdrawal_id)),
        (''recipient'', VPrincipal recipient),
        (''amount'', VUInt amount)])"

definition make_key_for_nft_withdrawal ::
    "principal_data \<Rightarrow> u32 \<Rightarrow> asset_identifier \<Rightarrow> u128 \<Rightarrow> u64 \<Rightarrow> (unit, clarity_value) result" where
  "make_key_for_nft_withdrawal sender withdrawal_id asset nft_id block_height =
     (let asset_contract = VPrincipal (Contract (ai_contract_identifier asset)) in
      and_then (clarity_ascii_str ''nft'') (\<lambda>ty.
      key_tuple
        [(''type'', ty),
         (''asset-contract'', asset_contract),
         (''height'', VUInt (ucast block_height)),
         (''withdrawal-id'', VUInt (ucast withdrawal_id)),
         (''recipient'', VPrincipal sender),
         (''nft-id'', VUInt nft_id)]))"

definition make_key_for_ft_withdrawal ::
    "principal_data \<Rightarrow> u32 \<Rightarrow> asset_identifier \<Rightarrow> u128 \<Rightarrow> u64 \<Rightarrow> (unit, clarity_value) result" where
  "make_key_for_ft_withdrawal sender withdrawal_id asset amount block_height =
     (let asset_contract = VPrincipal (Contract (ai_contract_identifier asset)) in
      and_then (clarity_ascii_str ''ft'') (\<lambda>ty.
      key_tuple
        [(''type'', ty),
         (''asset-contract'', asset_contract),
         (''height'', VUInt (ucast block_height)),
         (''withdrawal-id'', VUInt (ucast withdrawal_id)),
         (''recipient'', VPrincipal sender),
         (''amount'', VUInt amount)]))"

definition make_key_for_stx_withdrawal_event ::
    "stx_withdraw_event_data \<Rightarrow> u64 \<Rightarrow> (unit, clarity_value) result" where
  "make_key_for_stx_withdrawal_event data block_height =
     and_then (expect_some (stxw_withdrawal_id data)) (\<lambda>withdrawal_id.
     make_key_for_stx_withdrawal (stxw_sender data) withdrawal_id (stxw_amount data) block_height)"

definition make_key_for_nft_withdrawal_event ::
    "nft_withdraw_event_data \<Rightarrow> u64 \<Rightarrow> (unit, clarity_value) result" where
  "make_key_for_nft_withdrawal_event data block_height =
     and_then (expect_some (nftw_withdrawal_id data)) (\<lambda>withdrawal_id.
     make_key_for_nft_withdrawal (nftw_sender data) withdrawal_id (nftw_asset_identifier data)
       (nftw_id data) block_height)"

definition make_key_for_ft_withdrawal_event ::
    "ft_withdraw_event_data \<Rightarrow> u64 \<Rightarrow> (unit, clarity_value) result" where
  "make_key_for_ft_withdrawal_event data block_height =
     and_then (expect_some (ftw_withdrawal_id data)) (\<lambda>withdrawal_id.
     make_key_for_ft_withdrawal (ftw_sender data) withdrawal_id (ftw_asset_identifier data)
       (ftw_amount data) block_height)"

text \<open>The key of an event, if it is a withdrawal, and the event with its number.\<close>

fun generate_key_from_event :: "stacks_transaction_event \<Rightarrow> u32 \<Rightarrow> u64
    \<Rightarrow> (unit, clarity_value option \<times> stacks_transaction_event) result" where
  "generate_key_from_event (NFTEvent (NFTWithdrawEvent data)) withdrawal_id block_height =
     (let data = data\<lparr>nftw_withdrawal_id := Some withdrawal_id\<rparr> in
      map_ok (\<lambda>key. (Some key, NFTEvent (NFTWithdrawEvent data)))
        (make_key_for_nft_withdrawal_event data block_height))"
| "generate_key_from_event (FTEvent (FTWithdrawEvent data)) withdrawal_id block_height =
     (let data = data\<lparr>ftw_withdrawal_id := Some withdrawal_id\<rparr> in
      map_ok (\<lambda>key. (Some key, FTEvent (FTWithdrawEvent data)))
        (make_key_for_ft_withdrawal_event data block_height))"
| "generate_key_from_event (STXEvent (STXWithdrawEvent data)) withdrawal_id block_height =
     (let data = data\<lparr>stxw_withdrawal_id := Some withdrawal_id\<rparr> in
      map_ok (\<lambda>key. (Some key, STXEvent (STXWithdrawEvent data)))
        (make_key_for_stx_withdrawal_event data block_height))"
| "generate_key_from_event event withdrawal_id block_height = Ok (None, event)"

definition convert_withdrawal_key_to_bytes :: "clarity_value \<Rightarrow> (unit, u8 list) result" where
  "convert_withdrawal_key_to_bytes key = serialize_to_vec key"

text \<open>The two nested loops of \<open>generate_withdrawal_keys\<close>; the counter is a \<open>u32\<close>.\<close>

fun events_loop :: "u64 \<Rightarrow> stacks_transaction_event list \<Rightarrow> u32 \<Rightarrow> u8 list list
    \<Rightarrow> (unit, stacks_transaction_event list \<times> u32 \<times> u8 list list) result" where
  "events_loop block_height [] withdrawal_id items = Ok ([], withdrawal_id, items)"
| "events_loop block_height (event # events) withdrawal_id items =
     and_then (generate_key_from_event event withdrawal_id block_height) (\<lambda>(key, event).
     and_then (case key of
         Some key \<Rightarrow> map_ok (\<lambda>bytes. (withdrawal_id + 1, items @ [bytes])) (convert_withdrawal_key_to_bytes key)
       | None \<Rightarrow> Ok (withdrawal_id, items)) (\<lambda>(withdrawal_id, items).
     map_ok (apfst (Cons event)) (events_loop block_height events withdrawal_id items)))"

fun receipts_loop :: "u64 \<Rightarrow> ('tx, 'analysis, 'header) stacks_transaction_receipt list \<Rightarrow> u32 \<Rightarrow> u8 list list
    \<Rightarrow> (unit, ('tx, 'analysis, 'header) stacks_transaction_receipt list \<times> u32 \<times> u8 list list) result" where
  "receipts_loop block_height [] withdrawal_id items = Ok ([], withdrawal_id, items)"
| "receipts_loop block_height (receipt # receipts) withdrawal_id items =
     and_then (events_loop block_height (receipt_events receipt) withdrawal_id items)
       (\<lambda>(events, withdrawal_id, items).
     map_ok (apfst (Cons (receipt\<lparr>receipt_events := events\<rparr>)))
       (receipts_loop block_height receipts withdrawal_id items))"

definition generate_withdrawal_keys ::
    "('tx, 'analysis, 'header) stacks_transaction_receipt list \<Rightarrow> u64
     \<Rightarrow> (unit, ('tx, 'analysis, 'header) stacks_transaction_receipt list \<times> u8 list list) result" where
  "generate_withdrawal_keys tx_receipts block_height =
     map_ok (\<lambda>(receipts, _, items). (receipts, items)) (receipts_loop block_height tx_receipts 0 [])"

text \<open>\<open>None\<close> inside the result: the construction of the tree does not end.\<close>

definition create_withdrawal_merkle_tree ::
    "(u8 list \<Rightarrow> bytes32) \<Rightarrow> ('tx, 'analysis, 'header) stacks_transaction_receipt list \<Rightarrow> u64
     \<Rightarrow> (unit, ('tx, 'analysis, 'header) stacks_transaction_receipt list \<times> bytes32 merkle_tree option) result" where
  "create_withdrawal_merkle_tree sha512_256 tx_receipts block_height =
     map_ok (\<lambda>(receipts, items). (receipts, merkle_new (sha512_trunc256_func sha512_256) items))
       (generate_withdrawal_keys tx_receipts block_height)"

section \<open>Specification level\<close>

text \<open>What a withdrawal event asks for, with the principals it names. The asset name is not part of it.\<close>

datatype withdrawal =
    WithdrawSTX principal_data u128
  | WithdrawFT principal_data qualified_contract_identifier u128
  | WithdrawNFT principal_data qualified_contract_identifier u128

fun withdrawal_of :: "stacks_transaction_event \<Rightarrow> withdrawal option" where
  "withdrawal_of (STXEvent (STXWithdrawEvent d)) = Some (WithdrawSTX (stxw_sender d) (stxw_amount d))"
| "withdrawal_of (FTEvent (FTWithdrawEvent d)) =
     Some (WithdrawFT (ftw_sender d) (ai_contract_identifier (ftw_asset_identifier d)) (ftw_amount d))"
| "withdrawal_of (NFTEvent (NFTWithdrawEvent d)) =
     Some (WithdrawNFT (nftw_sender d) (ai_contract_identifier (nftw_asset_identifier d)) (nftw_id d))"
| "withdrawal_of _ = None"

fun withdrawal_number :: "stacks_transaction_event \<Rightarrow> u32 option" where
  "withdrawal_number (STXEvent (STXWithdrawEvent d)) = stxw_withdrawal_id d"
| "withdrawal_number (FTEvent (FTWithdrawEvent d)) = ftw_withdrawal_id d"
| "withdrawal_number (NFTEvent (NFTWithdrawEvent d)) = nftw_withdrawal_id d"
| "withdrawal_number _ = None"

fun set_number :: "u32 \<Rightarrow> stacks_transaction_event \<Rightarrow> stacks_transaction_event" where
  "set_number i (STXEvent (STXWithdrawEvent d)) = STXEvent (STXWithdrawEvent (d\<lparr>stxw_withdrawal_id := Some i\<rparr>))"
| "set_number i (FTEvent (FTWithdrawEvent d)) = FTEvent (FTWithdrawEvent (d\<lparr>ftw_withdrawal_id := Some i\<rparr>))"
| "set_number i (NFTEvent (NFTWithdrawEvent d)) = NFTEvent (NFTWithdrawEvent (d\<lparr>nftw_withdrawal_id := Some i\<rparr>))"
| "set_number i e = e"

fun wf_withdrawal :: "withdrawal \<Rightarrow> bool" where
  "wf_withdrawal (WithdrawSTX p _) = wf_principal p"
| "wf_withdrawal (WithdrawFT p c _) = (wf_principal p \<and> wf_principal (Contract c))"
| "wf_withdrawal (WithdrawNFT p c _) = (wf_principal p \<and> wf_principal (Contract c))"

text \<open>The fields of the key of a withdrawal, sorted by name, and its bytes.\<close>

fun key_fields :: "withdrawal \<Rightarrow> u32 \<Rightarrow> u64 \<Rightarrow> (clarity_name \<times> clarity_value) list" where
  "key_fields (WithdrawSTX p amount) i h =
     [(''amount'', VUInt amount), (''height'', VUInt (ucast h)), (''recipient'', VPrincipal p),
      (''type'', VSequence (StringSeq (CharASCII (string_to_bytes ''stx'')))), (''withdrawal-id'', VUInt (ucast i))]"
| "key_fields (WithdrawFT p c amount) i h =
     [(''amount'', VUInt amount), (''asset-contract'', VPrincipal (Contract c)), (''height'', VUInt (ucast h)),
      (''recipient'', VPrincipal p), (''type'', VSequence (StringSeq (CharASCII (string_to_bytes ''ft'')))),
      (''withdrawal-id'', VUInt (ucast i))]"
| "key_fields (WithdrawNFT p c n) i h =
     [(''asset-contract'', VPrincipal (Contract c)), (''height'', VUInt (ucast h)), (''nft-id'', VUInt n),
      (''recipient'', VPrincipal p), (''type'', VSequence (StringSeq (CharASCII (string_to_bytes ''nft'')))),
      (''withdrawal-id'', VUInt (ucast i))]"

definition key_bytes :: "withdrawal \<Rightarrow> u32 \<Rightarrow> u64 \<Rightarrow> u8 list" where
  "key_bytes w i h = ser (VTuple (TupleData (TupleTypeSignature []) (key_fields w i h)))"


section \<open>Keys\<close>

lemma key_names: "clarity_name_try_from ''type'' = Ok ''type''" "clarity_name_try_from ''height'' = Ok ''height''"
  "clarity_name_try_from ''withdrawal-id'' = Ok ''withdrawal-id''" "clarity_name_try_from ''recipient'' = Ok ''recipient''"
  "clarity_name_try_from ''amount'' = Ok ''amount''" "clarity_name_try_from ''asset-contract'' = Ok ''asset-contract''"
  "clarity_name_try_from ''nft-id'' = Ok ''nft-id''"
  by code_simp+

lemma key_types_ok: "list_all ascii_char_ok (string_to_bytes ''stx'')" "list_all ascii_char_ok (string_to_bytes ''ft'')"
  "list_all ascii_char_ok (string_to_bytes ''nft'')"
  by code_simp+

lemma key_types: "clarity_ascii_str ''stx'' = Ok (VSequence (StringSeq (CharASCII (string_to_bytes ''stx''))))"
  "clarity_ascii_str ''ft'' = Ok (VSequence (StringSeq (CharASCII (string_to_bytes ''ft''))))"
  "clarity_ascii_str ''nft'' = Ok (VSequence (StringSeq (CharASCII (string_to_bytes ''nft''))))"
  by (simp_all add: clarity_ascii_str_def string_ascii_from_bytes_eq key_types_ok string_to_bytes_def [THEN arg_cong, of length])

lemma from_data_loop_distinct:
  "\<lbrakk>distinct (map fst data); list_all (\<lambda>(_, v). wf_value v) data; \<forall>n \<in> fst ` set data. map_of dm n = None\<rbrakk> \<Longrightarrow>
    from_data_loop data (map (apsnd vtype) dm) dm =
      Ok (map (apsnd vtype) (fold (\<lambda>(n, v). btree_insert n v) data dm), fold (\<lambda>(n, v). btree_insert n v) data dm)"
proof (induction data arbitrary: dm)
  case (Cons e data)
  obtain n v where e: "e = (n, v)" by (cases e)
  have "\<forall>k \<in> fst ` set data. map_of (btree_insert n v dm) k = None" using Cons.prems by (auto simp: e)
  with Cons.IH [of "btree_insert n v dm"] Cons.prems show ?case
    by (simp add: e wf_value_type map_of_apsnd map_btree_insert)
qed simp

lemma key_tuple_eq:
  assumes "tuple_fields fs = Ok data" "distinct (map fst data)" "list_all (\<lambda>(n, v). wf_value v \<and> valid_clarity_name n) data"
    and "D = fold (\<lambda>(n, v). btree_insert n v) data []" "D \<noteq> []" "fields_depth (map (apsnd vtype) D) < 32"
    "tsize (TupleType (TupleTypeSignature (map (apsnd vtype) D))) \<le> 1048576"
  shows "\<exists>ts. key_tuple fs = Ok (VTuple (TupleData ts D)) \<and> wf_value (VTuple (TupleData ts D))"
proof -
  have "from_data_loop data [] [] = Ok (map (apsnd vtype) D, D)"
    using from_data_loop_distinct [OF assms(2), of "[]"] assms(3,4) by (auto simp: list_all_iff)
  moreover have "set D = set data" using fold_btree_insert [OF assms(2), of "[]"] assms(4) by simp
  then have "wf_fields (map (apsnd vtype) D)"
    using assms(3) wf_value_type by (fastforce simp: wf_fields_iff list_all_iff valid_clarity_name_iff)
  ultimately have "from_data data = Ok (TupleData (TupleTypeSignature (map (apsnd vtype) D)) D)"
    using assms(5-7) by (simp add: from_data_def tuple_try_from_map_eq)
  with from_data_wf [OF this assms(3)] assms(1) show ?thesis by (simp add: key_tuple_def)
qed

lemmas key_eval = key_names key_types_ok valid_clarity_name_def

lemma make_key_for_stx_withdrawal_eq:
  assumes "wf_principal p"
  shows "\<exists>ts. make_key_for_stx_withdrawal p i amount h = Ok (VTuple (TupleData ts (key_fields (WithdrawSTX p amount) i h)))
    \<and> wf_value (VTuple (TupleData ts (key_fields (WithdrawSTX p amount) i h)))"
  unfolding make_key_for_stx_withdrawal_def key_types and_then.simps
  by (rule key_tuple_eq, simp add: key_names) (use assms in \<open>simp_all add: key_eval\<close>)

lemma make_key_for_ft_withdrawal_eq:
  assumes "wf_principal p" "wf_principal (Contract (ai_contract_identifier a))"
  shows "\<exists>ts. make_key_for_ft_withdrawal p i a amount h =
      Ok (VTuple (TupleData ts (key_fields (WithdrawFT p (ai_contract_identifier a) amount) i h)))
    \<and> wf_value (VTuple (TupleData ts (key_fields (WithdrawFT p (ai_contract_identifier a) amount) i h)))"
  unfolding make_key_for_ft_withdrawal_def key_types and_then.simps Let_def
  by (rule key_tuple_eq, simp add: key_names) (use assms in \<open>simp_all add: key_eval\<close>)

lemma make_key_for_nft_withdrawal_eq:
  assumes "wf_principal p" "wf_principal (Contract (ai_contract_identifier a))"
  shows "\<exists>ts. make_key_for_nft_withdrawal p i a n h =
      Ok (VTuple (TupleData ts (key_fields (WithdrawNFT p (ai_contract_identifier a) n) i h)))
    \<and> wf_value (VTuple (TupleData ts (key_fields (WithdrawNFT p (ai_contract_identifier a) n) i h)))"
  unfolding make_key_for_nft_withdrawal_def key_types and_then.simps Let_def
  by (rule key_tuple_eq, simp add: key_names) (use assms in \<open>simp_all add: key_eval\<close>)


section \<open>Distinct keys\<close>

lemma ser_uint_append: "ser (VUInt a) @ xs = ser (VUInt b) @ ys \<longleftrightarrow> a = b \<and> xs = ys"
proof
  assume "ser (VUInt a) @ xs = ser (VUInt b) @ ys"
  then have *: "to_be_bytes 16 a = to_be_bytes 16 b \<and> xs = ys" by (simp add: append_eq_append_conv)
  have "(from_be_bytes (to_be_bytes 16 c) :: u128) = c" for c by (rule from_to_be_bytes) simp
  then have "a = b" using * by metis
  with * show "a = b \<and> xs = ys" by simp
qed simp

lemma ser_uint_inject: "ser (VUInt a) = ser (VUInt b) \<longleftrightarrow> a = b"
  using ser_uint_append [of a "[]" b "[]"] by simp

lemma ser_principal_append:
  assumes "wf_principal p" "wf_principal q"
  shows "ser (VPrincipal p) @ xs = ser (VPrincipal q) @ ys \<longleftrightarrow> p = q \<and> xs = ys"
proof
  assume eq: "ser (VPrincipal p) @ xs = ser (VPrincipal q) @ ys"
  have "\<exists>r. deserialize_read (ser (VPrincipal r') @ zs) (Some PrincipalType) = Ok (VPrincipal r', r)"
    if "wf_principal r'" for r' zs
    using deserialize_read_typed [of "VPrincipal r'" PrincipalType zs] that by simp
  from this [OF assms(1), of xs] this [OF assms(2), of ys] have "p = q" unfolding eq by auto
  with eq show "p = q \<and> xs = ys" by simp
qed simp

lemma ser_fields_Cons: "ser_fields ((n, v) # d) = ser_name n @ ser v @ ser_fields d"
  by simp

lemma ser_tuple: "ser (VTuple (TupleData ts d)) = 12 # to_be_bytes 4 (of_nat (length d) :: u32) @ ser_fields d"
  by simp

lemma ser_tuple_eq:
  assumes "length d < 2 ^ 32" "length d' < 2 ^ 32" "ser (VTuple (TupleData ts d)) = ser (VTuple (TupleData ts' d'))"
  shows "length d = length d' \<and> ser_fields d = ser_fields d'"
proof -
  from assms(3) have *: "to_be_bytes 4 (of_nat (length d) :: u32) = to_be_bytes 4 (of_nat (length d') :: u32)"
    "ser_fields d = ser_fields d'"
    unfolding ser_tuple by (simp_all add: append_eq_append_conv)
  have "(from_be_bytes (to_be_bytes 4 c) :: u32) = c" for c by (rule from_to_be_bytes) simp
  with *(1) have "(of_nat (length d) :: u32) = of_nat (length d')" by metis
  then have "unat (of_nat (length d) :: u32) = unat (of_nat (length d') :: u32)" by simp
  with assms(1,2) * show ?thesis by (simp add: unat_of_nat_lt)
qed

lemma ucast_u128_inject:
  "(ucast (i :: u32) :: u128) = ucast j \<longleftrightarrow> i = j" "(ucast (h :: u64) :: u128) = ucast k \<longleftrightarrow> h = k"
proof -
  have "unat (ucast x :: u128) = unat x" "unat (ucast y :: u128) = unat y" for x :: u32 and y :: u64
    using unat_lt [of x] unat_lt [of y] by (simp_all add: unsigned_ucast_eq take_bit_eq_mod)
  then show "(ucast (i :: u32) :: u128) = ucast j \<longleftrightarrow> i = j" "(ucast (h :: u64) :: u128) = ucast k \<longleftrightarrow> h = k"
    by (metis unsigned_word_eqI)+
qed

lemma key_bytes_inject:
  assumes "wf_withdrawal w" "wf_withdrawal w'"
  shows "key_bytes w i h = key_bytes w' i' h' \<longleftrightarrow> w = w' \<and> i = i' \<and> h = h'"
proof
  assume "key_bytes w i h = key_bytes w' i' h'"
  note eq = this [unfolded key_bytes_def]
  have len: "length (key_fields v j k) < 2 ^ 32" for v j k by (cases v) simp_all
  have "length (key_fields w i h) = length (key_fields w' i' h')
      \<and> ser_fields (key_fields w i h) = ser_fields (key_fields w' i' h')"
    by (rule ser_tuple_eq [OF len len eq])
  then show "w = w' \<and> i = i' \<and> h = h'"
    using assms
    by (cases w; cases w')
      (simp_all add: ser_uint_append ser_uint_inject ser_principal_append ucast_u128_inject ser_fields_Cons ser_name_def
        string_to_bytes_def append_eq_append_conv del: ser.simps(1-13))
qed simp

section \<open>Numbering\<close>

lemma generate_key_withdrawal:
  assumes "withdrawal_of e = Some w" "wf_withdrawal w"
  shows "\<exists>key. generate_key_from_event e i h = Ok (Some key, set_number i e)
    \<and> convert_withdrawal_key_to_bytes key = Ok (key_bytes w i h)"
proof -
  have conv: "convert_withdrawal_key_to_bytes (VTuple (TupleData ts (key_fields v i h))) = Ok (key_bytes v i h)"
    if "wf_value (VTuple (TupleData ts (key_fields v i h)))" for ts v
    unfolding convert_withdrawal_key_to_bytes_def key_bytes_def serialize_to_vec_ser [OF that] ser_tuple ..
  show ?thesis
    using assms
  proof (cases e rule: withdrawal_of.cases)
    case (1 d)
    obtain ts where ts: "make_key_for_stx_withdrawal (stxw_sender d) i (stxw_amount d) h =
        Ok (VTuple (TupleData ts (key_fields w i h)))" "wf_value (VTuple (TupleData ts (key_fields w i h)))"
      using make_key_for_stx_withdrawal_eq [of "stxw_sender d" i "stxw_amount d" h] assms 1 by auto
    then show ?thesis using conv [OF ts(2)] 1 by (simp add: make_key_for_stx_withdrawal_event_def)
  next
    case (2 d)
    obtain ts where ts: "make_key_for_ft_withdrawal (ftw_sender d) i (ftw_asset_identifier d) (ftw_amount d) h =
        Ok (VTuple (TupleData ts (key_fields w i h)))" "wf_value (VTuple (TupleData ts (key_fields w i h)))"
      using make_key_for_ft_withdrawal_eq [of "ftw_sender d" "ftw_asset_identifier d" i "ftw_amount d" h] assms 2 by auto
    then show ?thesis using conv [OF ts(2)] 2 by (simp add: make_key_for_ft_withdrawal_event_def)
  next
    case (3 d)
    obtain ts where ts: "make_key_for_nft_withdrawal (nftw_sender d) i (nftw_asset_identifier d) (nftw_id d) h =
        Ok (VTuple (TupleData ts (key_fields w i h)))" "wf_value (VTuple (TupleData ts (key_fields w i h)))"
      using make_key_for_nft_withdrawal_eq [of "nftw_sender d" "nftw_asset_identifier d" i "nftw_id d" h] assms 3 by auto
    then show ?thesis using conv [OF ts(2)] 3 by (simp add: make_key_for_nft_withdrawal_event_def)
  qed auto
qed

lemma generate_key_other: "withdrawal_of e = None \<Longrightarrow> generate_key_from_event e i h = Ok (None, e)"
  by (cases e rule: withdrawal_of.cases) auto

lemma set_number_simps [simp]:
  "withdrawal_of (set_number i e) = withdrawal_of e" "set_number j (set_number i e) = set_number j e"
  "withdrawal_of e \<noteq> None \<Longrightarrow> withdrawal_number (set_number i e) = Some i"
  "withdrawal_of e = None \<Longrightarrow> withdrawal_number e = None"
  by (cases e rule: withdrawal_of.cases; simp)+

text \<open>The withdrawals of a list of events, in order, and the keys they get from number \<open>i\<close> on.\<close>

abbreviation withdrawals :: "stacks_transaction_event list \<Rightarrow> withdrawal list" where
  "withdrawals \<equiv> List.map_filter withdrawal_of"

fun numbered_keys :: "u32 \<Rightarrow> u64 \<Rightarrow> withdrawal list \<Rightarrow> u8 list list" where
  "numbered_keys i h [] = []"
| "numbered_keys i h (w # ws) = key_bytes w i h # numbered_keys (i + 1) h ws"

fun numbers_from :: "u32 \<Rightarrow> nat \<Rightarrow> u32 list" where
  "numbers_from i 0 = []"
| "numbers_from i (Suc n) = i # numbers_from (i + 1) n"

text \<open>The events of a block after numbering: the same events, numbered in order.\<close>

definition numbered :: "u32 \<Rightarrow> stacks_transaction_event list \<Rightarrow> stacks_transaction_event list \<Rightarrow> bool" where
  "numbered i es es' \<longleftrightarrow> map (set_number 0) es' = map (set_number 0) es
     \<and> List.map_filter withdrawal_number es' = numbers_from i (length (withdrawals es))"

lemma events_loop_eq:
  "list_all wf_withdrawal (withdrawals es) \<Longrightarrow>
    \<exists>es'. events_loop h es i items = Ok (es', i + of_nat (length (withdrawals es)), items @ numbered_keys i h (withdrawals es))
      \<and> numbered i es es'"
proof (induction es arbitrary: i items)
  case (Cons e es)
  show ?case
  proof (cases "withdrawal_of e")
    case None
    with Cons generate_key_other [OF None, of i h] show ?thesis
      by (fastforce simp: map_filter_simps numbered_def)
  next
    case (Some w)
    obtain key where key: "generate_key_from_event e i h = Ok (Some key, set_number i e)"
      "convert_withdrawal_key_to_bytes key = Ok (key_bytes w i h)"
      using generate_key_withdrawal [OF Some, of i h] Cons.prems Some by (auto simp: map_filter_simps)
    obtain es' where "events_loop h es (i + 1) (items @ [key_bytes w i h]) =
        Ok (es', i + 1 + of_nat (length (withdrawals es)), (items @ [key_bytes w i h]) @ numbered_keys (i + 1) h (withdrawals es))"
      "numbered (i + 1) es es'"
      using Cons.IH [of "i + 1" "items @ [key_bytes w i h]"] Cons.prems Some by (auto simp: map_filter_simps)
    then show ?thesis
      using key Some by (auto simp: map_filter_simps numbered_def add.assoc)
  qed
qed (simp add: map_filter_simps numbered_def)

lemma numbered_append:
  assumes "numbered i as as'" "numbered (i + of_nat (length (withdrawals as))) bs bs'"
  shows "numbered i (as @ bs) (as' @ bs')"
proof -
  have "numbers_from i (m + n) = numbers_from i m @ numbers_from (i + of_nat m) n" for i m n
    by (induction m arbitrary: i) (simp_all add: add.assoc)
  then show ?thesis using assms by (simp add: numbered_def map_filter_append)
qed

definition block_events :: "('tx, 'analysis, 'header) stacks_transaction_receipt list \<Rightarrow> stacks_transaction_event list" where
  "block_events rs = concat (map receipt_events rs)"

lemma numbered_keys_append:
  "numbered_keys i h (vs @ ws) = numbered_keys i h vs @ numbered_keys (i + of_nat (length vs)) h ws"
  by (induction vs arbitrary: i) (simp_all add: add.assoc)

lemma receipts_loop_eq:
  "list_all wf_withdrawal (withdrawals (block_events rs)) \<Longrightarrow>
    \<exists>rs'. receipts_loop h rs i items = Ok (rs', i + of_nat (length (withdrawals (block_events rs))),
        items @ numbered_keys i h (withdrawals (block_events rs)))
      \<and> numbered i (block_events rs) (block_events rs')
      \<and> map (receipt_events_update (\<lambda>_. [])) rs' = map (receipt_events_update (\<lambda>_. [])) rs"
proof (induction rs arbitrary: i items)
  case (Cons r rs)
  have wf: "list_all wf_withdrawal (withdrawals (receipt_events r))" "list_all wf_withdrawal (withdrawals (block_events rs))"
    using Cons.prems by (simp_all add: block_events_def map_filter_append)
  let ?n = "of_nat (length (withdrawals (receipt_events r)))"
  obtain es' where es: "events_loop h (receipt_events r) i items =
      Ok (es', i + ?n, items @ numbered_keys i h (withdrawals (receipt_events r)))" "numbered i (receipt_events r) es'"
    using events_loop_eq [OF wf(1)] by blast
  obtain rs' where rs: "receipts_loop h rs (i + ?n) (items @ numbered_keys i h (withdrawals (receipt_events r))) =
      Ok (rs', i + ?n + of_nat (length (withdrawals (block_events rs))),
        (items @ numbered_keys i h (withdrawals (receipt_events r))) @ numbered_keys (i + ?n) h (withdrawals (block_events rs)))"
    "numbered (i + ?n) (block_events rs) (block_events rs')"
    "map (receipt_events_update (\<lambda>_. [])) rs' = map (receipt_events_update (\<lambda>_. [])) rs"
    using Cons.IH [OF wf(2)] by blast
  show ?case
    using es rs numbered_append [OF es(2) rs(2)]
    by (simp add: block_events_def map_filter_append numbered_keys_append add.assoc)
qed (simp add: block_events_def map_filter_simps numbered_def)

lemma generate_withdrawal_keys_eq:
  assumes "list_all wf_withdrawal (withdrawals (block_events rs))"
  obtains rs' where "generate_withdrawal_keys rs h = Ok (rs', numbered_keys 0 h (withdrawals (block_events rs)))"
    "numbered 0 (block_events rs) (block_events rs')"
    "map (receipt_events_update (\<lambda>_. [])) rs' = map (receipt_events_update (\<lambda>_. [])) rs"
  using receipts_loop_eq [OF assms, of h 0 "[]"] by (auto simp: generate_withdrawal_keys_def)

lemma nth_numbered_keys: "n < length ws \<Longrightarrow> numbered_keys i h ws ! n = key_bytes (ws ! n) (i + of_nat n) h"
  by (induction ws arbitrary: i n) (auto simp: nth_Cons add.assoc split: nat.splits)

lemma length_numbered_keys [simp]: "length (numbered_keys i h ws) = length ws"
  by (induction ws arbitrary: i) auto

lemma nth_numbers_from: "k < n \<Longrightarrow> numbers_from i n ! k = i + of_nat k"
  by (induction n arbitrary: i k) (auto simp: nth_Cons add.assoc split: nat.splits)

lemma length_numbers_from [simp]: "length (numbers_from i n) = n"
  by (induction n arbitrary: i) auto

lemma distinct_numbered_keys:
  assumes "list_all wf_withdrawal ws" "length ws \<le> 2 ^ 32"
  shows "distinct (numbered_keys 0 h ws)"
proof -
  have "numbered_keys 0 h ws ! m \<noteq> numbered_keys 0 h ws ! n" if "m < length ws" "n < length ws" "m \<noteq> n" for m n
  proof
    assume "numbered_keys 0 h ws ! m = numbered_keys 0 h ws ! n"
    then have "(of_nat m :: u32) = of_nat n"
      using that assms(1) by (simp add: nth_numbered_keys key_bytes_inject list_all_length)
    then have "unat (of_nat m :: u32) = unat (of_nat n :: u32)" by simp
    with that assms(2) show False by (simp add: unat_of_nat_lt)
  qed
  then show ?thesis by (simp add: distinct_conv_nth)
qed


text \<open>The keys depend on the receipts only through their events.\<close>

lemma receipts_loop_events:
  "map receipt_events rs = map receipt_events rs' \<Longrightarrow>
    map_ok snd (receipts_loop h rs i items) = map_ok snd (receipts_loop h rs' i items)"
proof (induction rs arbitrary: rs' i items)
  case (Cons r rs)
  then obtain r' rs'' where rs': "rs' = r' # rs''" "receipt_events r = receipt_events r'"
    "map receipt_events rs = map receipt_events rs''" by (cases rs') auto
  show ?case
  proof (cases "events_loop h (receipt_events r') i items")
    case (Ok x)
    obtain es j ks where "x = (es, j, ks)" by (cases x)
    then show ?thesis
      using Cons.IH [OF rs'(3), of j ks] Ok rs'
      by (cases "receipts_loop h rs j ks"; cases "receipts_loop h rs'' j ks") auto
  qed (simp_all add: rs')
qed simp

section \<open>Properties\<close>

text \<open>C5: The withdrawal tree is complete: for a block whose withdrawals name well-formed principals and
  are at most \<open>2 ^ 32\<close> many, the keys are computed without panicking; the withdrawals are numbered
  0, 1, 2, \<dots> in the order of the events and carry their numbers afterwards; the keys are pairwise
  distinct; the tree is built; and every key has a path that verifies against its root.\<close>

theorem withdrawal_tree_complete:
  assumes "list_all wf_withdrawal (withdrawals (block_events rs))" "length (withdrawals (block_events rs)) \<le> 2 ^ 32"
  shows "\<exists>rs' keys nodes. generate_withdrawal_keys rs h = Ok (rs', keys)
    \<and> create_withdrawal_merkle_tree dg rs h = Ok (rs', Some nodes)
    \<and> length keys = length (withdrawals (block_events rs)) \<and> distinct keys
    \<and> map (set_number 0) (block_events rs') = map (set_number 0) (block_events rs)
    \<and> (\<forall>i < length keys. List.map_filter withdrawal_number (block_events rs') ! i = of_nat i
        \<and> keys ! i = key_bytes (withdrawals (block_events rs) ! i) (of_nat i) h
        \<and> (\<exists>p. merkle_path (sha512_trunc256_func dg) nodes (keys ! i) = Ok (Some p)
            \<and> path_verify (sha512_trunc256_func dg) (keys ! i) p (merkle_root (sha512_trunc256_func dg) nodes)))"
proof -
  define ws where "ws = withdrawals (block_events rs)"
  obtain rs' where gen: "generate_withdrawal_keys rs h = Ok (rs', numbered_keys 0 h ws)"
    and num: "numbered 0 (block_events rs) (block_events rs')"
    using generate_withdrawal_keys_eq [OF assms(1)] unfolding ws_def by blast
  obtain nodes where nodes: "merkle_new (sha512_trunc256_func dg) (numbered_keys 0 h ws) = Some nodes"
    using merkle_new_total [of "numbered_keys 0 h ws" "sha512_trunc256_func dg"]
    by (cases "numbered_keys 0 h ws = []") (auto simp: merkle_new_def)
  have "create_withdrawal_merkle_tree dg rs h = Ok (rs', Some nodes)"
    using gen nodes by (simp add: create_withdrawal_merkle_tree_def)
  moreover have "distinct (numbered_keys 0 h ws)" using distinct_numbered_keys assms by (simp add: ws_def)
  moreover have "\<exists>p. merkle_path (sha512_trunc256_func dg) nodes (numbered_keys 0 h ws ! i) = Ok (Some p)
      \<and> path_verify (sha512_trunc256_func dg) (numbered_keys 0 h ws ! i) p (merkle_root (sha512_trunc256_func dg) nodes)"
    if "i < length ws" for i
    using that by (intro merkle_path_exists [OF nodes]) simp
  ultimately show ?thesis
    using gen num by (intro exI [of _ rs'] exI [of _ "numbered_keys 0 h ws"] exI [of _ nodes])
      (simp add: nth_numbered_keys nth_numbers_from numbered_def ws_def)
qed

definition sample_withdrawal :: stacks_transaction_event where
  "sample_withdrawal = STXEvent (STXWithdrawEvent
     \<lparr>stxw_sender = Standard transient, stxw_amount = 5, stxw_withdrawal_id = None\<rparr>)"

theorem withdrawal_tree_complete_witness:
  "\<exists>rs' keys nodes. generate_withdrawal_keys [from_contract_call () [sample_withdrawal, sample_withdrawal] okay_true 0 cost_zero
        :: (unit, unit, unit) stacks_transaction_receipt] 7 = Ok (rs', keys)
    \<and> create_withdrawal_merkle_tree toy_digest [from_contract_call () [sample_withdrawal, sample_withdrawal] okay_true 0 cost_zero
        :: (unit, unit, unit) stacks_transaction_receipt] 7 = Ok (rs', Some nodes)
    \<and> length keys = 2 \<and> distinct keys"
proof -
  let ?rs = "[from_contract_call () [sample_withdrawal, sample_withdrawal] okay_true 0 cost_zero
        :: (unit, unit, unit) stacks_transaction_receipt]"
  have "withdrawals (block_events ?rs) = [WithdrawSTX (Standard transient) 5, WithdrawSTX (Standard transient) 5]"
    by (simp add: block_events_def from_contract_call_def sample_withdrawal_def map_filter_simps)
  then have "list_all wf_withdrawal (withdrawals (block_events ?rs))" "length (withdrawals (block_events ?rs)) = 2"
    by (simp_all add: transient_def wf_standard_principal_def)
  with withdrawal_tree_complete [of ?rs 7 toy_digest] obtain rs' keys nodes where
    "generate_withdrawal_keys ?rs 7 = Ok (rs', keys)" "create_withdrawal_merkle_tree toy_digest ?rs 7 = Ok (rs', Some nodes)"
    "length keys = 2" "distinct keys" by auto
  then show ?thesis by blast
qed

text \<open>C12: Withdrawal keys are unambiguous: two events whose keys have the same bytes ask for the same
  withdrawal (kind, recipient, asset contract, amount or token), with the same number, at the same
  block height. A path for a key therefore proves one withdrawal only.\<close>

theorem withdrawal_keys_unambiguous:
  assumes "generate_key_from_event e i h = Ok (Some key, e1)" "generate_key_from_event e' i' h' = Ok (Some key', e1')"
    and "list_all wf_withdrawal (withdrawals [e, e'])"
    and "convert_withdrawal_key_to_bytes key = convert_withdrawal_key_to_bytes key'"
  shows "withdrawal_of e = withdrawal_of e' \<and> i = i' \<and> h = h'"
proof -
  obtain w where w: "withdrawal_of e = Some w" using assms(1) generate_key_other by (cases "withdrawal_of e") auto
  obtain w' where w': "withdrawal_of e' = Some w'" using assms(2) generate_key_other by (cases "withdrawal_of e'") auto
  have wf: "wf_withdrawal w" "wf_withdrawal w'" using assms(3) w w' by (simp_all add: map_filter_simps)
  have "key_bytes w i h = key_bytes w' i' h'"
    using generate_key_withdrawal [OF w wf(1), of i h] generate_key_withdrawal [OF w' wf(2), of i' h'] assms(1,2,4) by auto
  then show ?thesis using key_bytes_inject [OF wf] w w' by simp
qed

theorem withdrawal_keys_unambiguous_witness:
  "\<exists>key e1 key' e1'. generate_key_from_event sample_withdrawal 0 7 = Ok (Some key, e1)
    \<and> generate_key_from_event sample_withdrawal 1 7 = Ok (Some key', e1')
    \<and> convert_withdrawal_key_to_bytes key \<noteq> convert_withdrawal_key_to_bytes key'"
proof -
  have w: "withdrawal_of sample_withdrawal = Some (WithdrawSTX (Standard transient) 5)"
    by (simp add: sample_withdrawal_def)
  have wf: "wf_withdrawal (WithdrawSTX (Standard transient) 5)"
    by (simp add: transient_def wf_standard_principal_def)
  from generate_key_withdrawal [OF w wf, of 0 7] generate_key_withdrawal [OF w wf, of 1 7]
  obtain key key' where k: "generate_key_from_event sample_withdrawal 0 7 = Ok (Some key, set_number 0 sample_withdrawal)"
    "generate_key_from_event sample_withdrawal 1 7 = Ok (Some key', set_number 1 sample_withdrawal)" by auto
  with withdrawal_keys_unambiguous [OF k] w wf show ?thesis by (auto simp: map_filter_simps)
qed

text \<open>A transaction that a post-condition aborted contributes to the withdrawal tree like a successful
  one: its receipt keeps the events, and the keys of a block do not depend on the abort flag.\<close>

lemma aborted_withdrawals_included:
  "map_ok snd (generate_withdrawal_keys (rs @ from_condition_aborted_contract_call tx evs result burned cost # rs') h)
   = map_ok snd (generate_withdrawal_keys (rs @ from_contract_call tx evs result burned cost # rs') h)"
proof -
  have "map_ok snd (receipts_loop h (rs @ from_condition_aborted_contract_call tx evs result burned cost # rs') 0 [])
      = map_ok snd (receipts_loop h (rs @ from_contract_call tx evs result burned cost # rs') 0 [])"
    by (rule receipts_loop_events) (simp add: from_condition_aborted_contract_call_def from_contract_call_def)
  then show ?thesis
    unfolding generate_withdrawal_keys_def
    by (cases "receipts_loop h (rs @ from_condition_aborted_contract_call tx evs result burned cost # rs') 0 []";
        cases "receipts_loop h (rs @ from_contract_call tx evs result burned cost # rs') 0 []") auto
qed

end
