(* ===== verification/Hash_Maps.thy ===== *)
theory Hash_Maps
  imports Prelude
begin

text \<open>
  Hash maps from keys to hash maps, as the asset bookkeeping of the virtual machine uses them:
  a map from principals to maps from asset identifiers. A \<open>HashMap\<close> is the association list of
  its entries in iteration order; what is proved below holds for every such order.
\<close>

text \<open>Mapping a fallible function over a list in order, stopping at the first failure.\<close>

fun try_map :: "('a \<Rightarrow> ('e, 'b) result) \<Rightarrow> 'a list \<Rightarrow> ('e, 'b list) result" where
  "try_map f [] = Ok []"
| "try_map f (x # xs) = and_then (f x) (\<lambda>y. and_then (try_map f xs) (\<lambda>ys. Ok (y # ys)))"

text \<open>
  The inner map of a key after the source's idiom ``insert an empty map unless the key is
  present'', and the insertion of one entry into it.
\<close>

definition inner_map :: "'p \<Rightarrow> ('p \<times> ('a \<times> 'v) list) list \<Rightarrow> ('a \<times> 'v) list" where
  "inner_map p m = (case map_of m p of Some pm \<Rightarrow> pm | None \<Rightarrow> [])"

definition nested_insert :: "'p \<Rightarrow> 'a \<Rightarrow> 'v \<Rightarrow> ('p \<times> ('a \<times> 'v) list) list \<Rightarrow> ('p \<times> ('a \<times> 'v) list) list" where
  "nested_insert p a v m = AList.update p (AList.update a v (inner_map p m)) m"

definition nested_get :: "('p \<times> ('a \<times> 'v) list) list \<Rightarrow> 'p \<Rightarrow> 'a \<Rightarrow> 'v option" where
  "nested_get m p a = (case map_of m p of Some pm \<Rightarrow> map_of pm a | None \<Rightarrow> None)"

text \<open>The entries of a nested map in the order of two nested draining loops.\<close>

definition drain_nested :: "('p \<times> ('a \<times> 'v) list) list \<Rightarrow> (('p \<times> 'a) \<times> 'v) list" where
  "drain_nested m = concat (map (\<lambda>(p, pm). map (\<lambda>(a, v). ((p, a), v)) pm) m)"

definition nested_wf :: "('p \<times> ('a \<times> 'v) list) list \<Rightarrow> bool" where
  "nested_wf m \<longleftrightarrow> distinct (map fst m) \<and> (\<forall>(p, pm) \<in> set m. distinct (map fst pm))"

section \<open>Laws\<close>

lemma try_map_Ok_iff:
  "try_map f xs = Ok ys \<longleftrightarrow> list_all2 (\<lambda>x y. f x = Ok y) xs ys"
  by (induction xs arbitrary: ys) (auto simp: list_all2_Cons1)

lemma try_map_Err: "try_map f xs = Err e \<Longrightarrow> \<exists>x \<in> set xs. f x = Err e"
  by (induction xs) (auto simp: and_then_eq_Err)

lemma try_map_Panic: "try_map f xs = Panic \<Longrightarrow> \<exists>x \<in> set xs. f x = Panic"
  by (induction xs) (auto simp: and_then_eq_Panic)

lemma try_map_Ok_ex: "(\<forall>x \<in> set xs. \<exists>y. f x = Ok y) \<Longrightarrow> \<exists>ys. try_map f xs = Ok ys"
  by (induction xs) auto

text \<open>Mapping over the entries of a map keeps the keys and rewrites the values.\<close>

lemma try_map_entries:
  assumes "list_all2 (\<lambda>(k, v) y. map_ok (Pair k) (g k v) = Ok y) xs ys"
  shows "map fst ys = map fst xs"
    and "map_of ys k = (case map_of xs k of None \<Rightarrow> None
      | Some v \<Rightarrow> (case g k v of Ok w \<Rightarrow> Some w | _ \<Rightarrow> None))"
  using assms by (induction xs ys rule: list_all2_induct) auto

lemma map_of_foldl_update:
  "distinct (map fst xs) \<Longrightarrow>
    map_of (foldl (\<lambda>m (k, v). AList.update k v m) m xs) k = (case map_of xs k of
      Some v \<Rightarrow> Some v | None \<Rightarrow> map_of m k)"
  by (induction xs arbitrary: m) (auto simp: update_conv' map_of_eq_None_iff image_iff split: option.splits)

lemma distinct_foldl_update:
  "distinct (map fst m) \<Longrightarrow> distinct (map fst (foldl (\<lambda>m (k, v). AList.update k v m) m xs))"
  by (induction xs arbitrary: m) (auto simp: distinct_update)

lemma nested_get_Nil [simp]: "nested_get [] p a = None"
  by (simp add: nested_get_def)

lemma nested_wf_Nil [simp]: "nested_wf []"
  by (simp add: nested_wf_def)

lemma map_of_inner_map: "map_of (inner_map p m) a = nested_get m p a"
  by (simp add: inner_map_def nested_get_def split: option.splits)

lemma nested_get_update_inner:
  "nested_get (AList.update p pm m) p' a = (if p' = p then map_of pm a else nested_get m p' a)"
  by (simp add: nested_get_def update_conv')

lemma nested_get_insert [simp]:
  "nested_get (nested_insert p a v m) p' a' = (if p' = p \<and> a' = a then Some v else nested_get m p' a')"
  by (auto simp: nested_insert_def nested_get_update_inner update_conv' map_of_inner_map)

lemma set_update_subset: "set (AList.update k v al) \<subseteq> insert (k, v) (set al)"
  by (induction al) auto

lemma nested_wf_inner: "nested_wf m \<Longrightarrow> distinct (map fst (inner_map p m))"
  by (auto simp: nested_wf_def inner_map_def dest: map_of_SomeD split: option.splits)

lemma nested_wf_update_inner:
  "nested_wf m \<Longrightarrow> distinct (map fst pm) \<Longrightarrow> nested_wf (AList.update p pm m)"
  using set_update_subset [of p pm m] by (auto simp: nested_wf_def distinct_update)

lemma nested_wf_insert [simp]: "nested_wf m \<Longrightarrow> nested_wf (nested_insert p a v m)"
  by (simp add: nested_insert_def nested_wf_update_inner nested_wf_inner distinct_update)

lemma drain_nested_keys: "set (map fst (drain_nested m)) \<subseteq> {(p, a) | p a. p \<in> set (map fst m)}"
  by (auto simp: drain_nested_def image_iff) force

lemma drain_nested_Cons:
  "drain_nested ((p, pm) # m) = map (\<lambda>(a, v). ((p, a), v)) pm @ drain_nested m"
  by (simp add: drain_nested_def)

lemma nested_wf_Cons:
  "nested_wf ((p, pm) # m) \<longleftrightarrow> p \<notin> set (map fst m) \<and> distinct (map fst pm) \<and> nested_wf m"
  by (auto simp: nested_wf_def)

lemma map_of_tagged:
  "map_of (map (\<lambda>(a, v). ((p, a), v)) pm) (p', a') = (if p' = p then map_of pm a' else None)"
  by (induction pm) auto

lemma drain_nested_map_of: "nested_wf m \<Longrightarrow> map_of (drain_nested m) (p, a) = nested_get m p a"
proof (induction m)
  case Nil
  then show ?case by (simp add: drain_nested_def)
next
  case (Cons e m)
  obtain q qm where e: "e = (q, qm)" by (cases e)
  from Cons.prems have "q \<notin> set (map fst m)" "nested_wf m" by (simp_all add: e nested_wf_Cons)
  then have "p = q \<Longrightarrow> map_of (drain_nested m) (p, a) = None"
    using drain_nested_keys [of m] by (auto simp: map_of_eq_None_iff)
  then show ?case
    using Cons.IH [OF \<open>nested_wf m\<close>]
    by (auto simp: e drain_nested_Cons map_add_def map_of_tagged nested_get_def split: option.splits)
qed

lemma drain_nested_distinct: "nested_wf m \<Longrightarrow> distinct (map fst (drain_nested m))"
proof (induction m)
  case Nil
  then show ?case by (simp add: drain_nested_def)
next
  case (Cons e m)
  obtain q qm where e: "e = (q, qm)" by (cases e)
  from Cons.prems have wf: "q \<notin> set (map fst m)" "distinct (map fst qm)" "nested_wf m"
    by (simp_all add: e nested_wf_Cons)
  have keys: "map fst (map (\<lambda>(a, v). ((q, a), v)) qm) = map (Pair q) (map fst qm)"
    by (auto simp: case_prod_unfold)
  have "distinct (map (Pair q) (map fst qm))"
    using wf(2) by (subst distinct_map) (auto intro: inj_onI)
  moreover have "set (map (Pair q) (map fst qm)) \<inter> set (map fst (drain_nested m)) = {}"
    using wf(1) drain_nested_keys [of m] by auto
  ultimately show ?case
    using Cons.IH [OF wf(3)] by (simp only: e drain_nested_Cons map_append keys distinct_append)
qed

lemma nested_get_foldl_insert:
  "distinct (map fst xs) \<Longrightarrow>
    nested_get (foldl (\<lambda>m ((p, a), v). nested_insert p a v m) m xs) p a = (case map_of xs (p, a) of
      Some v \<Rightarrow> Some v | None \<Rightarrow> nested_get m p a)"
proof (induction xs arbitrary: m)
  case (Cons x xs)
  obtain q b v where x: "x = ((q, b), v)" by (cases x) auto
  from Cons.prems have "map_of xs (q, b) = None" by (simp add: x map_of_eq_None_iff)
  then show ?case using Cons by (auto simp: x split: option.splits)
qed simp

lemma nested_wf_foldl_insert:
  "nested_wf m \<Longrightarrow> nested_wf (foldl (\<lambda>m ((p, a), v). nested_insert p a v m) m xs)"
  by (induction xs arbitrary: m) auto

section \<open>Loops that rebuild a map\<close>

lemma map_of_foldl_wrap:
  "distinct (map fst xs) \<Longrightarrow>
    map_of (foldl (\<lambda>m (k, v). AList.update k (f v) m) m xs) k = (case map_of xs k of
      Some v \<Rightarrow> Some (f v) | None \<Rightarrow> map_of m k)"
  by (induction xs arbitrary: m) (auto simp: update_conv' map_of_eq_None_iff image_iff split: option.splits)

lemma distinct_foldl_wrap:
  "distinct (map fst m) \<Longrightarrow> distinct (map fst (foldl (\<lambda>m (k, v). AList.update k (f v) m) m xs))"
  by (induction xs arbitrary: m) (auto simp: distinct_update)

lemma nested_get_foldl_column:
  "distinct (map fst xs) \<Longrightarrow>
    nested_get (foldl (\<lambda>m (p, v). nested_insert p c (f v) m) m xs) p a =
      (case (if a = c then map_of xs p else None) of Some v \<Rightarrow> Some (f v) | None \<Rightarrow> nested_get m p a)"
proof (induction xs arbitrary: m)
  case (Cons x xs)
  obtain q v where x: "x = (q, v)" by (cases x)
  from Cons.prems have "map_of xs q = None" by (simp add: x map_of_eq_None_iff)
  then show ?case using Cons by (auto simp: x split: option.splits if_splits)
qed (auto split: option.splits)

lemma nested_wf_foldl_column:
  "nested_wf m \<Longrightarrow> nested_wf (foldl (\<lambda>m (p, v). nested_insert p c (f v) m) m xs)"
  by (induction xs arbitrary: m) auto

text \<open>The loop that merges every inner map of a nested map into another nested map.\<close>

abbreviation merge_rows :: "('v \<Rightarrow> 'w) \<Rightarrow> ('p \<times> ('a \<times> 'w) list) list \<Rightarrow> ('p \<times> ('a \<times> 'v) list) list
    \<Rightarrow> ('p \<times> ('a \<times> 'w) list) list" where
  "merge_rows f m xs \<equiv> foldl (\<lambda>m (p, pm).
     AList.update p (foldl (\<lambda>om (a, v). AList.update a (f v) om) (inner_map p m) pm) m) m xs"

lemma nested_get_merge_rows:
  "nested_wf xs \<Longrightarrow> nested_get (merge_rows f m xs) p a =
     (case nested_get xs p a of Some v \<Rightarrow> Some (f v) | None \<Rightarrow> nested_get m p a)"
proof (induction xs arbitrary: m)
  case (Cons x xs)
  obtain q qm where x: "x = (q, qm)" by (cases x)
  from Cons.prems have wf: "q \<notin> set (map fst xs)" "distinct (map fst qm)" "nested_wf xs"
    by (simp_all add: x nested_wf_Cons)
  then have "map_of xs q = None" by (simp add: map_of_eq_None_iff)
  then have "nested_get (x # xs) p a = (if p = q then map_of qm a else nested_get xs p a)"
    and "nested_get xs q a = None"
    by (auto simp: x nested_get_def)
  with Cons.IH [OF wf(3)] wf(2) show ?case
    by (auto simp: x nested_get_update_inner map_of_foldl_wrap map_of_inner_map split: option.splits)
qed simp

lemma nested_wf_merge_rows: "nested_wf m \<Longrightarrow> nested_wf (merge_rows f m xs)"
  by (induction xs arbitrary: m)
    (auto simp: nested_wf_update_inner nested_wf_inner distinct_foldl_wrap)

lemma nested_get_wrap_rows:
  assumes "nested_wf xs"
  shows "nested_get (foldl (\<lambda>m (p, pm). AList.update p (foldl (\<lambda>om (a, v). AList.update a (f v) om) [] pm) m)
      [] xs) p a = map_option f (nested_get xs p a)"
proof -
  have "distinct (map fst xs)" using assms by (simp add: nested_wf_def)
  from map_of_foldl_wrap [OF this, where f = "foldl (\<lambda>om (a, v). AList.update a (f v) om) []" and m = "[]"]
  have "map_of (foldl (\<lambda>m (p, pm). AList.update p (foldl (\<lambda>om (a, v). AList.update a (f v) om) [] pm) m) [] xs) p =
      (case map_of xs p of Some pm \<Rightarrow> Some (foldl (\<lambda>om (a, v). AList.update a (f v) om) [] pm) | None \<Rightarrow> None)"
    by (simp split: option.splits)
  moreover have "map_of xs p = Some pm \<Longrightarrow> distinct (map fst pm)" for pm
    using assms by (auto simp: nested_wf_def dest: map_of_SomeD)
  ultimately show ?thesis
    by (auto simp: nested_get_def map_of_foldl_wrap split: option.splits)
qed

lemma nested_wf_wrap_rows:
  "nested_wf m \<Longrightarrow> nested_wf (foldl (\<lambda>m (p, pm).
     AList.update p (foldl (\<lambda>om (a, v). AList.update a (f v) om) [] pm) m) m xs)"
  by (induction xs arbitrary: m) (auto simp: nested_wf_update_inner distinct_foldl_wrap)

text \<open>Every entry of a nested map is found by its two keys.\<close>

lemma nested_get_iff:
  "nested_wf m \<Longrightarrow> nested_get m p a = Some v \<longleftrightarrow> (\<exists>pm. (p, pm) \<in> set m \<and> (a, v) \<in> set pm)"
  by (fastforce simp: nested_get_def nested_wf_def split: option.splits
      dest: map_of_SomeD simp: map_of_eq_None_iff)

end
