(* ===== verification/Asset_Maps.thy ===== *)
theory Asset_Maps
  imports Clarity_Data Hash_Maps
begin

text \<open>
  The asset map of \<open>clarity/src/vm/contexts.rs\<close>: which principal sent how much of which asset
  during a transaction. A nested context records into a map of its own, which
  \<open>commit_other\<close> merges into the map of the enclosing context. The abstract view of a map is
  the sequence of transfers it has recorded (\<open>tracks\<close>): every operation is shown to keep the
  totals of that sequence exactly, or to fail because a total leaves \<open>u128\<close>.
  A fallible method computes every new amount before it writes, so a failure leaves
  the receiver as it was and the model returns only the error.
\<close>

definition asset_STX :: asset_identifier where
  "asset_STX = \<lparr>ai_contract_identifier = \<lparr>qci_issuer = StandardPrincipalData 0 (replicate 20 0), qci_name = ''STX''\<rparr>,
     ai_asset_name = ''STX''\<rparr>"

definition asset_STX_burned :: asset_identifier where
  "asset_STX_burned = \<lparr>ai_contract_identifier = \<lparr>qci_issuer = StandardPrincipalData 0 (replicate 20 0), qci_name = ''BURNED''\<rparr>,
     ai_asset_name = ''BURNED''\<rparr>"

datatype asset_map_entry =
    EntrySTX u128
  | EntryBurn u128
  | EntryToken u128
  | EntryAsset "clarity_value list"

record asset_map =
  am_stx :: "(principal_data \<times> u128) list"
  am_burn :: "(principal_data \<times> u128) list"
  am_token :: "(principal_data \<times> (asset_identifier \<times> u128) list) list"
  am_asset :: "(principal_data \<times> (asset_identifier \<times> clarity_value list) list) list"

definition asset_map_new :: asset_map where
  "asset_map_new = \<lparr>am_stx = [], am_burn = [], am_token = [], am_asset = []\<rparr>"

abbreviation unwrap_or_zero :: "u128 option \<Rightarrow> u128" where
  "unwrap_or_zero x \<equiv> (case x of Some v \<Rightarrow> v | None \<Rightarrow> 0)"

definition get_next_stx_amount :: "asset_map \<Rightarrow> principal_data \<Rightarrow> u128 \<Rightarrow> u128 interpreter_result" where
  "get_next_stx_amount am prin amount =
     (let current_amount = unwrap_or_zero (map_of (am_stx am) prin) in
      ok_or (checked_add current_amount amount) (Runtime RT_ArithmeticOverflow None))"

definition get_next_stx_burn_amount :: "asset_map \<Rightarrow> principal_data \<Rightarrow> u128 \<Rightarrow> u128 interpreter_result" where
  "get_next_stx_burn_amount am prin amount =
     (let current_amount = unwrap_or_zero (map_of (am_burn am) prin) in
      ok_or (checked_add current_amount amount) (Runtime RT_ArithmeticOverflow None))"

definition get_next_amount :: "asset_map \<Rightarrow> principal_data \<Rightarrow> asset_identifier \<Rightarrow> u128
    \<Rightarrow> u128 interpreter_result" where
  "get_next_amount am prin asset amount =
     (let current_amount = (case map_of (am_token am) prin of
          Some principal_map \<Rightarrow> unwrap_or_zero (map_of principal_map asset)
        | None \<Rightarrow> 0) in
      ok_or (checked_add current_amount amount) (Runtime RT_ArithmeticOverflow None))"

definition add_stx_transfer :: "principal_data \<Rightarrow> u128 \<Rightarrow> asset_map \<Rightarrow> asset_map interpreter_result" where
  "add_stx_transfer prin amount am =
     and_then (get_next_stx_amount am prin amount) (\<lambda>next_amount.
     Ok (am\<lparr>am_stx := AList.update prin next_amount (am_stx am)\<rparr>))"

definition add_stx_burn :: "principal_data \<Rightarrow> u128 \<Rightarrow> asset_map \<Rightarrow> asset_map interpreter_result" where
  "add_stx_burn prin amount am =
     and_then (get_next_stx_burn_amount am prin amount) (\<lambda>next_amount.
     Ok (am\<lparr>am_burn := AList.update prin next_amount (am_burn am)\<rparr>))"

definition add_asset_transfer :: "principal_data \<Rightarrow> asset_identifier \<Rightarrow> clarity_value \<Rightarrow> asset_map \<Rightarrow> asset_map" where
  "add_asset_transfer prin asset transfered am =
     (let principal_map = inner_map prin (am_asset am);
          values = (case map_of principal_map asset of Some vs \<Rightarrow> vs @ [transfered] | None \<Rightarrow> [transfered])
      in am\<lparr>am_asset := nested_insert prin asset values (am_asset am)\<rparr>)"

definition add_token_transfer :: "principal_data \<Rightarrow> asset_identifier \<Rightarrow> u128 \<Rightarrow> asset_map
    \<Rightarrow> asset_map interpreter_result" where
  "add_token_transfer prin asset amount am =
     and_then (get_next_amount am prin asset amount) (\<lambda>next_amount.
     Ok (am\<lparr>am_token := nested_insert prin asset next_amount (am_token am)\<rparr>))"

text \<open>One entry of the other map's non-fungible transfers landing in this map.\<close>

definition land_assets :: "(principal_data \<times> (asset_identifier \<times> clarity_value list) list) list
    \<Rightarrow> (principal_data \<times> asset_identifier) \<times> clarity_value list
    \<Rightarrow> (principal_data \<times> (asset_identifier \<times> clarity_value list) list) list" where
  "land_assets m = (\<lambda>((prin, asset), transfers).
     let landing_map = inner_map prin m;
         landing_vec = (case map_of landing_map asset of Some vs \<Rightarrow> vs @ transfers | None \<Rightarrow> transfers)
     in nested_insert prin asset landing_vec m)"

definition commit_other :: "asset_map \<Rightarrow> asset_map \<Rightarrow> asset_map interpreter_result" where
  "commit_other am other =
     and_then (try_map (\<lambda>((prin, asset), amount).
         map_ok (Pair (prin, asset)) (get_next_amount am prin asset amount))
       (drain_nested (am_token other))) (\<lambda>to_add.
     and_then (try_map (\<lambda>(prin, stx_amount).
         map_ok (Pair prin) (get_next_stx_amount am prin stx_amount))
       (am_stx other)) (\<lambda>stx_to_add.
     and_then (try_map (\<lambda>(prin, stx_burn_amount).
         map_ok (Pair prin) (get_next_stx_burn_amount am prin stx_burn_amount))
       (am_burn other)) (\<lambda>stx_burn_to_add.
     Ok \<lparr>am_stx = foldl (\<lambda>m (prin, stx_amount). AList.update prin stx_amount m) (am_stx am) stx_to_add,
         am_burn = foldl (\<lambda>m (prin, stx_burn_amount). AList.update prin stx_burn_amount m)
           (am_burn am) stx_burn_to_add,
         am_token = foldl (\<lambda>m ((prin, asset), amount). nested_insert prin asset amount m)
           (am_token am) to_add,
         am_asset = foldl land_assets (am_asset am) (drain_nested (am_asset other))\<rparr>)))"

type_synonym asset_table = "(principal_data \<times> (asset_identifier \<times> asset_map_entry) list) list"

definition to_table :: "asset_map \<Rightarrow> asset_table" where
  "to_table am =
     (let map1 = foldl (\<lambda>m (prin, principal_map).
            let output_map = foldl (\<lambda>om (asset, amount). AList.update asset (EntryToken amount) om) [] principal_map
            in AList.update prin output_map m) [] (am_token am);
          map2 = foldl (\<lambda>m (prin, stx_amount). nested_insert prin asset_STX (EntrySTX stx_amount) m)
            map1 (am_stx am);
          map3 = foldl (\<lambda>m (prin, stx_burned_amount).
            nested_insert prin asset_STX_burned (EntryBurn stx_burned_amount) m) map2 (am_burn am)
      in foldl (\<lambda>m (prin, principal_map).
           AList.update prin
             (foldl (\<lambda>om (asset, transfers). AList.update asset (EntryAsset transfers) om)
                (inner_map prin m) principal_map) m) map3 (am_asset am))"

definition get_stx :: "asset_map \<Rightarrow> principal_data \<Rightarrow> u128 option" where
  "get_stx am prin = map_of (am_stx am) prin"

definition get_stx_burned :: "asset_map \<Rightarrow> principal_data \<Rightarrow> u128 option" where
  "get_stx_burned am prin = map_of (am_burn am) prin"

text \<open>The total burned, summed over the keys; an overflow is a panic.\<close>

fun burned_loop :: "asset_map \<Rightarrow> principal_data list \<Rightarrow> u128 \<Rightarrow> (unit, u128) result" where
  "burned_loop am [] burned = Ok burned"
| "burned_loop am (prin # keys) burned =
     and_then (expect_some (checked_add burned (unwrap_or_zero (map_of (am_burn am) prin))))
       (burned_loop am keys)"

definition get_stx_burned_total :: "asset_map \<Rightarrow> (unit, u128) result" where
  "get_stx_burned_total am = burned_loop am (map fst (am_burn am)) 0"

definition get_fungible_tokens :: "asset_map \<Rightarrow> principal_data \<Rightarrow> asset_identifier \<Rightarrow> u128 option" where
  "get_fungible_tokens am prin asset_identifier =
     (case map_of (am_token am) prin of
        Some assets \<Rightarrow> map_of assets asset_identifier | None \<Rightarrow> None)"

definition get_nonfungible_tokens :: "asset_map \<Rightarrow> principal_data \<Rightarrow> asset_identifier
    \<Rightarrow> clarity_value list option" where
  "get_nonfungible_tokens am prin asset_identifier =
     (case map_of (am_asset am) prin of
        Some assets \<Rightarrow> map_of assets asset_identifier | None \<Rightarrow> None)"

section \<open>Abstract view\<close>

text \<open>
  A transfer recorded by one of the four \<open>add\<close> methods, and the sums of a sequence of transfers:
  no entry if nothing was recorded, the exact total otherwise.
\<close>

datatype transfer =
    SentStx principal_data u128
  | BurnedStx principal_data u128
  | SentToken principal_data asset_identifier u128
  | SentAsset principal_data asset_identifier clarity_value

definition total_of :: "nat list \<Rightarrow> nat option" where
  "total_of ns = (if ns = [] then None else Some (sum_list ns))"

fun stx_amount_of :: "principal_data \<Rightarrow> transfer \<Rightarrow> nat option" where
  "stx_amount_of p (SentStx q n) = (if q = p then Some (unat n) else None)"
| "stx_amount_of p t = None"

fun burn_amount_of :: "principal_data \<Rightarrow> transfer \<Rightarrow> nat option" where
  "burn_amount_of p (BurnedStx q n) = (if q = p then Some (unat n) else None)"
| "burn_amount_of p t = None"

fun token_amount_of :: "principal_data \<Rightarrow> asset_identifier \<Rightarrow> transfer \<Rightarrow> nat option" where
  "token_amount_of p a (SentToken q b n) = (if q = p \<and> b = a then Some (unat n) else None)"
| "token_amount_of p a t = None"

fun asset_of :: "principal_data \<Rightarrow> asset_identifier \<Rightarrow> transfer \<Rightarrow> clarity_value option" where
  "asset_of p a (SentAsset q b v) = (if q = p \<and> b = a then Some v else None)"
| "asset_of p a t = None"

definition stx_sent :: "transfer list \<Rightarrow> principal_data \<Rightarrow> nat option" where
  "stx_sent log p = total_of (List.map_filter (stx_amount_of p) log)"

definition stx_burned :: "transfer list \<Rightarrow> principal_data \<Rightarrow> nat option" where
  "stx_burned log p = total_of (List.map_filter (burn_amount_of p) log)"

definition tokens_sent :: "transfer list \<Rightarrow> principal_data \<Rightarrow> asset_identifier \<Rightarrow> nat option" where
  "tokens_sent log p a = total_of (List.map_filter (token_amount_of p a) log)"

definition assets_sent :: "transfer list \<Rightarrow> principal_data \<Rightarrow> asset_identifier \<Rightarrow> clarity_value list" where
  "assets_sent log p a = List.map_filter (asset_of p a) log"

definition asset_map_wf :: "asset_map \<Rightarrow> bool" where
  "asset_map_wf am \<longleftrightarrow> distinct (map fst (am_stx am)) \<and> distinct (map fst (am_burn am))
     \<and> nested_wf (am_token am) \<and> nested_wf (am_asset am)"

definition tracks :: "asset_map \<Rightarrow> transfer list \<Rightarrow> bool" where
  "tracks am log \<longleftrightarrow> asset_map_wf am
     \<and> (\<forall>p. map_option unat (get_stx am p) = stx_sent log p)
     \<and> (\<forall>p. map_option unat (get_stx_burned am p) = stx_burned log p)
     \<and> (\<forall>p a. map_option unat (get_fungible_tokens am p a) = tokens_sent log p a)
     \<and> (\<forall>p a. get_nonfungible_tokens am p a =
          (if assets_sent log p a = [] then None else Some (assets_sent log p a)))"

text \<open>Recording one transfer with the method of its kind.\<close>

fun record_transfer :: "transfer \<Rightarrow> asset_map \<Rightarrow> asset_map interpreter_result" where
  "record_transfer (SentStx p n) am = add_stx_transfer p n am"
| "record_transfer (BurnedStx p n) am = add_stx_burn p n am"
| "record_transfer (SentToken p a n) am = add_token_transfer p a n am"
| "record_transfer (SentAsset p a v) am = Ok (add_asset_transfer p a v am)"

text \<open>Every total of a sequence of transfers fits \<open>u128\<close>.\<close>

definition totals_fit :: "transfer list \<Rightarrow> bool" where
  "totals_fit log \<longleftrightarrow> (\<forall>p n. stx_sent log p = Some n \<longrightarrow> n < 2 ^ 128)
     \<and> (\<forall>p n. stx_burned log p = Some n \<longrightarrow> n < 2 ^ 128)
     \<and> (\<forall>p a n. tokens_sent log p a = Some n \<longrightarrow> n < 2 ^ 128)"

section \<open>Exact totals\<close>

primrec opt_add :: "nat option \<Rightarrow> nat option \<Rightarrow> nat option" where
  "opt_add None y = y"
| "opt_add (Some n) y = Some (n + (case y of Some m \<Rightarrow> m | None \<Rightarrow> 0))"

lemma opt_add_None [simp]: "opt_add x None = x"
  by (cases x) auto

lemma total_of_append: "total_of (xs @ ys) = opt_add (total_of xs) (total_of ys)"
  by (auto simp: total_of_def)

lemma map_filter_single: "List.map_filter f [x] = (case f x of Some y \<Rightarrow> [y] | None \<Rightarrow> [])"
  by (simp add: map_filter_def split: option.splits)

lemma sent_append [simp]:
  "stx_sent (l @ l') p = opt_add (stx_sent l p) (stx_sent l' p)"
  "stx_burned (l @ l') p = opt_add (stx_burned l p) (stx_burned l' p)"
  "tokens_sent (l @ l') p a = opt_add (tokens_sent l p a) (tokens_sent l' p a)"
  "assets_sent (l @ l') p a = assets_sent l p a @ assets_sent l' p a"
  by (simp_all add: stx_sent_def stx_burned_def tokens_sent_def assets_sent_def map_filter_append total_of_append)

lemma sent_Nil [simp]:
  "stx_sent [] p = None" "stx_burned [] p = None" "tokens_sent [] p a = None" "assets_sent [] p a = []"
  by (simp_all add: stx_sent_def stx_burned_def tokens_sent_def assets_sent_def total_of_def)

lemma sent_single:
  "stx_sent [t] p = stx_amount_of p t" "stx_burned [t] p = burn_amount_of p t"
  "tokens_sent [t] p a = token_amount_of p a t"
  "assets_sent [t] p a = (case asset_of p a t of Some v \<Rightarrow> [v] | None \<Rightarrow> [])"
  by (simp_all add: stx_sent_def stx_burned_def tokens_sent_def assets_sent_def map_filter_single total_of_def
      split: option.splits)

lemmas get_defs = get_stx_def get_stx_burned_def

lemma get_fun: "get_stx am = map_of (am_stx am)" "get_stx_burned am = map_of (am_burn am)"
  by (rule ext, simp add: get_defs)+

lemma get_nested:
  "get_fungible_tokens am p a = nested_get (am_token am) p a"
  "get_nonfungible_tokens am p a = nested_get (am_asset am) p a"
  by (simp_all add: get_fungible_tokens_def get_nonfungible_tokens_def nested_get_def)

text \<open>The three ``next amount'' methods are one function of the current amounts.\<close>

definition next_of :: "('k \<Rightarrow> u128 option) \<Rightarrow> 'k \<Rightarrow> u128 \<Rightarrow> u128 interpreter_result" where
  "next_of cur k v = ok_or (checked_add (unwrap_or_zero (cur k)) v) (Runtime RT_ArithmeticOverflow None)"

lemma next_amounts:
  "get_next_stx_amount am p v = next_of (get_stx am) p v"
  "get_next_stx_burn_amount am p v = next_of (get_stx_burned am) p v"
  "get_next_amount am p a v = next_of (\<lambda>(p, a). nested_get (am_token am) p a) (p, a) v"
  by (simp_all add: get_next_stx_amount_def get_next_stx_burn_amount_def get_next_amount_def next_of_def
      get_defs nested_get_def split: option.splits)

lemma next_of_Ok:
  "next_of cur k v = Ok w \<longleftrightarrow> unat w = unat (unwrap_or_zero (cur k)) + unat v"
  by (simp add: next_of_def checked_iff)

lemma next_of_Err:
  "next_of cur k v = Err e \<longleftrightarrow> e = Runtime RT_ArithmeticOverflow None
     \<and> 2 ^ 128 \<le> unat (unwrap_or_zero (cur k)) + unat v"
  by (auto simp: next_of_def checked_add_def)

lemma next_of_not_Panic [simp]: "next_of cur k v \<noteq> Panic"
  by (simp add: next_of_def)

lemma unat_next:
  "next_of cur k v = Ok w \<Longrightarrow> Some (unat w) = opt_add (map_option unat (cur k)) (Some (unat v))"
  by (auto simp: next_of_Ok split: option.splits)

lemma next_overflow:
  assumes "next_of cur k v = Err e" "map_option unat (cur k) = x"
  shows "e = Runtime RT_ArithmeticOverflow None \<and> (\<exists>n. opt_add x (Some (unat v)) = Some n \<and> 2 ^ 128 \<le> n)"
  using assms unat_lt [of v] by (auto simp: next_of_Err split: option.splits)

text \<open>Adding the amounts of one map to those of another, computed for all keys before writing.\<close>

abbreviation next_entries :: "('k \<Rightarrow> u128 option) \<Rightarrow> ('k \<times> u128) list \<Rightarrow> ('k \<times> u128) list interpreter_result" where
  "next_entries cur xs \<equiv> try_map (\<lambda>(k, v). map_ok (Pair k) (next_of cur k v)) xs"

lemma next_entries_Ok:
  assumes "next_entries cur xs = Ok ys" "distinct (map fst xs)"
  shows "distinct (map fst ys)"
    and "map_option unat (case map_of ys k of Some v \<Rightarrow> Some v | None \<Rightarrow> cur k) =
      opt_add (map_option unat (cur k)) (map_option unat (map_of xs k))"
proof -
  have ys: "list_all2 (\<lambda>(k, v) y. map_ok (Pair k) (next_of cur k v) = Ok y) xs ys"
    using assms(1) by (simp add: try_map_Ok_iff case_prod_unfold)
  from try_map_entries(1) [OF ys] assms(2) show "distinct (map fst ys)" by simp
  show "map_option unat (case map_of ys k of Some v \<Rightarrow> Some v | None \<Rightarrow> cur k) =
      opt_add (map_option unat (cur k)) (map_option unat (map_of xs k))"
  proof (cases "map_of xs k")
    case None
    with try_map_entries(2) [OF ys, of k] show ?thesis by simp
  next
    case (Some v)
    then have "(k, v) \<in> set xs" by (rule map_of_SomeD)
    with ys obtain w where w: "next_of cur k v = Ok w"
      by (auto simp: list_all2_conv_all_nth set_conv_nth)
    with Some try_map_entries(2) [OF ys, of k] unat_next [OF w] show ?thesis by simp
  qed
qed

lemma next_entries_Err:
  assumes "next_entries cur xs = Err e" "distinct (map fst xs)"
  shows "e = Runtime RT_ArithmeticOverflow None \<and>
    (\<exists>k n. opt_add (map_option unat (cur k)) (map_option unat (map_of xs k)) = Some n \<and> 2 ^ 128 \<le> n)"
proof -
  from try_map_Err [OF assms(1)] obtain k v where kv: "(k, v) \<in> set xs"
    and "map_ok (Pair k) (next_of cur k v) = Err e" by auto
  then have e: "next_of cur k v = Err e" by (cases "next_of cur k v") auto
  from kv assms(2) have "map_of xs k = Some v" by simp
  with next_overflow [OF e refl] show ?thesis by (metis option.map(2))
qed

lemma next_entries_not_Panic: "next_entries cur xs \<noteq> Panic"
proof
  assume "next_entries cur xs = Panic"
  from try_map_Panic [OF this] show False by auto
qed

text \<open>Landing the non-fungible transfers appends to the lists already recorded.\<close>

lemma land_assets_get:
  "nested_get (land_assets m ((q, b), ts)) p a = (if p = q \<and> a = b
     then Some ((case nested_get m p a of Some vs \<Rightarrow> vs | None \<Rightarrow> []) @ ts) else nested_get m p a)"
  by (auto simp: land_assets_def map_of_inner_map Let_def split: option.splits)

lemma land_assets_all:
  "distinct (map fst xs) \<Longrightarrow>
    nested_get (foldl land_assets m xs) p a = (case map_of xs (p, a) of
      Some ts \<Rightarrow> Some ((case nested_get m p a of Some vs \<Rightarrow> vs | None \<Rightarrow> []) @ ts)
    | None \<Rightarrow> nested_get m p a)"
proof (induction xs arbitrary: m)
  case (Cons x xs)
  obtain q b ts where x: "x = ((q, b), ts)" by (cases x) auto
  from Cons.prems have "map_of xs (q, b) = None" by (simp add: x map_of_eq_None_iff)
  then show ?case using Cons by (auto simp: x land_assets_get split: option.splits)
qed simp

lemma land_assets_wf: "nested_wf m \<Longrightarrow> nested_wf (foldl land_assets m xs)"
  by (induction xs arbitrary: m) (auto simp: land_assets_def Let_def)

section \<open>The operations track their transfers\<close>

lemma tracks_new: "tracks asset_map_new []"
  by (simp add: tracks_def asset_map_wf_def asset_map_new_def get_defs get_nested)

lemma unat_u128_lt: "map_option unat (x :: u128 option) = Some n \<Longrightarrow> n < 2 ^ 128"
  using unat_lt [where ?'a = 128] by (auto simp: map_option_eq_Some)

lemma tracks_fit: "tracks am log \<Longrightarrow> totals_fit log"
  using unat_u128_lt unfolding tracks_def totals_fit_def by metis

lemma not_fit:
  "\<lbrakk>stx_sent log p = Some n; 2 ^ 128 \<le> n\<rbrakk> \<Longrightarrow> \<not> totals_fit log"
  "\<lbrakk>stx_burned log p = Some n; 2 ^ 128 \<le> n\<rbrakk> \<Longrightarrow> \<not> totals_fit log"
  "\<lbrakk>tokens_sent log p a = Some n; 2 ^ 128 \<le> n\<rbrakk> \<Longrightarrow> \<not> totals_fit log"
  unfolding totals_fit_def by (metis linorder_not_less)+

lemma record_transfer_tracks:
  assumes "tracks am log"
  shows "case record_transfer t am of Ok am' \<Rightarrow> tracks am' (log @ [t])
    | Err e \<Rightarrow> e = Runtime RT_ArithmeticOverflow None \<and> \<not> totals_fit (log @ [t]) | Panic \<Rightarrow> False"
proof (cases t)
  case (SentStx p n)
  show ?thesis
  proof (cases "next_of (get_stx am) p n")
    case (Ok w)
    with assms unat_next [OF Ok] show ?thesis
      by (auto simp: SentStx add_stx_transfer_def next_amounts tracks_def asset_map_wf_def distinct_update
          get_defs update_conv' get_nested sent_single)
  next
    case (Err e)
    from next_overflow [OF Err refl] assms obtain N where "stx_sent (log @ [t]) p = Some N" "2 ^ 128 \<le> N"
      by (auto simp: SentStx tracks_def sent_single)
    from not_fit(1) [OF this] Err next_overflow [OF Err refl] show ?thesis
      by (simp add: SentStx add_stx_transfer_def next_amounts)
  qed simp
next
  case (BurnedStx p n)
  show ?thesis
  proof (cases "next_of (get_stx_burned am) p n")
    case (Ok w)
    with assms unat_next [OF Ok] show ?thesis
      by (auto simp: BurnedStx add_stx_burn_def next_amounts tracks_def asset_map_wf_def distinct_update
          get_defs update_conv' get_nested sent_single)
  next
    case (Err e)
    from next_overflow [OF Err refl] assms obtain N where "stx_burned (log @ [t]) p = Some N" "2 ^ 128 \<le> N"
      by (auto simp: BurnedStx tracks_def sent_single)
    from not_fit(2) [OF this] Err next_overflow [OF Err refl] show ?thesis
      by (simp add: BurnedStx add_stx_burn_def next_amounts)
  qed simp
next
  case (SentToken p a n)
  show ?thesis
  proof (cases "next_of (\<lambda>(p, a). nested_get (am_token am) p a) (p, a) n")
    case (Ok w)
    with assms unat_next [OF Ok] show ?thesis
      by (auto simp: SentToken add_token_transfer_def next_amounts tracks_def asset_map_wf_def
          get_defs get_nested sent_single)
  next
    case (Err e)
    from next_overflow [OF Err refl] assms obtain N where "tokens_sent (log @ [t]) p a = Some N" "2 ^ 128 \<le> N"
      by (auto simp: SentToken tracks_def sent_single get_nested)
    from not_fit(3) [OF this] Err next_overflow [OF Err refl] show ?thesis
      by (simp add: SentToken add_token_transfer_def next_amounts)
  qed simp
next
  case (SentAsset p a v)
  with assms show ?thesis
    by (auto simp: add_asset_transfer_def Let_def map_of_inner_map tracks_def asset_map_wf_def
        get_defs get_nested sent_single split: if_splits)
qed

lemma commit_other_tracks:
  assumes "tracks am log" "tracks other log'"
  shows "case commit_other am other of Ok am' \<Rightarrow> tracks am' (log @ log')
    | Err e \<Rightarrow> e = Runtime RT_ArithmeticOverflow None \<and> \<not> totals_fit (log @ log') | Panic \<Rightarrow> False"
proof -
  note am = assms(1) [unfolded tracks_def asset_map_wf_def get_defs get_nested]
  note ot = assms(2) [unfolded tracks_def asset_map_wf_def get_defs get_nested]
  define tok where "tok = (\<lambda>(p, a). nested_get (am_token am) p a)"
  have dt: "distinct (map fst (drain_nested (am_token other)))"
    and da: "distinct (map fst (drain_nested (am_asset other)))"
    and mt: "map_of (drain_nested (am_token other)) (p, a) = nested_get (am_token other) p a"
    and ma: "map_of (drain_nested (am_asset other)) (p, a) = nested_get (am_asset other) p a" for p a
    using ot by (simp_all add: drain_nested_distinct drain_nested_map_of)
  have commit: "commit_other am other =
    and_then (next_entries tok (drain_nested (am_token other))) (\<lambda>to_add.
    and_then (next_entries (map_of (am_stx am)) (am_stx other)) (\<lambda>stx_to_add.
    and_then (next_entries (map_of (am_burn am)) (am_burn other)) (\<lambda>stx_burn_to_add.
    Ok \<lparr>am_stx = foldl (\<lambda>m (p, n). AList.update p n m) (am_stx am) stx_to_add,
        am_burn = foldl (\<lambda>m (p, n). AList.update p n m) (am_burn am) stx_burn_to_add,
        am_token = foldl (\<lambda>m ((p, a), n). nested_insert p a n m) (am_token am) to_add,
        am_asset = foldl land_assets (am_asset am) (drain_nested (am_asset other))\<rparr>)))"
    by (simp add: commit_other_def next_amounts tok_def get_fun case_prod_unfold)
  show ?thesis
  proof (cases "next_entries tok (drain_nested (am_token other))")
    case toks: (Ok ts)
    show ?thesis
    proof (cases "next_entries (map_of (am_stx am)) (am_stx other)")
      case stxs: (Ok ss)
      show ?thesis
      proof (cases "next_entries (map_of (am_burn am)) (am_burn other)")
        case burns: (Ok bs)
        have "distinct (map fst (am_stx other))" "distinct (map fst (am_burn other))" using ot by simp_all
        note lt = next_entries_Ok [OF toks dt] and ls = next_entries_Ok [OF stxs this(1)]
          and lb = next_entries_Ok [OF burns this(2)]
        show ?thesis
          unfolding commit toks stxs burns tracks_def asset_map_wf_def get_defs get_nested
          using am ot lt(1) ls lb lt(2) [of "(p, a)" for p a, unfolded tok_def prod.case]
          by (simp add: distinct_foldl_update nested_wf_foldl_insert land_assets_wf map_of_foldl_update
            nested_get_foldl_insert land_assets_all da mt ma)
      next
        case (Err e)
        have "distinct (map fst (am_burn other))" using ot by simp
        from next_entries_Err [OF Err this] am ot obtain p N where
          "stx_burned (log @ log') p = Some N" "2 ^ 128 \<le> N" by auto
        from not_fit(2) [OF this] next_entries_Err [OF Err] ot show ?thesis
          by (simp add: commit toks stxs Err)
      qed (simp add: next_entries_not_Panic)
    next
      case (Err e)
      have "distinct (map fst (am_stx other))" using ot by simp
      from next_entries_Err [OF Err this] am ot obtain p N where
        "stx_sent (log @ log') p = Some N" "2 ^ 128 \<le> N" by auto
      from not_fit(1) [OF this] next_entries_Err [OF Err] ot show ?thesis
        by (simp add: commit toks Err)
    qed (simp add: next_entries_not_Panic)
  next
    case (Err e)
    from next_entries_Err [OF Err dt] am ot obtain p a N where
      "tokens_sent (log @ log') p a = Some N" "2 ^ 128 \<le> N" by (auto simp: tok_def mt)
    from not_fit(3) [OF this] next_entries_Err [OF Err dt] show ?thesis by (simp add: commit Err)
  qed (simp add: next_entries_not_Panic)
qed

section \<open>The table of all transfers\<close>

lemma asset_ids_distinct [simp]: "asset_STX \<noteq> asset_STX_burned" "asset_STX_burned \<noteq> asset_STX"
  by (simp_all add: asset_STX_def asset_STX_burned_def)

text \<open>
  An entry of the table: a non-fungible transfer hides a burn, which hides an STX transfer,
  which hides a fungible transfer under the same identifier.
\<close>

definition table_entry :: "asset_map \<Rightarrow> principal_data \<Rightarrow> asset_identifier \<Rightarrow> asset_map_entry option" where
  "table_entry am p a =
     (case get_nonfungible_tokens am p a of Some vs \<Rightarrow> Some (EntryAsset vs)
      | None \<Rightarrow> (case (if a = asset_STX_burned then get_stx_burned am p else None) of Some n \<Rightarrow> Some (EntryBurn n)
      | None \<Rightarrow> (case (if a = asset_STX then get_stx am p else None) of Some n \<Rightarrow> Some (EntrySTX n)
      | None \<Rightarrow> map_option EntryToken (get_fungible_tokens am p a))))"

lemma to_table_entries:
  assumes "asset_map_wf am"
  shows "nested_get (to_table am) p a = table_entry am p a"
  using assms
  by (simp add: to_table_def asset_map_wf_def nested_get_merge_rows nested_get_foldl_column nested_get_wrap_rows
      table_entry_def get_nested get_fun Let_def cong: option.case_cong)

lemma to_table_wf: "nested_wf (to_table am)"
  by (simp add: to_table_def nested_wf_merge_rows nested_wf_foldl_column nested_wf_wrap_rows Let_def)

section \<open>The burned total\<close>

lemma burned_loop_exact:
  "burned_loop am ks n =
     (let s = unat n + (\<Sum>p\<leftarrow>ks. unat (unwrap_or_zero (get_stx_burned am p))) in
      if s < 2 ^ 128 then Ok (of_nat s) else Panic)"
proof (induction ks arbitrary: n)
  case (Cons p ks)
  let ?v = "unwrap_or_zero (map_of (am_burn am) p)"
  show ?case
  proof (cases "checked_add n ?v")
    case None
    then have "2 ^ 128 \<le> unat n + unat ?v" by (simp add: checked_iff)
    with None show ?thesis by (simp add: get_fun Let_def)
  next
    case (Some m)
    then have "unat m = unat n + unat ?v" by (simp add: checked_iff)
    with Some Cons.IH [of m] show ?thesis by (simp add: get_fun add.assoc Let_def)
  qed
qed (simp add: Let_def unat_bounds)

lemma burned_total_exact:
  "get_stx_burned_total am =
     (let s = (\<Sum>p\<leftarrow>map fst (am_burn am). unat (unwrap_or_zero (get_stx_burned am p))) in
      if s < 2 ^ 128 then Ok (of_nat s) else Panic)"
  by (simp add: get_stx_burned_total_def burned_loop_exact)

section \<open>Recorded sequences\<close>

text \<open>Every sequence of transfers whose totals fit \<open>u128\<close> is recorded.\<close>

lemma totals_fit_append:
  assumes "totals_fit (log @ log')"
  shows "totals_fit log"
proof -
  have le: "n < 2 ^ 128" if "x = Some n" "\<forall>k. opt_add x y = Some k \<longrightarrow> k < 2 ^ 128" for x y n
    using that by (auto dest: add_lessD1)
  show ?thesis
    unfolding totals_fit_def
  proof (intro conjI allI impI)
    fix p n assume "stx_sent log p = Some n"
    then show "n < 2 ^ 128"
      by (rule le [where y = "stx_sent log' p"]) (use assms in \<open>simp add: totals_fit_def\<close>)
  next
    fix p n assume "stx_burned log p = Some n"
    then show "n < 2 ^ 128"
      by (rule le [where y = "stx_burned log' p"]) (use assms in \<open>simp add: totals_fit_def\<close>)
  next
    fix p a n assume "tokens_sent log p a = Some n"
    then show "n < 2 ^ 128"
      by (rule le [where y = "tokens_sent log' p a"]) (use assms in \<open>simp add: totals_fit_def\<close>)
  qed
qed

lemma recorded_if_fits: "totals_fit log \<Longrightarrow> \<exists>am. tracks am log"
proof (induction log rule: rev_induct)
  case Nil
  then show ?case using tracks_new by blast
next
  case (snoc t log)
  then obtain am where "tracks am log" using totals_fit_append by blast
  from record_transfer_tracks [OF this, of t] snoc.prems show ?case
    by (auto split: result.splits)
qed

section \<open>The total over all principals\<close>

text \<open>What a sequence of transfers burns, and that the map's total over its keys is that sum.\<close>

fun burned_amount :: "transfer \<Rightarrow> nat" where
  "burned_amount (BurnedStx p n) = unat n"
| "burned_amount t = 0"

definition burned_in :: "transfer list \<Rightarrow> nat" where
  "burned_in log = (\<Sum>t\<leftarrow>log. burned_amount t)"

lemma burned_by_principal: "(case stx_burned log p of Some n \<Rightarrow> n | None \<Rightarrow> 0) =
    (\<Sum>t\<leftarrow>log. case burn_amount_of p t of Some n \<Rightarrow> n | None \<Rightarrow> 0)"
proof -
  have "sum_list (List.map_filter (burn_amount_of p) log) =
      (\<Sum>t\<leftarrow>log. case burn_amount_of p t of Some n \<Rightarrow> n | None \<Rightarrow> 0)"
    by (induction log) (auto simp: map_filter_simps split: option.splits)
  then show ?thesis by (auto simp: stx_burned_def total_of_def)
qed

lemma burned_regrouped:
  assumes "finite P" "\<And>p n. BurnedStx p n \<in> set log \<Longrightarrow> p \<in> P"
  shows "(\<Sum>p\<in>P. \<Sum>t\<leftarrow>log. case burn_amount_of p t of Some n \<Rightarrow> n | None \<Rightarrow> 0) = burned_in log"
  using assms(2)
proof (induction log)
  case Nil
  then show ?case by (simp add: burned_in_def)
next
  case (Cons t log)
  have "(\<Sum>p\<in>P. case burn_amount_of p t of Some n \<Rightarrow> n | None \<Rightarrow> 0) = burned_amount t"
  proof (cases t)
    case (BurnedStx q n)
    then have "q \<in> P" using Cons.prems [of q n] by simp
    moreover have "(\<Sum>p\<in>P. case burn_amount_of p t of Some n \<Rightarrow> n | None \<Rightarrow> 0) = (\<Sum>p\<in>P. if q = p then unat n else 0)"
      by (intro sum.cong) (auto simp: BurnedStx)
    ultimately show ?thesis using assms(1) by (simp add: BurnedStx)
  qed simp_all
  moreover have "(\<Sum>p\<in>P. \<Sum>t\<leftarrow>log. case burn_amount_of p t of Some n \<Rightarrow> n | None \<Rightarrow> 0) = burned_in log"
    by (rule Cons.IH) (metis Cons.prems list.set_intros(2))
  ultimately show ?case by (simp add: sum.distrib burned_in_def)
qed

lemma burned_total_tracks:
  assumes "tracks am log"
  shows "get_stx_burned_total am = (if burned_in log < 2 ^ 128 then Ok (of_nat (burned_in log)) else Panic)"
proof -
  let ?P = "set (map fst (am_burn am))"
  have d: "distinct (map fst (am_burn am))" using assms by (simp add: tracks_def asset_map_wf_def)
  have amt: "unat (unwrap_or_zero (get_stx_burned am p)) = (case stx_burned log p of Some n \<Rightarrow> n | None \<Rightarrow> 0)" for p
  proof -
    have "map_option unat (get_stx_burned am p) = stx_burned log p" using assms by (simp add: tracks_def)
    then show ?thesis by (cases "get_stx_burned am p") (auto dest: sym)
  qed
  have "p \<in> ?P" if "BurnedStx p n \<in> set log" for p n
  proof -
    from that have "List.map_filter (burn_amount_of p) log \<noteq> []" by (force simp: map_filter_def filter_empty_conv)
    then have "stx_burned log p \<noteq> None" by (simp add: stx_burned_def total_of_def)
    moreover have "map_option unat (get_stx_burned am p) = stx_burned log p" using assms by (simp add: tracks_def)
    ultimately have "map_of (am_burn am) p \<noteq> None" by (auto simp: get_stx_burned_def)
    then show ?thesis by (auto simp: map_of_eq_None_iff)
  qed
  from burned_regrouped [OF _ this, of "log"]
  have "(\<Sum>p\<leftarrow>map fst (am_burn am). unat (unwrap_or_zero (get_stx_burned am p))) = burned_in log"
    using d by (simp only: amt burned_by_principal sum_list_distinct_conv_sum_set finite_set)
  then show ?thesis by (simp only: burned_total_exact Let_def)
qed

section \<open>Properties\<close>

text \<open>C11: Merging a nested asset map is exact: if both maps hold the totals of the transfers recorded into
  them, the merged map holds the totals of all of them, in order, and merging fails exactly if
  some principal's total of an asset leaves \<open>u128\<close>.\<close>

theorem asset_map_merge_exact:
  assumes "tracks am log" "tracks other log'"
  shows "if totals_fit (log @ log') then \<exists>am'. commit_other am other = Ok am' \<and> tracks am' (log @ log')
    else commit_other am other = Err (Runtime RT_ArithmeticOverflow None)"
  using commit_other_tracks [OF assms] tracks_fit by (auto split: result.splits)

theorem asset_map_merge_exact_witness:
  "\<exists>am other am' p. commit_other am other = Ok am'
     \<and> tracks am' [SentStx p 3, SentStx p 4] \<and> get_stx am' p = Some 7"
proof -
  define p where "p = Standard (StandardPrincipalData 22 (replicate 20 7))"
  have fit: "totals_fit [SentStx p 3]" "totals_fit [SentStx p 4]" "totals_fit ([SentStx p 3] @ [SentStx p 4])"
    by (auto simp: totals_fit_def sent_single simp del: append_Cons split: if_splits)
  from recorded_if_fits [OF fit(1)] recorded_if_fits [OF fit(2)] obtain am other where
    "tracks am [SentStx p 3]" "tracks other [SentStx p 4]" by blast
  from asset_map_merge_exact [OF this] fit(3) obtain am' where
    am': "commit_other am other = Ok am'" "tracks am' ([SentStx p 3] @ [SentStx p 4])" by auto
  have "stx_sent ([SentStx p 3] @ [SentStx p 4]) p = Some 7"
    by (simp add: sent_single del: append_Cons)
  with am'(2) have "map_option unat (get_stx am' p) = Some 7" by (simp add: tracks_def del: append_Cons)
  then have "get_stx am' p = Some 7" by (auto simp: word_unat_eq_iff)
  with am' show ?thesis by auto
qed

end
