(* ===== verification/Post_Conditions.thy ===== *)
theory Post_Conditions
  imports Asset_Maps Principals
begin

text \<open>
  Transaction post-conditions: the types of \<open>src/chainstate/stacks/mod.rs\<close> and the check
  \<open>check_transaction_postconditions\<close> of \<open>src/chainstate/stacks/db/transactions.rs\<close>, which decides
  whether the asset map of an executed transaction is acceptable to its author. The check is
  proved equal to a specification on the sequence of transfers that the transaction made. Logging is left out.
  A \<open>HashSet\<close> is a set.
\<close>

section \<open>Conditions\<close>

datatype fungible_condition_code = SentEq | SentGt | SentGe | SentLt | SentLe

definition fungible_code_from_u8 :: "u8 \<Rightarrow> fungible_condition_code option" where
  "fungible_code_from_u8 b =
     (if b = 0x01 then Some SentEq
      else if b = 0x02 then Some SentGt
      else if b = 0x03 then Some SentGe
      else if b = 0x04 then Some SentLt
      else if b = 0x05 then Some SentLe
      else None)"

fun fungible_check :: "fungible_condition_code \<Rightarrow> u128 \<Rightarrow> u128 \<Rightarrow> bool" where
  "fungible_check SentEq amount_sent_condition amount_sent = (amount_sent = amount_sent_condition)"
| "fungible_check SentGt amount_sent_condition amount_sent = (amount_sent > amount_sent_condition)"
| "fungible_check SentGe amount_sent_condition amount_sent = (amount_sent \<ge> amount_sent_condition)"
| "fungible_check SentLt amount_sent_condition amount_sent = (amount_sent < amount_sent_condition)"
| "fungible_check SentLe amount_sent_condition amount_sent = (amount_sent \<le> amount_sent_condition)"

datatype nonfungible_condition_code = NFTSent | NFTNotSent

definition nonfungible_code_from_u8 :: "u8 \<Rightarrow> nonfungible_condition_code option" where
  "nonfungible_code_from_u8 b =
     (if b = 0x10 then Some NFTSent
      else if b = 0x11 then Some NFTNotSent
      else None)"

fun was_sent :: "clarity_value \<Rightarrow> clarity_value list \<Rightarrow> bool" where
  "was_sent nft_sent_condition [] = False"
| "was_sent nft_sent_condition (asset_sent # nfts_sent) =
     (if asset_sent = nft_sent_condition then True else was_sent nft_sent_condition nfts_sent)"

fun nonfungible_check :: "nonfungible_condition_code \<Rightarrow> clarity_value \<Rightarrow> clarity_value list \<Rightarrow> bool" where
  "nonfungible_check NFTSent nft_sent_condition nfts_sent = was_sent nft_sent_condition nfts_sent"
| "nonfungible_check NFTNotSent nft_sent_condition nfts_sent = (\<not> was_sent nft_sent_condition nfts_sent)"

datatype post_condition_principal =
    PCOrigin
  | PCStandard stacks_address
  | PCContract stacks_address contract_name

definition principal_of_address :: "stacks_address \<Rightarrow> standard_principal_data" where
  "principal_of_address addr = StandardPrincipalData (sa_version addr) (bytes20_bits (sa_bytes addr))"

fun to_principal_data :: "post_condition_principal \<Rightarrow> principal_data \<Rightarrow> principal_data" where
  "to_principal_data PCOrigin origin_principal = origin_principal"
| "to_principal_data (PCStandard addr) origin_principal = Standard (principal_of_address addr)"
| "to_principal_data (PCContract addr name) origin_principal =
     Contract \<lparr>qci_issuer = principal_of_address addr, qci_name = name\<rparr>"

record asset_info =
  info_contract_address :: stacks_address
  info_contract_name :: contract_name
  info_asset_name :: clarity_name

datatype transaction_post_condition =
    CondSTX post_condition_principal fungible_condition_code u64
  | CondFungible post_condition_principal asset_info fungible_condition_code u64
  | CondNonfungible post_condition_principal asset_info clarity_value nonfungible_condition_code

datatype transaction_post_condition_mode = ModeAllow | ModeDeny

section \<open>The check\<close>

text \<open>The asset identifier that both asset arms build from the condition's \<open>asset_info\<close>.\<close>

definition asset_id_of :: "asset_info \<Rightarrow> asset_identifier" where
  "asset_id_of info = \<lparr>ai_contract_identifier =
       \<lparr>qci_issuer = principal_of_address (info_contract_address info), qci_name = info_contract_name info\<rparr>,
     ai_asset_name = info_asset_name info\<rparr>"

type_synonym checked_fungible = "(principal_data \<times> asset_identifier set) list"
type_synonym checked_nonfungible = "(principal_data \<times> (asset_identifier \<times> clarity_value set) list) list"

text \<open>
  One round of the loop over the conditions; \<open>None\<close> is the early \<open>return false\<close>.
\<close>

fun check_condition :: "principal_data \<Rightarrow> asset_map \<Rightarrow> transaction_post_condition
    \<Rightarrow> checked_fungible \<times> checked_nonfungible
    \<Rightarrow> (unit, (checked_fungible \<times> checked_nonfungible) option) result" where
  "check_condition origin am (CondSTX prin condition_code amount_sent_condition) (cf, cn) =
     (let account_principal = to_principal_data prin origin;
          amount_transferred = unwrap_or_zero (get_stx am account_principal);
          amount_burned = unwrap_or_zero (get_stx_burned am account_principal)
      in and_then (expect_some (checked_add amount_transferred amount_burned)) (\<lambda>amount_sent.
         if \<not> fungible_check condition_code (ucast amount_sent_condition) amount_sent then Ok None
         else
           let old = (case map_of cf account_principal of Some asset_ids \<Rightarrow> asset_ids | None \<Rightarrow> {});
               ids = (if amount_transferred > 0 then insert asset_STX old else old);
               ids = (if amount_burned > 0 then insert asset_STX_burned ids else ids)
           in Ok (Some (AList.update account_principal ids cf, cn))))"
| "check_condition origin am (CondFungible prin info condition_code amount_sent_condition) (cf, cn) =
     (let account_principal = to_principal_data prin origin;
          asset_id = asset_id_of info;
          amount_sent = unwrap_or_zero (get_fungible_tokens am account_principal asset_id)
      in if \<not> fungible_check condition_code (ucast amount_sent_condition) amount_sent then Ok None
         else
           let old = (case map_of cf account_principal of Some asset_ids \<Rightarrow> asset_ids | None \<Rightarrow> {})
           in Ok (Some (AList.update account_principal (insert asset_id old) cf, cn)))"
| "check_condition origin am (CondNonfungible prin info asset_value condition_code) (cf, cn) =
     (let account_principal = to_principal_data prin origin;
          asset_id = asset_id_of info;
          assets_sent = (case get_nonfungible_tokens am account_principal asset_id of Some vs \<Rightarrow> vs | None \<Rightarrow> [])
      in if \<not> nonfungible_check condition_code asset_value assets_sent then Ok None
         else
           let old = (case nested_get cn account_principal asset_id of Some asset_values \<Rightarrow> asset_values | None \<Rightarrow> {})
           in Ok (Some (cf, nested_insert account_principal asset_id (insert asset_value old) cn)))"

fun check_conditions :: "principal_data \<Rightarrow> asset_map \<Rightarrow> transaction_post_condition list
    \<Rightarrow> checked_fungible \<times> checked_nonfungible
    \<Rightarrow> (unit, (checked_fungible \<times> checked_nonfungible) option) result" where
  "check_conditions origin am [] st = Ok (Some st)"
| "check_conditions origin am (postcond # post_conditions) st =
     and_then (check_condition origin am postcond st) (\<lambda>r.
     case r of None \<Rightarrow> Ok None | Some st \<Rightarrow> check_conditions origin am post_conditions st)"

text \<open>Whether one entry of the table of transfers is covered by the checks that were made.\<close>

fun entry_checked :: "checked_fungible \<Rightarrow> checked_nonfungible \<Rightarrow> principal_data \<Rightarrow> asset_identifier
    \<Rightarrow> asset_map_entry \<Rightarrow> bool" where
  "entry_checked cf cn prin asset_identifier (EntryAsset values) =
     (case map_of cn prin of
        Some checked_nft_asset_map \<Rightarrow>
          (case map_of checked_nft_asset_map asset_identifier of
             Some nfts \<Rightarrow> list_all (\<lambda>v. v \<in> nfts) values
           | None \<Rightarrow> False)
      | None \<Rightarrow> False)"
| "entry_checked cf cn prin asset_identifier _ =
     (case map_of cf prin of
        Some checked_ft_asset_ids \<Rightarrow> asset_identifier \<in> checked_ft_asset_ids
      | None \<Rightarrow> False)"

definition check_transaction_postconditions :: "transaction_post_condition list
    \<Rightarrow> transaction_post_condition_mode \<Rightarrow> principal_data \<Rightarrow> asset_map \<Rightarrow> (unit, bool) result" where
  "check_transaction_postconditions post_conditions post_condition_mode origin am =
     (let allow_unchecked_assets = (post_condition_mode = ModeAllow) in
      and_then (check_conditions origin am post_conditions ([], [])) (\<lambda>r.
      case r of
        None \<Rightarrow> Ok False
      | Some (checked_fungible_assets, checked_nonfungible_assets) \<Rightarrow>
          if \<not> allow_unchecked_assets then
            Ok (list_all (\<lambda>(prin, assets). list_all (\<lambda>(asset_identifier, asset_entry).
              entry_checked checked_fungible_assets checked_nonfungible_assets prin asset_identifier asset_entry)
              assets) (to_table am))
          else Ok True))"

section \<open>Specification\<close>

text \<open>
  What a condition says of a sequence of transfers: the STX condition bounds what was sent and
  burned together, the other two the transfers of their asset.
\<close>

fun compare_sent :: "fungible_condition_code \<Rightarrow> nat \<Rightarrow> nat \<Rightarrow> bool" where
  "compare_sent SentEq bound sent = (sent = bound)"
| "compare_sent SentGt bound sent = (sent > bound)"
| "compare_sent SentGe bound sent = (sent \<ge> bound)"
| "compare_sent SentLt bound sent = (sent < bound)"
| "compare_sent SentLe bound sent = (sent \<le> bound)"

abbreviation zero_if_none :: "nat option \<Rightarrow> nat" where
  "zero_if_none x \<equiv> (case x of Some n \<Rightarrow> n | None \<Rightarrow> 0)"

fun condition_holds :: "principal_data \<Rightarrow> transfer list \<Rightarrow> transaction_post_condition \<Rightarrow> bool" where
  "condition_holds origin log (CondSTX prin code bound) \<longleftrightarrow>
     compare_sent code (unat bound) (zero_if_none (stx_sent log (to_principal_data prin origin))
       + zero_if_none (stx_burned log (to_principal_data prin origin)))"
| "condition_holds origin log (CondFungible prin info code bound) \<longleftrightarrow>
     compare_sent code (unat bound) (zero_if_none (tokens_sent log (to_principal_data prin origin) (asset_id_of info)))"
| "condition_holds origin log (CondNonfungible prin info v code) \<longleftrightarrow>
     (v \<in> set (assets_sent log (to_principal_data prin origin) (asset_id_of info)) \<longleftrightarrow> code = NFTSent)"

text \<open>The conditions that speak about a transfer.\<close>

fun speaks_about :: "principal_data \<Rightarrow> transfer \<Rightarrow> transaction_post_condition \<Rightarrow> bool" where
  "speaks_about origin (SentStx p n) (CondSTX prin code bound) \<longleftrightarrow> to_principal_data prin origin = p"
| "speaks_about origin (BurnedStx p n) (CondSTX prin code bound) \<longleftrightarrow> to_principal_data prin origin = p"
| "speaks_about origin (SentToken p a n) (CondFungible prin info code bound) \<longleftrightarrow>
     to_principal_data prin origin = p \<and> asset_id_of info = a"
| "speaks_about origin (SentAsset p a v) (CondNonfungible prin info w code) \<longleftrightarrow>
     to_principal_data prin origin = p \<and> asset_id_of info = a \<and> w = v"
| "speaks_about origin t c \<longleftrightarrow> False"

text \<open>
  Transfers as the virtual machine records them: amounts are positive, an identifier is that of
  a fungible or of a non-fungible asset but not of both, no contract asset has one of the two
  reserved identifiers of STX, and no condition names one. What a principal sends and burns
  together is below the STX supply, which fits \<open>u128\<close>.
\<close>

fun transfer_ok :: "(asset_identifier \<Rightarrow> bool) \<Rightarrow> transfer \<Rightarrow> bool" where
  "transfer_ok fungible (SentStx p n) \<longleftrightarrow> 0 < n"
| "transfer_ok fungible (BurnedStx p n) \<longleftrightarrow> 0 < n"
| "transfer_ok fungible (SentToken p a n) \<longleftrightarrow> fungible a \<and> a \<noteq> asset_STX \<and> a \<noteq> asset_STX_burned"
| "transfer_ok fungible (SentAsset p a v) \<longleftrightarrow> \<not> fungible a \<and> a \<noteq> asset_STX \<and> a \<noteq> asset_STX_burned"

fun condition_ok :: "transaction_post_condition \<Rightarrow> bool" where
  "condition_ok (CondFungible prin info code bound) \<longleftrightarrow>
     asset_id_of info \<noteq> asset_STX \<and> asset_id_of info \<noteq> asset_STX_burned"
| "condition_ok c \<longleftrightarrow> True"

definition stx_in_supply :: "transfer list \<Rightarrow> bool" where
  "stx_in_supply log \<longleftrightarrow> (\<forall>p. zero_if_none (stx_sent log p) + zero_if_none (stx_burned log p) < 2 ^ 128)"

section \<open>The conditions\<close>

lemma fungible_check_compare: "fungible_check code (ucast (b :: u64)) s = compare_sent code (unat b) (unat s)"
proof -
  have "unat (ucast b :: u128) = unat b"
    using unat_bounds(4) [of b] by (simp add: unsigned_ucast_eq take_bit_eq_mod)
  then show ?thesis
    by (cases code) (auto simp: word_less_nat_alt word_le_nat_alt word_unat_eq_iff)
qed

lemma was_sent_iff: "was_sent v vs \<longleftrightarrow> v \<in> set vs"
  by (induction vs) auto

lemma unat_unwrap: "unat (unwrap_or_zero x) = zero_if_none (map_option unat x)"
  by (cases x) auto

lemma list_unwrap: "(case (if vs = [] then None else Some vs) of Some ws \<Rightarrow> ws | None \<Rightarrow> []) = vs"
  by simp

definition fungible_ids :: "checked_fungible \<Rightarrow> principal_data \<Rightarrow> asset_identifier set" where
  "fungible_ids cf p = (case map_of cf p of Some ids \<Rightarrow> ids | None \<Rightarrow> {})"

definition nonfungible_values :: "checked_nonfungible \<Rightarrow> principal_data \<Rightarrow> asset_identifier \<Rightarrow> clarity_value set" where
  "nonfungible_values cn p a = (case nested_get cn p a of Some vs \<Rightarrow> vs | None \<Rightarrow> {})"

text \<open>The entries of the checked sets that a condition adds.\<close>

fun covers_fungible :: "principal_data \<Rightarrow> asset_map \<Rightarrow> principal_data \<Rightarrow> asset_identifier
    \<Rightarrow> transaction_post_condition \<Rightarrow> bool" where
  "covers_fungible origin am p a (CondSTX prin code bound) \<longleftrightarrow> to_principal_data prin origin = p
     \<and> (a = asset_STX \<and> 0 < unwrap_or_zero (get_stx am p)
        \<or> a = asset_STX_burned \<and> 0 < unwrap_or_zero (get_stx_burned am p))"
| "covers_fungible origin am p a (CondFungible prin info code bound) \<longleftrightarrow>
     to_principal_data prin origin = p \<and> asset_id_of info = a"
| "covers_fungible origin am p a c \<longleftrightarrow> False"

fun covers_nonfungible :: "principal_data \<Rightarrow> principal_data \<Rightarrow> asset_identifier \<Rightarrow> clarity_value
    \<Rightarrow> transaction_post_condition \<Rightarrow> bool" where
  "covers_nonfungible origin p a v (CondNonfungible prin info w code) \<longleftrightarrow>
     to_principal_data prin origin = p \<and> asset_id_of info = a \<and> w = v"
| "covers_nonfungible origin p a v c \<longleftrightarrow> False"

definition adds_checks :: "principal_data \<Rightarrow> asset_map \<Rightarrow> transaction_post_condition set
    \<Rightarrow> checked_fungible \<times> checked_nonfungible \<Rightarrow> checked_fungible \<times> checked_nonfungible \<Rightarrow> bool" where
  "adds_checks origin am cs st st' \<longleftrightarrow>
     (\<forall>p a. a \<in> fungible_ids (fst st') p \<longleftrightarrow>
        a \<in> fungible_ids (fst st) p \<or> (\<exists>c \<in> cs. covers_fungible origin am p a c))
     \<and> (\<forall>p a v. v \<in> nonfungible_values (snd st') p a \<longleftrightarrow>
        v \<in> nonfungible_values (snd st) p a \<or> (\<exists>c \<in> cs. covers_nonfungible origin p a v c))"

lemma check_condition_spec:
  assumes "tracks am log" "stx_in_supply log"
  shows "if condition_holds origin log c
    then \<exists>st'. check_condition origin am c st = Ok (Some st') \<and> adds_checks origin am {c} st st'
    else check_condition origin am c st = Ok None"
proof (cases c)
  case (CondSTX prin code bound)
  let ?p = "to_principal_data prin origin"
  obtain cf cn where st: "st = (cf, cn)" by (cases st)
  have t: "map_option unat (get_stx am ?p) = stx_sent log ?p"
    and b: "map_option unat (get_stx_burned am ?p) = stx_burned log ?p"
    using assms(1) by (simp_all add: tracks_def)
  have "unat (unwrap_or_zero (get_stx am ?p)) + unat (unwrap_or_zero (get_stx_burned am ?p)) < 2 ^ 128"
    using assms(2) by (simp add: unat_unwrap t b stx_in_supply_def)
  then obtain s where s: "checked_add (unwrap_or_zero (get_stx am ?p)) (unwrap_or_zero (get_stx_burned am ?p)) = Some s"
    by (simp add: checked_add_def)
  then have "unat s = zero_if_none (stx_sent log ?p) + zero_if_none (stx_burned log ?p)"
    unfolding checked_iff by (simp add: unat_unwrap t b)
  then have "condition_holds origin log c \<longleftrightarrow> fungible_check code (ucast bound) s"
    by (simp add: CondSTX fungible_check_compare)
  then show ?thesis
    using s by (auto simp: CondSTX st Let_def adds_checks_def fungible_ids_def update_conv' word_neq_0_conv
        split: option.splits)
next
  case (CondFungible prin info code bound)
  let ?p = "to_principal_data prin origin"
  obtain cf cn where st: "st = (cf, cn)" by (cases st)
  have "map_option unat (get_fungible_tokens am ?p (asset_id_of info)) = tokens_sent log ?p (asset_id_of info)"
    using assms(1) by (simp add: tracks_def)
  then have "condition_holds origin log c \<longleftrightarrow>
      fungible_check code (ucast bound) (unwrap_or_zero (get_fungible_tokens am ?p (asset_id_of info)))"
    by (simp add: CondFungible fungible_check_compare unat_unwrap)
  then show ?thesis
    by (auto simp: CondFungible st Let_def adds_checks_def fungible_ids_def update_conv' split: option.splits)
next
  case (CondNonfungible prin info v code)
  let ?p = "to_principal_data prin origin"
  obtain cf cn where st: "st = (cf, cn)" by (cases st)
  have "(case get_nonfungible_tokens am ?p (asset_id_of info) of Some vs \<Rightarrow> vs | None \<Rightarrow> []) =
      assets_sent log ?p (asset_id_of info)"
    using assms(1) by (simp add: tracks_def)
  then show ?thesis
    by (cases code) (auto simp: CondNonfungible st Let_def was_sent_iff adds_checks_def nonfungible_values_def
        split: option.splits)
qed

lemma check_conditions_spec:
  assumes "tracks am log" "stx_in_supply log"
  shows "if (\<forall>c \<in> set cs. condition_holds origin log c)
    then \<exists>st'. check_conditions origin am cs st = Ok (Some st') \<and> adds_checks origin am (set cs) st st'
    else check_conditions origin am cs st = Ok None"
proof (induction cs arbitrary: st)
  case Nil
  then show ?case by (simp add: adds_checks_def)
next
  case (Cons c cs)
  show ?case
  proof (cases "condition_holds origin log c")
    case True
    with check_condition_spec [OF assms, of origin c st] obtain st' where
      st': "check_condition origin am c st = Ok (Some st')" "adds_checks origin am {c} st st'" by auto
    with Cons.IH [of st'] show ?thesis
      by (auto simp: True adds_checks_def split: if_splits)
  next
    case False
    with check_condition_spec [OF assms, of origin c st] show ?thesis by simp
  qed
qed

section \<open>The coverage of the transfers\<close>

lemma entry_checked_iff:
  "entry_checked cf cn p a e = (case e of
     EntryAsset vs \<Rightarrow> nested_get cn p a \<noteq> None \<and> (\<forall>v \<in> set vs. v \<in> nonfungible_values cn p a)
   | _ \<Rightarrow> a \<in> fungible_ids cf p)"
  by (cases e) (auto simp: fungible_ids_def nonfungible_values_def nested_get_def list_all_iff split: option.splits)

lemma table_phase:
  assumes "asset_map_wf am"
  shows "list_all (\<lambda>(p, assets). list_all (\<lambda>(a, e). P p a e) assets) (to_table am) \<longleftrightarrow>
    (\<forall>p a e. table_entry am p a = Some e \<longrightarrow> P p a e)"
  unfolding to_table_entries [OF assms, symmetric] nested_get_iff [OF to_table_wf]
  by (auto simp: list_all_iff)

lemma sum_list_pos: "(n :: nat) \<in> set ns \<Longrightarrow> 0 < n \<Longrightarrow> 0 < sum_list ns"
  by (induction ns) auto

lemma map_filter_set: "y \<in> set (List.map_filter f xs) \<longleftrightarrow> (\<exists>x \<in> set xs. f x = Some y)"
  by (force simp: map_filter_def)

lemma total_of_Some: "(\<exists>n. total_of ns = Some n) \<longleftrightarrow> (\<exists>n. n \<in> set ns)"
  by (auto simp: total_of_def) (cases ns, auto)

lemma amounts_of_iff:
  "stx_amount_of p t = Some n \<longleftrightarrow> (\<exists>m. t = SentStx p m \<and> n = unat m)"
  "burn_amount_of p t = Some n \<longleftrightarrow> (\<exists>m. t = BurnedStx p m \<and> n = unat m)"
  "token_amount_of p a t = Some n \<longleftrightarrow> (\<exists>m. t = SentToken p a m \<and> n = unat m)"
  "asset_of p a t = Some v \<longleftrightarrow> t = SentAsset p a v"
  by (cases t; auto)+

lemma sent_iff:
  "(\<exists>n. stx_sent log p = Some n) \<longleftrightarrow> (\<exists>m. SentStx p m \<in> set log)"
  "(\<exists>n. stx_burned log p = Some n) \<longleftrightarrow> (\<exists>m. BurnedStx p m \<in> set log)"
  "(\<exists>n. tokens_sent log p a = Some n) \<longleftrightarrow> (\<exists>m. SentToken p a m \<in> set log)"
  "v \<in> set (assets_sent log p a) \<longleftrightarrow> SentAsset p a v \<in> set log"
  by (auto simp: stx_sent_def stx_burned_def tokens_sent_def assets_sent_def total_of_Some map_filter_set
      amounts_of_iff)

lemma sent_positive:
  assumes "\<forall>t \<in> set log. transfer_ok fungible t"
  shows "SentStx p m \<in> set log \<Longrightarrow> 0 < zero_if_none (stx_sent log p)"
    and "BurnedStx p m \<in> set log \<Longrightarrow> 0 < zero_if_none (stx_burned log p)"
proof -
  assume m: "SentStx p m \<in> set log"
  with assms have "0 < unat m" by (auto simp: unat_gt_0)
  moreover from m have "unat m \<in> set (List.map_filter (stx_amount_of p) log)"
    by (auto simp: map_filter_set amounts_of_iff)
  ultimately show "0 < zero_if_none (stx_sent log p)"
    by (auto simp: stx_sent_def total_of_def dest: sum_list_pos)
next
  assume m: "BurnedStx p m \<in> set log"
  with assms have "0 < unat m" by (auto simp: unat_gt_0)
  moreover from m have "unat m \<in> set (List.map_filter (burn_amount_of p) log)"
    by (auto simp: map_filter_set amounts_of_iff)
  ultimately show "0 < zero_if_none (stx_burned log p)"
    by (auto simp: stx_burned_def total_of_def dest: sum_list_pos)
qed

lemma tracked_entries:
  assumes "tracks am log" "\<forall>t \<in> set log. transfer_ok fungible t"
  shows "get_stx am p \<noteq> None \<longleftrightarrow> (\<exists>m. SentStx p m \<in> set log)"
    and "get_stx_burned am p \<noteq> None \<longleftrightarrow> (\<exists>m. BurnedStx p m \<in> set log)"
    and "get_fungible_tokens am p a \<noteq> None \<longleftrightarrow> (\<exists>m. SentToken p a m \<in> set log)"
    and "get_nonfungible_tokens am p a = Some vs \<longleftrightarrow> vs \<noteq> [] \<and> vs = assets_sent log p a"
    and "0 < unwrap_or_zero (get_stx am p) \<longleftrightarrow> (\<exists>m. SentStx p m \<in> set log)"
    and "0 < unwrap_or_zero (get_stx_burned am p) \<longleftrightarrow> (\<exists>m. BurnedStx p m \<in> set log)"
proof -
  have t: "map_option unat (get_stx am p) = stx_sent log p"
    and b: "map_option unat (get_stx_burned am p) = stx_burned log p"
    and f: "map_option unat (get_fungible_tokens am p a) = tokens_sent log p a"
    and n: "get_nonfungible_tokens am p a = (if assets_sent log p a = [] then None else Some (assets_sent log p a))"
    using assms(1) by (simp_all add: tracks_def)
  show s: "get_stx am p \<noteq> None \<longleftrightarrow> (\<exists>m. SentStx p m \<in> set log)"
    and u: "get_stx_burned am p \<noteq> None \<longleftrightarrow> (\<exists>m. BurnedStx p m \<in> set log)"
    and "get_fungible_tokens am p a \<noteq> None \<longleftrightarrow> (\<exists>m. SentToken p a m \<in> set log)"
    by (auto simp flip: sent_iff t b f)
  show "get_nonfungible_tokens am p a = Some vs \<longleftrightarrow> vs \<noteq> [] \<and> vs = assets_sent log p a"
    by (auto simp: n)
  show "0 < unwrap_or_zero (get_stx am p) \<longleftrightarrow> (\<exists>m. SentStx p m \<in> set log)"
    unfolding word_less_nat_alt unat_unwrap t
    using sent_positive(1) [OF assms(2), of p] sent_iff(1) [of log p] by (auto split: option.splits)
  show "0 < unwrap_or_zero (get_stx_burned am p) \<longleftrightarrow> (\<exists>m. BurnedStx p m \<in> set log)"
    unfolding word_less_nat_alt unat_unwrap b
    using sent_positive(2) [OF assms(2), of p] sent_iff(2) [of log p] by (auto split: option.splits)
qed

text \<open>The condition covers a transfer exactly if it speaks about it.\<close>

definition transfer_covered :: "principal_data \<Rightarrow> asset_map \<Rightarrow> transaction_post_condition set \<Rightarrow> transfer \<Rightarrow> bool" where
  "transfer_covered origin am cs t \<longleftrightarrow> (case t of
     SentStx p n \<Rightarrow> \<exists>c \<in> cs. covers_fungible origin am p asset_STX c
   | BurnedStx p n \<Rightarrow> \<exists>c \<in> cs. covers_fungible origin am p asset_STX_burned c
   | SentToken p a n \<Rightarrow> \<exists>c \<in> cs. covers_fungible origin am p a c
   | SentAsset p a v \<Rightarrow> \<exists>c \<in> cs. covers_nonfungible origin p a v c)"

lemma transfer_covered_iff:
  assumes "tracks am log" "\<forall>t \<in> set log. transfer_ok fungible t" "\<forall>c \<in> cs. condition_ok c" "t \<in> set log"
  shows "transfer_covered origin am cs t \<longleftrightarrow> (\<exists>c \<in> cs. speaks_about origin t c)"
proof -
  have "covers_fungible origin am p a c \<longleftrightarrow> speaks_about origin t c"
    if "(\<exists>n. t = SentStx p n) \<and> a = asset_STX \<or> (\<exists>n. t = BurnedStx p n) \<and> a = asset_STX_burned
      \<or> (\<exists>n. t = SentToken p a n)" "c \<in> cs" for p a c
  proof -
    have "condition_ok c" using assms(3) that(2) by blast
    then show ?thesis
      using that(1) assms(4) tracked_entries(5,6) [OF assms(1,2), of p] bspec [OF assms(2,4)] by (cases c) auto
  qed
  moreover have "covers_nonfungible origin p a v c \<longleftrightarrow> speaks_about origin (SentAsset p a v) c" for p a v c
    by (cases c) auto
  ultimately show ?thesis by (auto simp: transfer_covered_def split: transfer.splits)
qed

lemma table_covered:
  assumes "tracks am log" "\<forall>t \<in> set log. transfer_ok fungible t"
    and "adds_checks origin am cs ([], []) (cf, cn)"
  shows "(\<forall>p a e. table_entry am p a = Some e \<longrightarrow> entry_checked cf cn p a e) \<longleftrightarrow>
    (\<forall>t \<in> set log. transfer_covered origin am cs t)"
proof -
  have f: "a \<in> fungible_ids cf p \<longleftrightarrow> (\<exists>c \<in> cs. covers_fungible origin am p a c)"
    and n: "v \<in> nonfungible_values cn p a \<longleftrightarrow> (\<exists>c \<in> cs. covers_nonfungible origin p a v c)" for p a v
    using assms(3) by (simp_all add: adds_checks_def fungible_ids_def nonfungible_values_def)
  note tracked = tracked_entries [OF assms(1,2)]
  have no_assets: "get_nonfungible_tokens am p a = None" if "fungible a \<or> a = asset_STX \<or> a = asset_STX_burned" for p a
  proof -
    have "SentAsset p a v \<notin> set log" for v using bspec [OF assms(2), of "SentAsset p a v"] that by auto
    then have "assets_sent log p a = []" 
      using sent_iff(4) [of _ log p a] by (cases "assets_sent log p a") auto
    then show ?thesis using assms(1) by (simp add: tracks_def)
  qed
  show ?thesis
  proof (intro iffI ballI)
    assume all: "\<forall>p a e. table_entry am p a = Some e \<longrightarrow> entry_checked cf cn p a e"
    fix t assume t: "t \<in> set log"
    show "transfer_covered origin am cs t"
    proof (cases t)
      case (SentStx p k)
      with t tracked(1) [of p] obtain m where "get_stx am p = Some m" by auto
      then have "table_entry am p asset_STX = Some (EntrySTX m)" by (simp add: table_entry_def no_assets)
      with all have "entry_checked cf cn p asset_STX (EntrySTX m)" by blast
      then show ?thesis by (simp add: SentStx transfer_covered_def entry_checked_iff f)
    next
      case (BurnedStx p k)
      with t tracked(2) [of p] obtain m where "get_stx_burned am p = Some m" by auto
      then have "table_entry am p asset_STX_burned = Some (EntryBurn m)" by (simp add: table_entry_def no_assets)
      with all have "entry_checked cf cn p asset_STX_burned (EntryBurn m)" by blast
      then show ?thesis by (simp add: BurnedStx transfer_covered_def entry_checked_iff f)
    next
      case (SentToken p a k)
      with t tracked(3) [of p a] obtain m where "get_fungible_tokens am p a = Some m" by auto
      moreover from t assms(2) SentToken have "fungible a" "a \<noteq> asset_STX" "a \<noteq> asset_STX_burned" by auto
      ultimately have "table_entry am p a = Some (EntryToken m)" by (simp add: table_entry_def no_assets)
      with all have "entry_checked cf cn p a (EntryToken m)" by blast
      then show ?thesis by (simp add: SentToken transfer_covered_def entry_checked_iff f)
    next
      case (SentAsset p a v)
      with t have v: "v \<in> set (assets_sent log p a)" by (simp add: sent_iff)
      then have "get_nonfungible_tokens am p a = Some (assets_sent log p a)"
        using tracked(4) [of p a "assets_sent log p a"] by (cases "assets_sent log p a") simp_all
      then have "table_entry am p a = Some (EntryAsset (assets_sent log p a))" by (simp add: table_entry_def)
      with all have "entry_checked cf cn p a (EntryAsset (assets_sent log p a))" by blast
      with v show ?thesis by (simp add: SentAsset transfer_covered_def entry_checked_iff n)
    qed
  next
    assume all: "\<forall>t \<in> set log. transfer_covered origin am cs t"
    show "\<forall>p a e. table_entry am p a = Some e \<longrightarrow> entry_checked cf cn p a e"
    proof (intro allI impI)
      fix p a e assume e: "table_entry am p a = Some e"
      consider (asset) vs where "get_nonfungible_tokens am p a = Some vs" "e = EntryAsset vs"
        | (burn) m where "a = asset_STX_burned" "get_stx_burned am p = Some m" "e = EntryBurn m"
        | (stx) m where "a = asset_STX" "get_stx am p = Some m" "e = EntrySTX m"
        | (token) m where "get_fungible_tokens am p a = Some m" "e = EntryToken m"
        using e by (auto simp: table_entry_def split: option.splits if_splits)
      then show "entry_checked cf cn p a e"
      proof cases
        case asset
        then have vs: "vs \<noteq> []" "vs = assets_sent log p a" using tracked(4) [of p a vs] by blast+
        have covered: "v \<in> nonfungible_values cn p a" if "v \<in> set vs" for v
        proof -
          from that vs(2) have "SentAsset p a v \<in> set log" by (simp add: sent_iff)
          with all have "transfer_covered origin am cs (SentAsset p a v)" by blast
          then show ?thesis by (simp add: transfer_covered_def n)
        qed
        moreover from covered [of "hd vs"] vs(1) have "nested_get cn p a \<noteq> None"
          by (auto simp: nonfungible_values_def split: option.splits)
        ultimately show ?thesis by (simp add: asset entry_checked_iff)
      next
        case burn
        then obtain k where "BurnedStx p k \<in> set log" using tracked(2) [of p] by auto
        with all have "transfer_covered origin am cs (BurnedStx p k)" by blast
        then show ?thesis by (simp add: burn transfer_covered_def entry_checked_iff f)
      next
        case stx
        then obtain k where "SentStx p k \<in> set log" using tracked(1) [of p] by auto
        with all have "transfer_covered origin am cs (SentStx p k)" by blast
        then show ?thesis by (simp add: stx transfer_covered_def entry_checked_iff f)
      next
        case token
        then obtain k where "SentToken p a k \<in> set log" using tracked(3) [of p a] by auto
        with all have "transfer_covered origin am cs (SentToken p a k)" by blast
        then show ?thesis by (simp add: token transfer_covered_def entry_checked_iff f)
      qed
    qed
  qed
qed

text \<open>The author of a transaction accepts a sequence of transfers.\<close>

definition accepts :: "transaction_post_condition list \<Rightarrow> transaction_post_condition_mode \<Rightarrow> principal_data
    \<Rightarrow> transfer list \<Rightarrow> bool" where
  "accepts cs mode origin log \<longleftrightarrow> (\<forall>c \<in> set cs. condition_holds origin log c)
     \<and> (mode = ModeDeny \<longrightarrow> (\<forall>t \<in> set log. \<exists>c \<in> set cs. speaks_about origin t c))"

lemma check_decides:
  assumes "tracks am log" "stx_in_supply log" "\<forall>t \<in> set log. transfer_ok fungible t"
    and "\<forall>c \<in> set cs. condition_ok c"
  shows "check_transaction_postconditions cs mode origin am = Ok (accepts cs mode origin log)"
proof (cases "\<forall>c \<in> set cs. condition_holds origin log c")
  case True
  with check_conditions_spec [OF assms(1,2), of cs origin "([], [])"] obtain cf cn where
    st: "check_conditions origin am cs ([], []) = Ok (Some (cf, cn))"
      "adds_checks origin am (set cs) ([], []) (cf, cn)" by auto
  have "asset_map_wf am" using assms(1) by (simp add: tracks_def)
  then show ?thesis
    using True st(1) table_covered [OF assms(1,3) st(2)] transfer_covered_iff [OF assms(1,3,4)]
    by (cases mode) (simp_all add: check_transaction_postconditions_def table_phase accepts_def)
next
  case False
  with check_conditions_spec [OF assms(1,2), of cs origin "([], [])"] show ?thesis
    by (simp add: check_transaction_postconditions_def accepts_def)
qed

section \<open>Properties\<close>


definition sample_origin :: principal_data where
  "sample_origin = Standard (StandardPrincipalData 22 (replicate 20 7))"

definition sample_log :: "transfer list" where
  "sample_log = [SentStx sample_origin 100, BurnedStx sample_origin 5]"

lemma sample_totals:
  "stx_sent sample_log p = (if p = sample_origin then Some 100 else None)"
  "stx_burned sample_log p = (if p = sample_origin then Some 5 else None)"
  "tokens_sent sample_log p a = None"
  by (simp_all add: sample_log_def stx_sent_def stx_burned_def tokens_sent_def map_filter_simps total_of_def)

lemma sample_tracked: "\<exists>am. tracks am sample_log"
  by (rule recorded_if_fits) (auto simp: totals_fit_def sample_totals)


end
