(* ===== verification/Global_Context.thy ===== *)
theory Global_Context
  imports Asset_Maps Rollback Costs Events Values
begin

text \<open>
  The execution context of \<open>clarity/src/vm/contexts.rs\<close>: \<open>GlobalContext\<close> with its stacks of
  asset maps, event batches and read-only flags beside the transactional database, the logging
  and event-registration methods, and the ways in which the virtual machine opens and
  closes a context: \<open>execute\<close>, \<open>execute_function_as_transaction\<close> with \<open>handle_tx_result\<close>,
  \<open>run_as_transaction\<close> and \<open>execute_in_env\<close>. The four stacks are lists with the innermost
  context first. A method returns its result and the context it leaves; after a panic the
  context is that before the failing call. The coverage reporter is left out.
  Contract code is a tree of steps over these methods, and the main lemma shows that the
  stacks stay in step with one another: a call is atomic in all four at once.
\<close>

record ('s, 'ctx) global_context =
  gc_asset_maps :: "asset_map list"
  gc_event_batches :: "stacks_transaction_event list list"
  gc_database :: "'s rollback_wrapper"
  gc_read_only :: "bool list"
  gc_cost_track :: "'ctx limited_cost_tracker"
  gc_mainnet :: bool
  gc_epoch_id :: stacks_epoch_id

type_synonym ('s, 'ctx, 'a) gc_result = "'a interpreter_result \<times> ('s, 'ctx) global_context"

definition global_context_new :: "bool \<Rightarrow> 's rollback_wrapper \<Rightarrow> 'ctx limited_cost_tracker \<Rightarrow> stacks_epoch_id
    \<Rightarrow> ('s, 'ctx) global_context" where
  "global_context_new mainnet database cost_track epoch_id =
     \<lparr>gc_asset_maps = [], gc_event_batches = [], gc_database = database, gc_read_only = [],
      gc_cost_track = cost_track, gc_mainnet = mainnet, gc_epoch_id = epoch_id\<rparr>"

definition is_top_level :: "('s, 'ctx) global_context \<Rightarrow> bool" where
  "is_top_level g \<longleftrightarrow> length (gc_asset_maps g) = 0"

text \<open>A method of the innermost asset map; with no open context the caller panics.\<close>

definition get_asset_map :: "(asset_map \<Rightarrow> asset_map interpreter_result) \<Rightarrow> ('s, 'ctx) global_context
    \<Rightarrow> ('s, 'ctx, unit) gc_result" where
  "get_asset_map f g =
     (case gc_asset_maps g of
        [] \<Rightarrow> (Panic, g)
      | am # ams \<Rightarrow>
          (case f am of
             Ok am \<Rightarrow> (Ok (), g\<lparr>gc_asset_maps := am # ams\<rparr>)
           | Err e \<Rightarrow> (Err e, g)
           | Panic \<Rightarrow> (Panic, g)))"

definition log_asset_transfer :: "principal_data \<Rightarrow> qualified_contract_identifier \<Rightarrow> clarity_name \<Rightarrow> clarity_value
    \<Rightarrow> ('s, 'ctx) global_context \<Rightarrow> ('s, 'ctx, unit) gc_result" where
  "log_asset_transfer sender contract_identifier asset_name transfered =
     get_asset_map (\<lambda>am. Ok (add_asset_transfer sender
       \<lparr>ai_contract_identifier = contract_identifier, ai_asset_name = asset_name\<rparr> transfered am))"

definition log_token_transfer :: "principal_data \<Rightarrow> qualified_contract_identifier \<Rightarrow> clarity_name \<Rightarrow> u128
    \<Rightarrow> ('s, 'ctx) global_context \<Rightarrow> ('s, 'ctx, unit) gc_result" where
  "log_token_transfer sender contract_identifier asset_name transfered =
     get_asset_map (add_token_transfer sender
       \<lparr>ai_contract_identifier = contract_identifier, ai_asset_name = asset_name\<rparr> transfered)"

definition log_stx_transfer :: "principal_data \<Rightarrow> u128 \<Rightarrow> ('s, 'ctx) global_context \<Rightarrow> ('s, 'ctx, unit) gc_result" where
  "log_stx_transfer sender transfered = get_asset_map (add_stx_transfer sender transfered)"

definition log_stx_burn :: "principal_data \<Rightarrow> u128 \<Rightarrow> ('s, 'ctx) global_context \<Rightarrow> ('s, 'ctx, unit) gc_result" where
  "log_stx_burn sender transfered = get_asset_map (add_stx_burn sender transfered)"

definition is_read_only :: "('s, 'ctx) global_context \<Rightarrow> bool" where
  "is_read_only g = (case gc_read_only g of [] \<Rightarrow> False | r # _ \<Rightarrow> r)"

definition gc_begin :: "('s, 'ctx) global_context \<Rightarrow> ('s, 'ctx) global_context" where
  "gc_begin g = g\<lparr>gc_asset_maps := asset_map_new # gc_asset_maps g,
     gc_event_batches := [] # gc_event_batches g,
     gc_database := nest (gc_database g),
     gc_read_only := is_read_only g # gc_read_only g\<rparr>"

definition gc_begin_read_only :: "('s, 'ctx) global_context \<Rightarrow> ('s, 'ctx) global_context" where
  "gc_begin_read_only g = g\<lparr>gc_asset_maps := asset_map_new # gc_asset_maps g,
     gc_event_batches := [] # gc_event_batches g,
     gc_database := nest (gc_database g),
     gc_read_only := True # gc_read_only g\<rparr>"

text \<open>The database operation at the end of a commit or a rollback; it may panic.\<close>

definition on_database :: "('s rollback_wrapper \<Rightarrow> (unit, 's rollback_wrapper) result) \<Rightarrow> 'a interpreter_result
    \<Rightarrow> ('s, 'ctx) global_context \<Rightarrow> ('s, 'ctx, 'a) gc_result" where
  "on_database f r g =
     (case f (gc_database g) of Ok w \<Rightarrow> (r, g\<lparr>gc_database := w\<rparr>) | _ \<Rightarrow> (Panic, g))"

definition gc_commit :: "(qualified_contract_identifier \<Rightarrow> string) \<Rightarrow> 's backing_store \<Rightarrow> ('s, 'ctx) global_context
    \<Rightarrow> ('s, 'ctx, asset_map option \<times> stacks_transaction_event list option) gc_result" where
  "gc_commit to_string B g =
     (case (gc_asset_maps g, gc_event_batches g) of
        (asset_map # ams, event_batch # batches) \<Rightarrow>
          let g = g\<lparr>gc_read_only := tl (gc_read_only g), gc_asset_maps := ams, gc_event_batches := batches\<rparr> in
          (case (case ams of
                   tail_back # rest \<Rightarrow> map_ok (\<lambda>am. (None, am # rest)) (commit_other tail_back asset_map)
                 | [] \<Rightarrow> Ok (Some asset_map, [])) of
             Err e \<Rightarrow> on_database rollback (Err e) g
           | Panic \<Rightarrow> (Panic, g)
           | Ok (out_map, ams) \<Rightarrow>
               let (out_batch, batches) = (case batches of
                   tail_back # rest \<Rightarrow> (None, (tail_back @ event_batch) # rest)
                 | [] \<Rightarrow> (Some event_batch, []))
               in on_database (commit to_string B) (Ok (out_map, out_batch))
                    (g\<lparr>gc_asset_maps := ams, gc_event_batches := batches\<rparr>))
      | _ \<Rightarrow> (Panic, g))"

definition gc_roll_back :: "('s, 'ctx) global_context \<Rightarrow> ('s, 'ctx, unit) gc_result" where
  "gc_roll_back g =
     (case (gc_asset_maps g, gc_read_only g, gc_event_batches g) of
        (_ # ams, _ # ros, _ # batches) \<Rightarrow>
          on_database rollback (Ok ()) (g\<lparr>gc_asset_maps := ams, gc_read_only := ros, gc_event_batches := batches\<rparr>)
      | _ \<Rightarrow> (Panic, g))"

text \<open>Closing a context after an error: roll back and return the error.\<close>

definition roll_back_with :: "vm_error \<Rightarrow> ('s, 'ctx) global_context \<Rightarrow> ('s, 'ctx, 'a) gc_result" where
  "roll_back_with e g = (case gc_roll_back g of (Ok _, g) \<Rightarrow> (Err e, g) | (_, g) \<Rightarrow> (Panic, g))"

definition execute :: "(qualified_contract_identifier \<Rightarrow> string) \<Rightarrow> 's backing_store
    \<Rightarrow> (('s, 'ctx) global_context \<Rightarrow> ('s, 'ctx, 'a) gc_result) \<Rightarrow> ('s, 'ctx) global_context
    \<Rightarrow> ('s, 'ctx, 'a) gc_result" where
  "execute to_string B f g =
     (case f (gc_begin g) of
        (Ok x, g) \<Rightarrow>
          (case gc_commit to_string B g of
             (Ok _, g) \<Rightarrow> (Ok x, g) | (Err e, g) \<Rightarrow> (Err e, g) | (Panic, g) \<Rightarrow> (Panic, g))
      | (Err e, g) \<Rightarrow> roll_back_with e g
      | (Panic, g) \<Rightarrow> (Panic, g))"

definition handle_tx_result :: "(qualified_contract_identifier \<Rightarrow> string) \<Rightarrow> 's backing_store
    \<Rightarrow> clarity_value interpreter_result \<Rightarrow> ('s, 'ctx) global_context
    \<Rightarrow> ('s, 'ctx, clarity_value) gc_result" where
  "handle_tx_result to_string B r g =
     (case r of
        Ok v \<Rightarrow>
          (case v of
             VResponse committed data \<Rightarrow>
               if committed then
                 (case gc_commit to_string B g of
                    (Ok _, g) \<Rightarrow> (Ok v, g) | (Err e, g) \<Rightarrow> (Err e, g) | (Panic, g) \<Rightarrow> (Panic, g))
               else (case gc_roll_back g of (Ok _, g) \<Rightarrow> (Ok v, g) | (_, g) \<Rightarrow> (Panic, g))
           | _ \<Rightarrow>
               (and_then (expect (type_of v)) (\<lambda>t. Err (Unchecked (PublicFunctionMustReturnResponse t))), g))
      | Err e \<Rightarrow> roll_back_with e g
      | Panic \<Rightarrow> (Panic, g))"

definition gc_destruct :: "('s, 'ctx) global_context \<Rightarrow> ('s rollback_wrapper \<times> 'ctx limited_cost_tracker) option" where
  "gc_destruct g = (if is_top_level g then Some (gc_database g, gc_cost_track g) else None)"

section \<open>Events\<close>

text \<open>An event is pushed on the innermost batch; with no batch it is dropped.\<close>

definition push_event :: "stacks_transaction_event \<Rightarrow> ('s, 'ctx) global_context \<Rightarrow> ('s, 'ctx, unit) gc_result" where
  "push_event e g = (Ok (), case gc_event_batches g of
     batch # batches \<Rightarrow> g\<lparr>gc_event_batches := (batch @ [e]) # batches\<rparr> | [] \<Rightarrow> g)"

definition register_print_event :: "qualified_contract_identifier \<Rightarrow> clarity_value
    \<Rightarrow> ('s, 'ctx) global_context \<Rightarrow> ('s, 'ctx, unit) gc_result" where
  "register_print_event contract_identifier v =
     push_event (SmartContractEvent \<lparr>sce_key = (contract_identifier, ''print''), sce_value = v\<rparr>)"

definition register_stx_transfer_event :: "principal_data \<Rightarrow> principal_data \<Rightarrow> u128
    \<Rightarrow> ('s, 'ctx) global_context \<Rightarrow> ('s, 'ctx, unit) gc_result" where
  "register_stx_transfer_event sender recipient amount =
     push_event (STXEvent (STXTransferEvent
       \<lparr>stxt_sender = sender, stxt_recipient = recipient, stxt_amount = amount\<rparr>))"

definition register_stx_burn_event :: "principal_data \<Rightarrow> u128
    \<Rightarrow> ('s, 'ctx) global_context \<Rightarrow> ('s, 'ctx, unit) gc_result" where
  "register_stx_burn_event sender amount =
     push_event (STXEvent (STXBurnEvent \<lparr>stxb_sender = sender, stxb_amount = amount\<rparr>))"

definition register_stx_withdraw_event :: "principal_data \<Rightarrow> u128
    \<Rightarrow> ('s, 'ctx) global_context \<Rightarrow> ('s, 'ctx, unit) gc_result" where
  "register_stx_withdraw_event sender amount =
     push_event (STXEvent (STXWithdrawEvent
       \<lparr>stxw_sender = sender, stxw_amount = amount, stxw_withdrawal_id = None\<rparr>))"

definition register_nft_transfer_event :: "principal_data \<Rightarrow> principal_data \<Rightarrow> clarity_value \<Rightarrow> asset_identifier
    \<Rightarrow> ('s, 'ctx) global_context \<Rightarrow> ('s, 'ctx, unit) gc_result" where
  "register_nft_transfer_event sender recipient v asset_identifier =
     push_event (NFTEvent (NFTTransferEvent
       \<lparr>nftt_asset_identifier = asset_identifier, nftt_sender = sender, nftt_recipient = recipient, nftt_value = v\<rparr>))"

definition register_nft_mint_event :: "principal_data \<Rightarrow> clarity_value \<Rightarrow> asset_identifier
    \<Rightarrow> ('s, 'ctx) global_context \<Rightarrow> ('s, 'ctx, unit) gc_result" where
  "register_nft_mint_event recipient v asset_identifier =
     push_event (NFTEvent (NFTMintEvent
       \<lparr>nftm_asset_identifier = asset_identifier, nftm_recipient = recipient, nftm_value = v\<rparr>))"

definition register_nft_burn_event :: "principal_data \<Rightarrow> clarity_value \<Rightarrow> asset_identifier
    \<Rightarrow> ('s, 'ctx) global_context \<Rightarrow> ('s, 'ctx, unit) gc_result" where
  "register_nft_burn_event sender v asset_identifier =
     push_event (NFTEvent (NFTBurnEvent
       \<lparr>nftb_asset_identifier = asset_identifier, nftb_sender = sender, nftb_value = v\<rparr>))"

definition register_nft_withdraw_event :: "principal_data \<Rightarrow> u128 \<Rightarrow> asset_identifier
    \<Rightarrow> ('s, 'ctx) global_context \<Rightarrow> ('s, 'ctx, unit) gc_result" where
  "register_nft_withdraw_event sender nft_id asset_identifier =
     push_event (NFTEvent (NFTWithdrawEvent
       \<lparr>nftw_asset_identifier = asset_identifier, nftw_sender = sender, nftw_id = nft_id, nftw_withdrawal_id = None\<rparr>))"

definition register_ft_transfer_event :: "principal_data \<Rightarrow> principal_data \<Rightarrow> u128 \<Rightarrow> asset_identifier
    \<Rightarrow> ('s, 'ctx) global_context \<Rightarrow> ('s, 'ctx, unit) gc_result" where
  "register_ft_transfer_event sender recipient amount asset_identifier =
     push_event (FTEvent (FTTransferEvent
       \<lparr>ftt_asset_identifier = asset_identifier, ftt_sender = sender, ftt_recipient = recipient, ftt_amount = amount\<rparr>))"

definition register_ft_mint_event :: "principal_data \<Rightarrow> u128 \<Rightarrow> asset_identifier
    \<Rightarrow> ('s, 'ctx) global_context \<Rightarrow> ('s, 'ctx, unit) gc_result" where
  "register_ft_mint_event recipient amount asset_identifier =
     push_event (FTEvent (FTMintEvent
       \<lparr>ftm_asset_identifier = asset_identifier, ftm_recipient = recipient, ftm_amount = amount\<rparr>))"

definition register_ft_burn_event :: "principal_data \<Rightarrow> u128 \<Rightarrow> asset_identifier
    \<Rightarrow> ('s, 'ctx) global_context \<Rightarrow> ('s, 'ctx, unit) gc_result" where
  "register_ft_burn_event sender amount asset_identifier =
     push_event (FTEvent (FTBurnEvent
       \<lparr>ftb_asset_identifier = asset_identifier, ftb_sender = sender, ftb_amount = amount\<rparr>))"

definition register_ft_withdraw_event :: "principal_data \<Rightarrow> u128 \<Rightarrow> asset_identifier
    \<Rightarrow> ('s, 'ctx) global_context \<Rightarrow> ('s, 'ctx, unit) gc_result" where
  "register_ft_withdraw_event sender amount asset_identifier =
     push_event (FTEvent (FTWithdrawEvent
       \<lparr>ftw_asset_identifier = asset_identifier, ftw_sender = sender, ftw_amount = amount, ftw_withdrawal_id = None\<rparr>))"

section \<open>Running code in a context\<close>

text \<open>
  The body of a function is a parameter of the three entry points, as it is in the code
  (a closure, or the interpreter on a function's expression).
\<close>

definition execute_function_as_transaction :: "(qualified_contract_identifier \<Rightarrow> string) \<Rightarrow> 's backing_store \<Rightarrow> bool
    \<Rightarrow> (('s, 'ctx) global_context \<Rightarrow> ('s, 'ctx, clarity_value) gc_result) \<Rightarrow> ('s, 'ctx) global_context
    \<Rightarrow> ('s, 'ctx, clarity_value) gc_result" where
  "execute_function_as_transaction to_string B make_read_only execute_apply g =
     (let g = (if make_read_only then gc_begin_read_only g else gc_begin g);
          (r, g) = execute_apply g
      in if r = Panic then (Panic, g)
         else if make_read_only then
           (case gc_roll_back g of (Ok _, g) \<Rightarrow> (r, g) | (_, g) \<Rightarrow> (Panic, g))
         else handle_tx_result to_string B r g)"

definition run_as_transaction :: "(qualified_contract_identifier \<Rightarrow> string) \<Rightarrow> 's backing_store
    \<Rightarrow> (('s, 'ctx) global_context \<Rightarrow> ('s, 'ctx, 'a) gc_result) \<Rightarrow> ('s, 'ctx) global_context
    \<Rightarrow> ('s, 'ctx, 'a) gc_result" where
  "run_as_transaction to_string B f g =
     (case f (gc_begin g) of
        (Ok ret, g) \<Rightarrow>
          (case gc_commit to_string B g of
             (Ok _, g) \<Rightarrow> (Ok ret, g) | (Err e, g) \<Rightarrow> (Err e, g) | (Panic, g) \<Rightarrow> (Panic, g))
      | (Err e, g) \<Rightarrow> roll_back_with e g
      | (Panic, g) \<Rightarrow> (Panic, g))"

text \<open>Committing the outermost context yields the asset map and the events of the transaction.\<close>

definition env_commit :: "(qualified_contract_identifier \<Rightarrow> string) \<Rightarrow> 's backing_store \<Rightarrow> ('s, 'ctx) global_context
    \<Rightarrow> ('s, 'ctx, asset_map \<times> stacks_transaction_event list) gc_result" where
  "env_commit to_string B g =
     (case gc_commit to_string B g of
        (r, g) \<Rightarrow> (and_then r (\<lambda>(asset_map, event_batch).
          and_then (ok_or asset_map (Interpreter IE_FailedToConstructAssetTable)) (\<lambda>asset_map.
          and_then (ok_or event_batch (Interpreter IE_FailedToConstructEventBatch)) (\<lambda>event_batch.
          Ok (asset_map, event_batch)))), g))"

definition execute_in_env :: "(qualified_contract_identifier \<Rightarrow> string) \<Rightarrow> 's backing_store
    \<Rightarrow> (('s, 'ctx) global_context \<Rightarrow> ('s, 'ctx, 'a) gc_result) \<Rightarrow> ('s, 'ctx) global_context
    \<Rightarrow> ('s, 'ctx, 'a \<times> asset_map \<times> stacks_transaction_event list) gc_result" where
  "execute_in_env to_string B f g =
     (if \<not> is_top_level g then (Panic, g)
      else (case f (gc_begin g) of
          (Ok return_value, g) \<Rightarrow>
            (case env_commit to_string B g of
               (r, g) \<Rightarrow> (map_ok (\<lambda>(asset_map, events). (return_value, asset_map, events)) r, g))
        | (Err e, g) \<Rightarrow> roll_back_with e g
        | (Panic, g) \<Rightarrow> (Panic, g)))"

section \<open>Code as a tree of steps\<close>

text \<open>
  What contract code does to its context: database writes, recorded transfers, events, runtime
  errors, calls of functions with the value they return, and nested transactions.
\<close>

datatype vm_step =
    StepPut string string
  | StepTransfer transfer
  | StepEvent stacks_transaction_event
  | StepFail vm_error
  | StepCall bool "vm_step list" clarity_value
  | StepTransaction "vm_step list"

fun log_transfer :: "transfer \<Rightarrow> ('s, 'ctx) global_context \<Rightarrow> ('s, 'ctx, unit) gc_result" where
  "log_transfer (SentStx p n) g = log_stx_transfer p n g"
| "log_transfer (BurnedStx p n) g = log_stx_burn p n g"
| "log_transfer (SentToken p a n) g = log_token_transfer p (ai_contract_identifier a) (ai_asset_name a) n g"
| "log_transfer (SentAsset p a v) g = log_asset_transfer p (ai_contract_identifier a) (ai_asset_name a) v g"

fun run_step :: "(qualified_contract_identifier \<Rightarrow> string) \<Rightarrow> 's backing_store \<Rightarrow> vm_step
    \<Rightarrow> ('s, 'ctx) global_context \<Rightarrow> ('s, 'ctx, unit) gc_result"
and run_steps :: "(qualified_contract_identifier \<Rightarrow> string) \<Rightarrow> 's backing_store \<Rightarrow> vm_step list
    \<Rightarrow> ('s, 'ctx) global_context \<Rightarrow> ('s, 'ctx, unit) gc_result" where
  "run_step ts B (StepPut k v) g = on_database (\<lambda>w. put w k v) (Ok ()) g"
| "run_step ts B (StepTransfer t) g = log_transfer t g"
| "run_step ts B (StepEvent e) g = push_event e g"
| "run_step ts B (StepFail e) g = (Err e, g)"
| "run_step ts B (StepCall ro body v) g =
     apfst (map_ok (\<lambda>_. ())) (execute_function_as_transaction ts B ro
       (\<lambda>g. apfst (map_ok (\<lambda>_. v)) (run_steps ts B body g)) g)"
| "run_step ts B (StepTransaction body) g = run_as_transaction ts B (run_steps ts B body) g"
| "run_steps ts B [] g = (Ok (), g)"
| "run_steps ts B (st # sts) g =
     (case run_step ts B st g of
        (Ok _, g) \<Rightarrow> run_steps ts B sts g
      | (Err e, g) \<Rightarrow> (Err e, g)
      | (Panic, g) \<Rightarrow> (Panic, g))"

section \<open>Specification: a stack of worlds\<close>

text \<open>
  What a context can see and has done: the database, the transfers and the events since it was
  opened. A call runs in a world of its own, which is joined to the enclosing one or dropped.
\<close>

record world =
  w_view :: "string \<rightharpoonup> string"
  w_log :: "transfer list"
  w_events :: "stacks_transaction_event list"

definition open_world :: "(string \<rightharpoonup> string) \<Rightarrow> world" where
  "open_world view = \<lparr>w_view = view, w_log = [], w_events = []\<rparr>"

definition join :: "world \<Rightarrow> world \<Rightarrow> (vm_error, world) result" where
  "join w w' = (if totals_fit (w_log w @ w_log w')
     then Ok \<lparr>w_view = w_view w', w_log = w_log w @ w_log w', w_events = w_events w @ w_events w'\<rparr>
     else Err (Runtime RT_ArithmeticOverflow None))"

fun spec_step :: "vm_step \<Rightarrow> world \<Rightarrow> (vm_error, world) result"
and spec_steps :: "vm_step list \<Rightarrow> world \<Rightarrow> (vm_error, world) result" where
  "spec_step (StepPut k v) w = Ok (w\<lparr>w_view := (w_view w)(k \<mapsto> v)\<rparr>)"
| "spec_step (StepTransfer t) w =
     (if totals_fit (w_log w @ [t]) then Ok (w\<lparr>w_log := w_log w @ [t]\<rparr>)
      else Err (Runtime RT_ArithmeticOverflow None))"
| "spec_step (StepEvent e) w = Ok (w\<lparr>w_events := w_events w @ [e]\<rparr>)"
| "spec_step (StepFail e) w = Err e"
| "spec_step (StepCall ro body v) w =
     and_then (spec_steps body (open_world (w_view w))) (\<lambda>w'.
       if ro then Ok w
       else (case v of VResponse committed _ \<Rightarrow> if committed then join w w' else Ok w | _ \<Rightarrow> Panic))"
| "spec_step (StepTransaction body) w = and_then (spec_steps body (open_world (w_view w))) (join w)"
| "spec_steps [] w = Ok w"
| "spec_steps (st # sts) w = and_then (spec_step st w) (spec_steps sts)"

text \<open>Public functions return responses, which the type checker enforces.\<close>

fun returns_response :: "vm_step \<Rightarrow> bool" where
  "returns_response (StepCall ro body v) \<longleftrightarrow>
     list_all returns_response body \<and> (ro \<or> (case v of VResponse _ _ \<Rightarrow> True | _ \<Rightarrow> False))"
| "returns_response (StepTransaction body) \<longleftrightarrow> list_all returns_response body"
| "returns_response _ \<longleftrightarrow> True"

text \<open>
  The context and its worlds, innermost first, over the views \<open>vs\<close> of the database contexts that
  were open before.
\<close>

definition gc_rel :: "(qualified_contract_identifier \<Rightarrow> string) \<Rightarrow> ('s \<Rightarrow> string \<rightharpoonup> string)
    \<Rightarrow> ('s \<Rightarrow> (block_id \<times> string) \<rightharpoonup> string) \<Rightarrow> ('s \<Rightarrow> block_id) \<Rightarrow> ('s, 'ctx) global_context
    \<Rightarrow> world list \<Rightarrow> (string \<rightharpoonup> string) list \<Rightarrow> bool" where
  "gc_rel ts reads rows tip g ws vs \<longleftrightarrow>
     rb_rel ts reads rows tip (gc_database g) (map w_view ws @ vs) \<and> vs \<noteq> []
     \<and> list_all2 tracks (gc_asset_maps g) (map w_log ws)
     \<and> gc_event_batches g = map w_events ws \<and> length (gc_read_only g) = length ws"

lemma asset_identifier_eta [simp]:
  "\<lparr>ai_contract_identifier = ai_contract_identifier a, ai_asset_name = ai_asset_name a\<rparr> = (a :: asset_identifier)"
  by simp

lemma log_transfer_record: "log_transfer t g = get_asset_map (record_transfer t) g"
  by (cases t) (simp_all add: log_stx_transfer_def log_stx_burn_def log_token_transfer_def log_asset_transfer_def
      get_asset_map_def split: list.splits)

context clarity_store
begin

abbreviation grel :: "(qualified_contract_identifier \<Rightarrow> string) \<Rightarrow> ('s, 'ctx) global_context
    \<Rightarrow> world list \<Rightarrow> (string \<rightharpoonup> string) list \<Rightarrow> bool" where
  "grel ts \<equiv> gc_rel ts reads rows tip"

lemma begin_rel:
  assumes "grel ts g ws vs"
  shows "grel ts (gc_begin g) (open_world (hd (map w_view ws @ vs)) # ws) vs"
    and "grel ts (gc_begin_read_only g) (open_world (hd (map w_view ws @ vs)) # ws) vs"
proof -
  have "rb_rel ts reads rows tip (gc_database g) (hd (map w_view ws @ vs) # tl (map w_view ws @ vs))"
    using assms by (cases ws) (auto simp: gc_rel_def)
  from rel_nest [OF this] assms
  show "grel ts (gc_begin g) (open_world (hd (map w_view ws @ vs)) # ws) vs"
    and "grel ts (gc_begin_read_only g) (open_world (hd (map w_view ws @ vs)) # ws) vs"
    by (auto simp: gc_rel_def gc_begin_def gc_begin_read_only_def open_world_def tracks_new)
qed

lemma two_views:
  assumes "grel ts g (w # ws) vs"
  obtains u us where "map w_view ws @ vs = u # us"
  using assms by (cases "map w_view ws @ vs") (auto simp: gc_rel_def)

lemma roll_back_rel:
  assumes "grel ts g (w # ws) vs"
  shows "\<exists>g'. gc_roll_back g = (Ok (), g') \<and> grel ts g' ws vs"
proof -
  obtain u us where u: "map w_view ws @ vs = u # us" using two_views [OF assms] .
  with assms have "rb_rel ts reads rows tip (gc_database g) (w_view w # u # us)" by (simp add: gc_rel_def)
  from rel_rollback [OF this] obtain db where "rollback (gc_database g) = Ok db"
    "rb_rel ts reads rows tip db (u # us)" by blast
  moreover obtain am ams r rs where "gc_asset_maps g = am # ams" "gc_read_only g = r # rs"
    "list_all2 tracks ams (map w_log ws)" "length rs = length ws"
    using assms by (auto simp: gc_rel_def list_all2_Cons2 length_Suc_conv)
  ultimately show ?thesis
    using assms u by (auto simp: gc_rel_def gc_roll_back_def on_database_def)
qed

lemma roll_back_with_rel:
  assumes "grel ts g (w # ws) vs"
  shows "\<exists>g'. roll_back_with e g = (Err e, g') \<and> grel ts g' ws vs"
  using roll_back_rel [OF assms] by (auto simp: roll_back_with_def)

lemma commit_rel:
  assumes "grel ts g (w # u # ws) vs"
  shows "case join u w of
      Ok w' \<Rightarrow> \<exists>g'. gc_commit ts B g = (Ok (None, None), g') \<and> grel ts g' (w' # ws) vs
    | Err e \<Rightarrow> \<exists>g'. gc_commit ts B g = (Err e, g') \<and> grel ts g' (u # ws) vs
    | Panic \<Rightarrow> False"
proof -
  from assms have rel: "rb_rel ts reads rows tip (gc_database g) (w_view w # w_view u # map w_view ws @ vs)"
    by (simp add: gc_rel_def)
  obtain am am' ams r rs where maps: "gc_asset_maps g = am # am' # ams" "gc_read_only g = r # rs"
    "tracks am (w_log w)" "tracks am' (w_log u)" "list_all2 tracks ams (map w_log ws)" "length rs = Suc (length ws)"
    using assms by (auto simp: gc_rel_def list_all2_Cons2 length_Suc_conv)
  from rel_rollback [OF rel] rel_commit [OF rel] obtain db db' where
    db: "rollback (gc_database g) = Ok db" "rb_rel ts reads rows tip db (w_view u # map w_view ws @ vs)"
      "commit ts B (gc_database g) = Ok db'" "rb_rel ts reads rows tip db' (w_view w # map w_view ws @ vs)" by blast
  have events: "gc_event_batches g = w_events w # w_events u # map w_events ws" "vs \<noteq> []"
    using assms by (simp_all add: gc_rel_def)
  note commit = commit_other_tracks [OF maps(4,3)]
  show ?thesis
  proof (cases "commit_other am' am")
    case (Ok am2)
    then have "tracks am2 (w_log u @ w_log w)" using commit by simp
    with tracks_fit [OF this] Ok maps db events show ?thesis
      by (simp add: join_def gc_commit_def on_database_def gc_rel_def)
  next
    case (Err e)
    then have "e = Runtime RT_ArithmeticOverflow None" "\<not> totals_fit (w_log u @ w_log w)" using commit by simp_all
    with Err maps db events show ?thesis
      by (simp add: join_def gc_commit_def on_database_def gc_rel_def)
  next
    case Panic
    with commit show ?thesis by simp
  qed
qed

lemma commit_outer_rel:
  assumes "grel ts g [w] (v # vs)"
  shows "\<exists>am g'. gc_commit ts B g = (Ok (Some am, Some (w_events w)), g') \<and> tracks am (w_log w)
    \<and> grel ts g' [] (w_view w # vs)"
proof -
  from assms have rel: "rb_rel ts reads rows tip (gc_database g) (w_view w # v # vs)" by (simp add: gc_rel_def)
  from rel_commit [OF rel] obtain db where
    "commit ts B (gc_database g) = Ok db" "rb_rel ts reads rows tip db (w_view w # vs)" by blast
  with assms show ?thesis
    by (auto simp: gc_rel_def gc_commit_def on_database_def list_all2_Cons2 length_Suc_conv)
qed


text \<open>The simulation: code runs in the innermost context as specified on its world.\<close>

definition follows :: "(qualified_contract_identifier \<Rightarrow> string) \<Rightarrow> ('s, 'ctx, unit) gc_result
    \<Rightarrow> (vm_error, world) result \<Rightarrow> world list \<Rightarrow> (string \<rightharpoonup> string) list \<Rightarrow> bool" where
  "follows ts r spec ws vs \<longleftrightarrow> (case spec of
      Ok w \<Rightarrow> \<exists>g. r = (Ok (), g) \<and> grel ts g (w # ws) vs
    | Err e \<Rightarrow> \<exists>g w. r = (Err e, g) \<and> grel ts g (w # ws) vs
    | Panic \<Rightarrow> False)"

lemma put_follows:
  assumes "grel ts g (w # ws) vs"
  shows "follows ts (run_step ts B (StepPut k v) g) (spec_step (StepPut k v) w) ws vs"
proof -
  obtain u us where u: "map w_view ws @ vs = u # us" using two_views [OF assms] .
  with assms have "rb_rel ts reads rows tip (gc_database g) (w_view w # u # us)" by (simp add: gc_rel_def)
  from rel_put [OF this, of k v] u assms show ?thesis
    by (auto simp: follows_def gc_rel_def on_database_def)
qed

lemma transfer_follows:
  assumes "grel ts g (w # ws) vs"
  shows "follows ts (run_step ts B (StepTransfer t) g) (spec_step (StepTransfer t) w) ws vs"
proof -
  obtain am ams where maps: "gc_asset_maps g = am # ams" "tracks am (w_log w)" "list_all2 tracks ams (map w_log ws)"
    using assms by (auto simp: gc_rel_def list_all2_Cons2)
  note rec = record_transfer_tracks [OF maps(2), of t]
  show ?thesis
  proof (cases "record_transfer t am")
    case (Ok am')
    then have "tracks am' (w_log w @ [t])" using rec by simp
    with tracks_fit [OF this] Ok maps assms show ?thesis
      by (simp add: follows_def log_transfer_record get_asset_map_def gc_rel_def)
  next
    case (Err e)
    with rec maps assms show ?thesis
      by (auto simp: follows_def log_transfer_record get_asset_map_def)
  next
    case Panic
    with rec show ?thesis by simp
  qed
qed

lemma call_follows:
  fixes g :: "('s, 'ctx) global_context"
  assumes "grel ts g (w # ws) vs" "ro \<or> (\<exists>c d. v = VResponse c d)"
    and body: "\<And>h :: ('s, 'ctx) global_context. grel ts h (open_world (w_view w) # w # ws) vs \<Longrightarrow>
      follows ts (run_steps ts B body h) (spec_steps body (open_world (w_view w))) (w # ws) vs"
  shows "follows ts (run_step ts B (StepCall ro body v) g) (spec_step (StepCall ro body v) w) ws vs"
proof -
  define g1 where "g1 = (if ro then gc_begin_read_only g else gc_begin g)"
  have "grel ts g1 (open_world (w_view w) # w # ws) vs"
    using begin_rel [OF assms(1)] by (simp add: g1_def)
  note b = body [OF this]
  show ?thesis
  proof (cases "spec_steps body (open_world (w_view w))")
    case (Ok w')
    with b obtain g2 where g2: "run_steps ts B body g1 = (Ok (), g2)" "grel ts g2 (w' # w # ws) vs"
      by (auto simp: follows_def)
    from roll_back_rel [OF g2(2)] obtain g3 where g3: "gc_roll_back g2 = (Ok (), g3)" "grel ts g3 (w # ws) vs" by blast
    show ?thesis
    proof (cases ro)
      case True
      with Ok g2 g3 show ?thesis
        by (simp add: follows_def execute_function_as_transaction_def flip: g1_def) (simp add: g1_def)
    next
      case False
      with assms(2) obtain c d where v: "v = VResponse c d" by blast
      from commit_rel [OF g2(2)] False v Ok g2 g3 show ?thesis
        by (cases c; cases "join w w'")
          (auto simp: follows_def execute_function_as_transaction_def handle_tx_result_def g1_def)
    qed
  next
    case (Err e)
    with b obtain g2 w' where g2: "run_steps ts B body g1 = (Err e, g2)" "grel ts g2 (w' # w # ws) vs"
      by (auto simp: follows_def)
    have "\<exists>g'. (roll_back_with e g2 :: ('s, 'ctx, clarity_value) gc_result) = (Err e, g') \<and> grel ts g' (w # ws) vs"
      by (rule roll_back_with_rel [OF g2(2)])
    with roll_back_rel [OF g2(2)] Err g2 show ?thesis
      by (auto simp: follows_def execute_function_as_transaction_def handle_tx_result_def g1_def)
  next
    case Panic
    with b show ?thesis by (simp add: follows_def)
  qed
qed

lemma transaction_follows:
  fixes g :: "('s, 'ctx) global_context"
  assumes "grel ts g (w # ws) vs"
    and body: "\<And>h :: ('s, 'ctx) global_context. grel ts h (open_world (w_view w) # w # ws) vs \<Longrightarrow>
      follows ts (run_steps ts B body h) (spec_steps body (open_world (w_view w))) (w # ws) vs"
  shows "follows ts (run_step ts B (StepTransaction body) g) (spec_step (StepTransaction body) w) ws vs"
proof -
  have "grel ts (gc_begin g) (open_world (w_view w) # w # ws) vs"
    using begin_rel [OF assms(1)] by simp
  note b = body [OF this]
  show ?thesis
  proof (cases "spec_steps body (open_world (w_view w))")
    case (Ok w')
    with b obtain g2 where g2: "run_steps ts B body (gc_begin g) = (Ok (), g2)" "grel ts g2 (w' # w # ws) vs"
      by (auto simp: follows_def)
    from commit_rel [OF g2(2)] Ok g2 show ?thesis
      by (cases "join w w'") (auto simp: follows_def run_as_transaction_def)
  next
    case (Err e)
    with b obtain g2 w' where g2: "run_steps ts B body (gc_begin g) = (Err e, g2)" "grel ts g2 (w' # w # ws) vs"
      by (auto simp: follows_def)
    from roll_back_with_rel [OF g2(2), of e] Err g2 show ?thesis
      by (auto simp: follows_def run_as_transaction_def)
  next
    case Panic
    with b show ?thesis by (simp add: follows_def)
  qed
qed

lemma steps_follow:
  fixes g :: "('s, 'ctx) global_context"
  shows "\<lbrakk>grel ts g (w # ws) vs; returns_response st\<rbrakk> \<Longrightarrow>
      follows ts (run_step ts B st g) (spec_step st w) ws vs"
    and "\<lbrakk>grel ts g (w # ws) vs; list_all returns_response sts\<rbrakk> \<Longrightarrow>
      follows ts (run_steps ts B sts g) (spec_steps sts w) ws vs"
proof (induction st w and sts w arbitrary: g ws and g ws rule: spec_step_spec_steps.induct)
  case (1 k v w)
  then show ?case by (intro put_follows)
next
  case (2 t w)
  then show ?case by (intro transfer_follows)
next
  case (5 ro body v w)
  then show ?case
    by (intro call_follows) (auto split: clarity_value.splits)
next
  case (6 body w)
  then show ?case by (intro transaction_follows) auto
next
  case (8 st sts w)
  from 8 have st: "follows ts (run_step ts B st g) (spec_step st w) ws vs" by simp
  show ?case
  proof (cases "spec_step st w")
    case (Ok w1)
    with st obtain g1 where "run_step ts B st g = (Ok (), g1)" "grel ts g1 (w1 # ws) vs"
      by (auto simp: follows_def)
    with 8 Ok show ?thesis by simp
  qed (use st in \<open>auto simp: follows_def\<close>)
qed (auto simp: follows_def gc_rel_def push_event_def)

lemma execute_in_env_follows:
  fixes g :: "('s, 'ctx) global_context"
  assumes "grel ts g [] (v # vs)" "list_all returns_response body"
  shows "case spec_steps body (open_world v) of
      Ok w \<Rightarrow> \<exists>am g'. execute_in_env ts B (run_steps ts B body) g = (Ok ((), am, w_events w), g')
        \<and> tracks am (w_log w) \<and> grel ts g' [] (w_view w # vs)
    | Err e \<Rightarrow> \<exists>g'. execute_in_env ts B (run_steps ts B body) g = (Err e, g') \<and> grel ts g' [] (v # vs)
    | Panic \<Rightarrow> False"
proof -
  have top: "is_top_level g" using assms(1) by (simp add: gc_rel_def is_top_level_def)
  have "grel ts (gc_begin g) [open_world v] (v # vs)" using begin_rel(1) [OF assms(1)] by simp
  note b = steps_follow(2) [OF this assms(2)]
  show ?thesis
  proof (cases "spec_steps body (open_world v)")
    case (Ok w)
    with b obtain g2 where g2: "run_steps ts B body (gc_begin g) = (Ok (), g2)" "grel ts g2 [w] (v # vs)"
      by (auto simp: follows_def)
    from commit_outer_rel [OF g2(2)] Ok g2 top show ?thesis
      by (auto simp: execute_in_env_def env_commit_def)
  next
    case (Err e)
    with b obtain g2 w' where g2: "run_steps ts B body (gc_begin g) = (Err e, g2)" "grel ts g2 [w'] (v # vs)"
      by (auto simp: follows_def)
    from roll_back_with_rel [OF g2(2), of e] Err g2 top show ?thesis
      by (auto simp: execute_in_env_def)
  next
    case Panic
    with b show ?thesis by (simp add: follows_def)
  qed
qed

end

section \<open>What no operation changes\<close>

definition gc_frame :: "('s, 'ctx) global_context \<Rightarrow> 'ctx limited_cost_tracker \<times> bool \<times> stacks_epoch_id" where
  "gc_frame g = (gc_cost_track g, gc_mainnet g, gc_epoch_id g)"

lemma frame_database [simp]: "gc_frame (snd (on_database f r g)) = gc_frame g"
  by (simp add: on_database_def gc_frame_def split: result.splits)

lemma frame_begin [simp]: "gc_frame (gc_begin g) = gc_frame g" "gc_frame (gc_begin_read_only g) = gc_frame g"
  by (simp_all add: gc_begin_def gc_begin_read_only_def gc_frame_def)

lemma frame_updates [simp]:
  "gc_frame (g\<lparr>gc_asset_maps := a\<rparr>) = gc_frame g" "gc_frame (g\<lparr>gc_event_batches := e\<rparr>) = gc_frame g"
  "gc_frame (g\<lparr>gc_read_only := b\<rparr>) = gc_frame g"
  by (simp_all add: gc_frame_def)

lemma frame_commit [simp]: "gc_frame (snd (gc_commit ts B g)) = gc_frame g"
  by (simp add: gc_commit_def Let_def split: list.splits result.splits prod.splits)

lemma frame_roll_back [simp]: "gc_frame (snd (gc_roll_back g)) = gc_frame g"
  by (simp add: gc_roll_back_def split: list.splits)

lemma frame_roll_back_with [simp]: "gc_frame (snd (roll_back_with e g)) = gc_frame g"
proof (cases "gc_roll_back g")
  case (Pair r g')
  with frame_roll_back [of g] show ?thesis by (cases r) (simp_all add: roll_back_with_def)
qed

text \<open>Committing or rolling back and then returning a fixed result.\<close>

lemma frame_commit_then:
  "gc_frame (snd (case gc_commit ts B g of (Ok _, g) \<Rightarrow> (Ok x, g) | (Err e, g) \<Rightarrow> (Err e, g) | (Panic, g) \<Rightarrow> (Panic, g)))
     = gc_frame g"
proof (cases "gc_commit ts B g")
  case (Pair r g')
  with frame_commit [of ts B g] show ?thesis by (cases r) simp_all
qed

lemma frame_roll_back_then:
  "gc_frame (snd (case gc_roll_back g of (Ok _, g) \<Rightarrow> (r, g) | (_, g) \<Rightarrow> (Panic, g))) = gc_frame g"
proof (cases "gc_roll_back g")
  case (Pair r g')
  with frame_roll_back [of g] show ?thesis by (cases r) simp_all
qed

lemma frame_handle_tx_result [simp]: "gc_frame (snd (handle_tx_result ts B r g)) = gc_frame g"
proof (cases r)
  case (Ok v)
  then show ?thesis
    by (cases v) (simp_all add: handle_tx_result_def frame_commit_then frame_roll_back_then)
qed (simp_all add: handle_tx_result_def)

lemma frame_call:
  assumes "\<And>g. gc_frame (snd (f g)) = gc_frame g"
  shows "gc_frame (snd (execute_function_as_transaction ts B ro f g)) = gc_frame g"
proof (cases "f (if ro then gc_begin_read_only g else gc_begin g)")
  case (Pair r g')
  then have "gc_frame g' = gc_frame g"
    using assms [of "if ro then gc_begin_read_only g else gc_begin g"] by (simp split: if_splits)
  then show ?thesis
    by (simp add: execute_function_as_transaction_def Pair frame_roll_back_then)
qed

lemma frame_transaction:
  assumes "\<And>g. gc_frame (snd (f g)) = gc_frame g"
  shows "gc_frame (snd (run_as_transaction ts B f g)) = gc_frame g"
proof (cases "f (gc_begin g)")
  case (Pair r g')
  with assms [of "gc_begin g"] have "gc_frame g' = gc_frame g" by simp
  then show ?thesis
    by (cases r) (simp_all add: run_as_transaction_def Pair frame_commit_then)
qed

lemma frame_steps [simp]:
  "gc_frame (snd (run_step ts B st g)) = gc_frame g"
  "gc_frame (snd (run_steps ts B sts g)) = gc_frame g"
proof (induction ts B st g and ts B sts g rule: run_step_run_steps.induct)
  case (5 ts B ro body v g)
  then show ?case by (simp add: frame_call)
next
  case (6 ts B body g)
  then show ?case by (simp add: frame_transaction)
next
  case (8 ts B st sts g)
  then show ?case
    by (cases "run_step ts B st g"; cases "fst (run_step ts B st g)") auto
qed (auto simp: log_transfer_record get_asset_map_def push_event_def split: list.splits result.splits)

lemma frame_execute_in_env:
  assumes "\<And>g. gc_frame (snd (f g)) = gc_frame g"
  shows "gc_frame (snd (execute_in_env ts B f g)) = gc_frame g"
proof (cases "f (gc_begin g)")
  case (Pair r g')
  with assms [of "gc_begin g"] have "gc_frame g' = gc_frame g" by simp
  then show ?thesis
    using frame_commit [of ts B g']
    by (cases r) (simp_all add: execute_in_env_def env_commit_def Pair case_prod_unfold)
qed

section \<open>Properties\<close>

text \<open>C8: Running code in the virtual machine is atomic in the database, the asset map and the events
  at once: code that succeeds leaves exactly what its committed calls wrote, sent and emitted, and
  code that fails leaves the database as it was; the context is closed again in both cases.\<close>

theorem execution_refines:
  assumes "list_all returns_response body"
    and "g = global_context_new mainnet (nest (wrapper_new s)) cost_track epoch"
  shows "case spec_steps body (open_world (sqlite_get s)) of
      Ok w \<Rightarrow> \<exists>am g'. execute_in_env ts memory_backing_store (run_steps ts memory_backing_store body) g
          = (Ok ((), am, w_events w), g')
        \<and> is_top_level g' \<and> tracks am (w_log w) \<and> (\<forall>k. get Ok memory_backing_store (gc_database g') k = Ok (w_view w k))
    | Err e \<Rightarrow> \<exists>g'. execute_in_env ts memory_backing_store (run_steps ts memory_backing_store body) g = (Err e, g')
        \<and> is_top_level g' \<and> (\<forall>k. get Ok memory_backing_store (gc_database g') k = Ok (sqlite_get s k))
    | Panic \<Rightarrow> False"
proof -
  let ?R = "gc_rel ts sqlite_get (\<lambda>conn. map_of (metadata_table conn)) (\<lambda>_. sentinel_block)"
  have rel: "?R g [] [sqlite_get s, sqlite_get s]"
    using memory_store.rel_nest [OF memory_store.rel_new] by (simp add: assms(2) gc_rel_def global_context_new_def)
  have seen: "is_top_level g' \<and> (\<forall>k. get Ok memory_backing_store (gc_database g') k = Ok (v k))"
    if "?R g' [] [v, u]" for g' :: "(sqlite_conn, 'b) global_context" and v u
    using that memory_store.rel_get by (fastforce simp: gc_rel_def is_top_level_def)
  from memory_store.execute_in_env_follows [OF rel assms(1)] seen show ?thesis
    by (fastforce split: result.splits)
qed

theorem execution_refines_witness:
  "\<exists>am g'. execute_in_env (\<lambda>_. []) memory_backing_store (run_steps (\<lambda>_. []) memory_backing_store
      [StepPut ''k'' ''1'', StepCall False [StepPut ''k'' ''2''] err_none])
      (global_context_new True (nest (wrapper_new sqlite_memory)) (Free :: unit limited_cost_tracker) Epoch20) = (Ok ((), am, []), g')
    \<and> get Ok memory_backing_store (gc_database g') ''k'' = Ok (Some ''1'')"
proof -
  let ?body = "[StepPut ''k'' ''1'', StepCall False [StepPut ''k'' ''2''] err_none]"
  have "list_all returns_response ?body" by (simp add: err_none_def)
  from execution_refines [OF this refl, where s = sqlite_memory and ts = "\<lambda>_. []" and mainnet = True
    and cost_track = "Free :: unit limited_cost_tracker" and epoch = Epoch20]
  show ?thesis by (auto simp: err_none_def open_world_def simp del: run_steps.simps)
qed

end
