(* ===== verification/Transactions.thy ===== *)
theory Transactions
  imports Global_Context Post_Conditions Withdrawal
begin

text \<open>
  Processing one transaction: the transaction connection of \<open>src/clarity_vm/clarity.rs\<close> and the
  trait \<open>TransactionConnection\<close> of \<open>clarity/src/vm/clarity.rs\<close>, which wrap the virtual machine in a
  database transaction with an abort callback, and \<open>process_transaction_payload\<close> of
  \<open>src/chainstate/stacks/db/transactions.rs\<close>, which turns their outcome into a receipt. The interpreter and
  the contract analysis are parameters (\<open>interpreter\<close>); in the properties, the code that a contract
  call runs is a tree of steps. Logging is left out, and the abort callback gets the asset map only
  (every callback of the program ignores its database).
\<close>

section \<open>Errors\<close>

text \<open>\<open>clarity::Error\<close>; analysis and parser errors keep the error and drop the expression.\<close>

datatype clarity_error =
    ClAnalysis check_errors
  | ClParse parse_errors
  | ClInterpreter vm_error
  | ClBadTransaction string
  | ClCostError execution_cost execution_cost
  | ClAbortedByCallback "clarity_value option" asset_map "stacks_transaction_event list"

definition from_interpreter_error :: "vm_error \<Rightarrow> clarity_error" where
  "from_interpreter_error e =
     (case e of
        Unchecked c \<Rightarrow>
          (case c of
             CostBalanceExceeded a b \<Rightarrow> ClCostError a b
           | CostOverflow \<Rightarrow> ClCostError cost_max_value cost_max_value
           | _ \<Rightarrow> ClInterpreter e)
      | _ \<Rightarrow> ClInterpreter e)"

definition from_check_error :: "check_errors \<Rightarrow> clarity_error" where
  "from_check_error e =
     (case e of
        CostOverflow \<Rightarrow> ClCostError cost_max_value cost_max_value
      | CostBalanceExceeded a b \<Rightarrow> ClCostError a b
      | MemoryBalanceExceeded _ _ \<Rightarrow> ClCostError cost_max_value cost_max_value
      | _ \<Rightarrow> ClAnalysis e)"

datatype clarity_runtime_tx_error =
    Acceptable clarity_error string
  | AbortedByCallback "clarity_value option" asset_map "stacks_transaction_event list"
  | CostError execution_cost execution_cost
  | Rejectable clarity_error

fun handle_clarity_runtime_error :: "clarity_error \<Rightarrow> clarity_runtime_tx_error" where
  "handle_clarity_runtime_error (ClInterpreter (Runtime e t)) = Acceptable (ClInterpreter (Runtime e t)) ''runtime error''"
| "handle_clarity_runtime_error (ClInterpreter (ShortReturn r)) = Acceptable (ClInterpreter (ShortReturn r)) ''short return/panic''"
| "handle_clarity_runtime_error (ClAbortedByCallback val assets evs) = AbortedByCallback val assets evs"
| "handle_clarity_runtime_error (ClCostError cost budget) = CostError cost budget"
| "handle_clarity_runtime_error unhandled_error = Rejectable unhandled_error"

datatype chainstate_error =
    InvalidStacksTransaction string bool
  | CostOverflowError execution_cost execution_cost execution_cost
  | ClarityError clarity_error

section \<open>The transaction connection\<close>

record ('s, 'ctx) clarity_tx_connection =
  conn_store :: 's
  conn_log :: "persisted_log option"
  conn_cost_track :: "'ctx limited_cost_tracker option"
  conn_mainnet :: bool
  conn_epoch :: stacks_epoch_id

definition start_transaction_processing :: "'s \<Rightarrow> 'ctx limited_cost_tracker option \<Rightarrow> bool \<Rightarrow> stacks_epoch_id
    \<Rightarrow> ('s, 'ctx) clarity_tx_connection" where
  "start_transaction_processing s cost_track mainnet epoch =
     \<lparr>conn_store = s, conn_log = Some (persisted_log_nest persisted_log_new), conn_cost_track = cost_track,
      conn_mainnet = mainnet, conn_epoch = epoch\<rparr>"

definition with_abort_callback :: "(qualified_contract_identifier \<Rightarrow> string) \<Rightarrow> 's backing_store
    \<Rightarrow> (('s, 'ctx) global_context \<Rightarrow> (clarity_error, 'r \<times> asset_map \<times> stacks_transaction_event list) result
         \<times> ('s, 'ctx) global_context)
    \<Rightarrow> (asset_map \<Rightarrow> (unit, bool) result) \<Rightarrow> ('s, 'ctx) clarity_tx_connection
    \<Rightarrow> (clarity_error, 'r \<times> asset_map \<times> stacks_transaction_event list \<times> bool) result
        \<times> ('s, 'ctx) clarity_tx_connection" where
  "with_abort_callback to_string B to_do abort_call_back conn =
     (case (conn_log conn, conn_cost_track conn) of
        (Some log, Some cost_track) \<Rightarrow>
          let db = nest (from_persisted_log (conn_store conn) log);
              (r, vm_env) = to_do (global_context_new (conn_mainnet conn) db cost_track (conn_epoch conn))
          in if r = Panic then (Panic, conn)
          else (case gc_destruct vm_env of
              None \<Rightarrow> (Panic, conn)
            | Some (db, cost_track) \<Rightarrow>
                (case (case r of
                     Ok (v, asset_map, evs) \<Rightarrow>
                       and_then (abort_call_back asset_map) (\<lambda>aborted.
                       map_ok (Pair (Ok (v, asset_map, evs, aborted)))
                         (if aborted then rollback db else commit to_string B db))
                   | Err e \<Rightarrow> map_ok (Pair (Err e)) (rollback db)
                   | Panic \<Rightarrow> Panic) of
                   Ok (r, db) \<Rightarrow> (r, conn\<lparr>conn_store := store db, conn_log := Some (persisted_log_from db),
                       conn_cost_track := Some cost_track\<rparr>)
                 | _ \<Rightarrow> (Panic, conn)))
      | _ \<Rightarrow> (Panic, conn))"

definition cost_so_far :: "('s, 'ctx) clarity_tx_connection \<Rightarrow> execution_cost" where
  "cost_so_far conn = (case conn_cost_track conn of Some track \<Rightarrow> get_total track | None \<Rightarrow> cost_zero)"

definition conn_commit :: "(qualified_contract_identifier \<Rightarrow> string) \<Rightarrow> 's backing_store
    \<Rightarrow> ('s, 'ctx) clarity_tx_connection \<Rightarrow> (unit, 's \<times> 'ctx limited_cost_tracker) result" where
  "conn_commit to_string B conn =
     and_then (expect_some (conn_log conn)) (\<lambda>log.
     let rollback_wrapper = from_persisted_log (conn_store conn) log in
     if rollback_depth rollback_wrapper \<noteq> 1 then Panic
     else and_then (commit to_string B rollback_wrapper) (\<lambda>rollback_wrapper.
       and_then (expect_some (conn_cost_track conn)) (\<lambda>cost_track.
       Ok (store rollback_wrapper, snd (reset_memory cost_track)))))"

text \<open>
  What the connection runs: the functions of a contract, STX transfers, contract
  initialisation and analysis.
\<close>

record ('s, 'ctx, 'ast, 'analysis) interpreter =
  int_execute_contract :: "principal_data \<Rightarrow> qualified_contract_identifier \<Rightarrow> clarity_name \<Rightarrow> clarity_value list
    \<Rightarrow> ('s, 'ctx) global_context \<Rightarrow> ('s, 'ctx, clarity_value) gc_result"
  int_stx_transfer :: "principal_data \<Rightarrow> principal_data \<Rightarrow> u128
    \<Rightarrow> ('s, 'ctx) global_context \<Rightarrow> ('s, 'ctx, clarity_value) gc_result"
  int_initialize_contract :: "qualified_contract_identifier \<Rightarrow> 'ast \<Rightarrow> string
    \<Rightarrow> ('s, 'ctx) global_context \<Rightarrow> ('s, 'ctx, unit) gc_result"
  int_analyze :: "qualified_contract_identifier \<Rightarrow> string \<Rightarrow> ('s, 'ctx) clarity_tx_connection
    \<Rightarrow> (clarity_error, 'ast \<times> 'analysis) result \<times> ('s, 'ctx) clarity_tx_connection"
  int_save_analysis :: "qualified_contract_identifier \<Rightarrow> 'analysis \<Rightarrow> ('s, 'ctx) clarity_tx_connection
    \<Rightarrow> (unit, ('s, 'ctx) clarity_tx_connection) result"
  int_contract_exists :: "('s, 'ctx) clarity_tx_connection \<Rightarrow> qualified_contract_identifier \<Rightarrow> bool"

definition run_stx_transfer :: "(qualified_contract_identifier \<Rightarrow> string) \<Rightarrow> 's backing_store
    \<Rightarrow> ('s, 'ctx, 'ast, 'analysis) interpreter \<Rightarrow> principal_data \<Rightarrow> principal_data \<Rightarrow> u128
    \<Rightarrow> ('s, 'ctx) clarity_tx_connection
    \<Rightarrow> (clarity_error, clarity_value \<times> asset_map \<times> stacks_transaction_event list) result
        \<times> ('s, 'ctx) clarity_tx_connection" where
  "run_stx_transfer to_string B vm from to amount conn =
     apfst (map_ok (\<lambda>(v, assets, evs, _). (v, assets, evs)))
       (with_abort_callback to_string B
         (\<lambda>vm_env. apfst (map_err from_interpreter_error)
            (execute_in_env to_string B (int_stx_transfer vm from to amount) vm_env))
         (\<lambda>_. Ok False) conn)"

definition run_contract_call :: "(qualified_contract_identifier \<Rightarrow> string) \<Rightarrow> 's backing_store
    \<Rightarrow> ('s, 'ctx, 'ast, 'analysis) interpreter \<Rightarrow> principal_data \<Rightarrow> qualified_contract_identifier \<Rightarrow> clarity_name
    \<Rightarrow> clarity_value list \<Rightarrow> (asset_map \<Rightarrow> (unit, bool) result) \<Rightarrow> ('s, 'ctx) clarity_tx_connection
    \<Rightarrow> (clarity_error, clarity_value \<times> asset_map \<times> stacks_transaction_event list) result
        \<times> ('s, 'ctx) clarity_tx_connection" where
  "run_contract_call to_string B vm sender contract public_function args abort_call_back conn =
     apfst (\<lambda>r. and_then r (\<lambda>(v, assets, evs, aborted).
         if aborted then Err (ClAbortedByCallback (Some v) assets evs) else Ok (v, assets, evs)))
       (with_abort_callback to_string B
         (\<lambda>vm_env. apfst (map_err from_interpreter_error)
            (execute_in_env to_string B (int_execute_contract vm sender contract public_function args) vm_env))
         abort_call_back conn)"

definition initialize_smart_contract :: "(qualified_contract_identifier \<Rightarrow> string) \<Rightarrow> 's backing_store
    \<Rightarrow> ('s, 'ctx, 'ast, 'analysis) interpreter \<Rightarrow> qualified_contract_identifier \<Rightarrow> 'ast \<Rightarrow> string
    \<Rightarrow> (asset_map \<Rightarrow> (unit, bool) result) \<Rightarrow> ('s, 'ctx) clarity_tx_connection
    \<Rightarrow> (clarity_error, asset_map \<times> stacks_transaction_event list) result \<times> ('s, 'ctx) clarity_tx_connection" where
  "initialize_smart_contract to_string B vm identifier contract_ast contract_str abort_call_back conn =
     apfst (\<lambda>r. and_then r (\<lambda>(_, asset_map, evs, aborted).
         if aborted then Err (ClAbortedByCallback None asset_map evs) else Ok (asset_map, evs)))
       (with_abort_callback to_string B
         (\<lambda>vm_env. apfst (map_err from_interpreter_error)
            (execute_in_env to_string B (int_initialize_contract vm identifier contract_ast contract_str) vm_env))
         abort_call_back conn)"

section \<open>Processing the payload\<close>

record transaction_contract_call =
  call_address :: stacks_address
  call_contract_name :: contract_name
  call_function_name :: clarity_name
  call_function_args :: "clarity_value list"

record transaction_smart_contract =
  sc_name :: contract_name
  sc_code_body :: string

datatype 'header transaction_payload =
    TokenTransfer principal_data u64 "u8 list"
  | ContractCall transaction_contract_call
  | SmartContract transaction_smart_contract
  | PoisonMicroblock 'header 'header
  | Coinbase bytes32

text \<open>The fields of \<open>StacksTransaction\<close> that the payload is processed with.\<close>

record 'header stacks_transaction =
  tx_post_condition_mode :: transaction_post_condition_mode
  tx_post_conditions :: "transaction_post_condition list"
  tx_payload :: "'header transaction_payload"

definition to_clarity_contract_id :: "transaction_contract_call \<Rightarrow> qualified_contract_identifier" where
  "to_clarity_contract_id c =
     \<lparr>qci_issuer = principal_of_address (call_address c), qci_name = call_contract_name c\<rparr>"

text \<open>What the transaction has cost since \<open>cost_before\<close>; a decrease panics.\<close>

definition cost_since :: "execution_cost \<Rightarrow> ('s, 'ctx) clarity_tx_connection \<Rightarrow> (unit, execution_cost) result" where
  "cost_since cost_before conn =
     (case cost_sub cost_before (cost_so_far conn) of (Ok _, c) \<Rightarrow> Ok c | _ \<Rightarrow> Panic)"

type_synonym ('s, 'ctx, 'header, 'analysis) tx_result =
  "(chainstate_error, ('header stacks_transaction, 'analysis, 'header) stacks_transaction_receipt) result
     \<times> ('s, 'ctx) clarity_tx_connection"

text \<open>The receipt once the burned total is known; an overflow of the total panics.\<close>

abbreviation with_burned :: "asset_map \<Rightarrow> (u128 \<Rightarrow> 'a) \<Rightarrow> (chainstate_error, 'a) result" where
  "with_burned assets f \<equiv> map_ok f (expect (get_stx_burned_total assets))"

definition process_token_transfer :: "(qualified_contract_identifier \<Rightarrow> string) \<Rightarrow> 's backing_store
    \<Rightarrow> ('s, 'ctx, 'ast, 'analysis) interpreter \<Rightarrow> 'header stacks_transaction \<Rightarrow> principal_data
    \<Rightarrow> principal_data \<Rightarrow> u64 \<Rightarrow> ('s, 'ctx) clarity_tx_connection \<Rightarrow> ('s, 'ctx, 'header, 'analysis) tx_result" where
  "process_token_transfer to_string B vm tx origin addr amount conn =
     (if length (tx_post_conditions tx) > 0 then
        (Err (InvalidStacksTransaction
          ''Invalid Stacks transaction: TokenTransfer transactions do not support post-conditions'' False), conn)
      else if addr = origin then
        (Err (InvalidStacksTransaction ''Invalid TokenTransfer: address tried to send to itself'' False), conn)
      else
        let cost_before = cost_so_far conn in
        (case run_stx_transfer to_string B vm origin addr (ucast amount) conn of
           (Ok (v, _, evs), conn) \<Rightarrow>
             (and_then (expect (cost_since cost_before conn)) (\<lambda>total_cost.
                Ok (from_stx_transfer tx evs v total_cost)), conn)
         | (Err e, conn) \<Rightarrow> (Err (ClarityError e), conn)
         | (Panic, conn) \<Rightarrow> (Panic, conn)))"

definition process_contract_call :: "(qualified_contract_identifier \<Rightarrow> string) \<Rightarrow> 's backing_store
    \<Rightarrow> ('s, 'ctx, 'ast, 'analysis) interpreter \<Rightarrow> 'header stacks_transaction \<Rightarrow> principal_data
    \<Rightarrow> transaction_contract_call \<Rightarrow> ('s, 'ctx) clarity_tx_connection \<Rightarrow> ('s, 'ctx, 'header, 'analysis) tx_result" where
  "process_contract_call to_string B vm tx origin contract_call conn =
     (let contract_id = to_clarity_contract_id contract_call;
          cost_before = cost_so_far conn;
          (contract_call_resp, conn) = run_contract_call to_string B vm origin contract_id
            (call_function_name contract_call) (call_function_args contract_call)
            (\<lambda>asset_map. map_ok Not (check_transaction_postconditions (tx_post_conditions tx)
               (tx_post_condition_mode tx) origin asset_map)) conn
      in if contract_call_resp = Panic then (Panic, conn)
      else (and_then (expect (cost_since cost_before conn)) (\<lambda>total_cost.
        let finish = (\<lambda>(v, asset_map, evs).
              with_burned asset_map (\<lambda>burned. from_contract_call tx evs v burned total_cost))
        in (case contract_call_resp of
             Ok resp \<Rightarrow> finish resp
           | Err e \<Rightarrow>
               (case handle_clarity_runtime_error e of
                  Acceptable _ _ \<Rightarrow> finish (err_none, asset_map_new, [])
                | AbortedByCallback v assets evs \<Rightarrow>
                    and_then (expect_some v) (\<lambda>v.
                    with_burned assets (\<lambda>burned. from_condition_aborted_contract_call tx evs v burned total_cost))
                | CostError cost_after budget \<Rightarrow> Err (CostOverflowError cost_before cost_after budget)
                | Rejectable e \<Rightarrow> Err (ClarityError e))
           | Panic \<Rightarrow> Panic)), conn))"

definition process_smart_contract :: "(qualified_contract_identifier \<Rightarrow> string) \<Rightarrow> 's backing_store
    \<Rightarrow> ('s, 'ctx, 'ast, 'analysis) interpreter \<Rightarrow> 'header stacks_transaction \<Rightarrow> principal_data
    \<Rightarrow> transaction_smart_contract \<Rightarrow> ('s, 'ctx) clarity_tx_connection \<Rightarrow> ('s, 'ctx, 'header, 'analysis) tx_result" where
  "process_smart_contract to_string B vm tx origin smart_contract conn =
     (case origin of
        Contract _ \<Rightarrow> (Panic, conn)
      | Standard issuer_principal \<Rightarrow>
          let contract_id = \<lparr>qci_issuer = issuer_principal, qci_name = sc_name smart_contract\<rparr> in
          if int_contract_exists vm conn contract_id then
            (Err (InvalidStacksTransaction (''Duplicate contract '' @ [CHR 0x27] @ to_string contract_id @ [CHR 0x27]) False), conn)
          else
            let cost_before = cost_so_far conn in
            (case int_analyze vm contract_id (sc_code_body smart_contract) conn of
               (Panic, conn) \<Rightarrow> (Panic, conn)
             | (Err (ClCostError cost_after budget), conn) \<Rightarrow> (Err (CostOverflowError cost_before cost_after budget), conn)
             | (Err e, conn) \<Rightarrow>
                 (map_ok (from_analysis_failure tx) (expect (cost_since cost_before conn)), conn)
             | (Ok (contract_ast, contract_analysis), conn) \<Rightarrow>
                 if cost_since cost_before conn = Panic then (Panic, conn)
                 else
                   let (initialize_resp, conn) = initialize_smart_contract to_string B vm contract_id contract_ast
                         (sc_code_body smart_contract)
                         (\<lambda>asset_map. map_ok Not (check_transaction_postconditions (tx_post_conditions tx)
                            (tx_post_condition_mode tx) origin asset_map)) conn
                   in if initialize_resp = Panic then (Panic, conn)
                   else (case cost_since cost_before conn of
                       Ok total_cost \<Rightarrow>
                         let finish = (\<lambda>(asset_map, evs). with_burned asset_map (\<lambda>burned.
                               from_smart_contract tx evs burned contract_analysis total_cost))
                         in (case initialize_resp of
                              Ok x \<Rightarrow>
                                (case int_save_analysis vm contract_id contract_analysis conn of
                                   Ok conn \<Rightarrow> (finish x, conn) | _ \<Rightarrow> (Panic, conn))
                            | Err e \<Rightarrow>
                                ((case handle_clarity_runtime_error e of
                                    Acceptable _ _ \<Rightarrow> finish (asset_map_new, [])
                                  | AbortedByCallback _ assets evs \<Rightarrow> with_burned assets (\<lambda>burned.
                                      from_condition_aborted_smart_contract tx evs burned contract_analysis total_cost)
                                  | CostError cost_after budget \<Rightarrow> Err (CostOverflowError cost_before cost_after budget)
                                  | Rejectable e \<Rightarrow> Err (ClarityError e)), conn)
                            | Panic \<Rightarrow> (Panic, conn))
                     | _ \<Rightarrow> (Panic, conn))))"

definition process_transaction_payload :: "(qualified_contract_identifier \<Rightarrow> string) \<Rightarrow> 's backing_store
    \<Rightarrow> ('s, 'ctx, 'ast, 'analysis) interpreter \<Rightarrow> 'header stacks_transaction \<Rightarrow> principal_data
    \<Rightarrow> ('s, 'ctx) clarity_tx_connection \<Rightarrow> ('s, 'ctx, 'header, 'analysis) tx_result" where
  "process_transaction_payload to_string B vm tx origin conn =
     (case tx_payload tx of
        TokenTransfer addr amount memo \<Rightarrow> process_token_transfer to_string B vm tx origin addr amount conn
      | ContractCall contract_call \<Rightarrow> process_contract_call to_string B vm tx origin contract_call conn
      | SmartContract smart_contract \<Rightarrow> process_smart_contract to_string B vm tx origin smart_contract conn
      | PoisonMicroblock _ _ \<Rightarrow> (Panic, conn)
      | Coinbase _ \<Rightarrow> (Ok (from_coinbase tx), conn))"

section \<open>The connection and its views\<close>

definition conn_rel :: "(qualified_contract_identifier \<Rightarrow> string) \<Rightarrow> ('s \<Rightarrow> string \<rightharpoonup> string)
    \<Rightarrow> ('s \<Rightarrow> (block_id \<times> string) \<rightharpoonup> string) \<Rightarrow> ('s \<Rightarrow> block_id) \<Rightarrow> ('s, 'ctx) clarity_tx_connection
    \<Rightarrow> (string \<rightharpoonup> string) list \<Rightarrow> 'ctx limited_cost_tracker \<Rightarrow> bool" where
  "conn_rel ts reads rows tip conn vs ct \<longleftrightarrow> conn_cost_track conn = Some ct \<and>
     (\<exists>log. conn_log conn = Some log \<and> rb_rel ts reads rows tip (from_persisted_log (conn_store conn) log) vs)"

lemma execute_in_env_map:
  "execute_in_env ts B (\<lambda>g. apfst (map_ok (\<lambda>_. x)) (f g)) g =
     apfst (map_ok (\<lambda>(_, am, evs). (x, am, evs))) (execute_in_env ts B f g)"
proof (cases "f (gc_begin g)")
  case (Pair r g')
  obtain c g'' where c: "env_commit ts B g' = (c, g'')" by (cases "env_commit ts B g'")
  show ?thesis
    by (cases r; cases c) (auto simp: execute_in_env_def roll_back_with_def Pair c split: prod.splits result.splits)
qed

context clarity_store
begin

lemma persisted_log_restore:
  assumes "rb_rel ts reads rows tip w vs"
  shows "from_persisted_log (store w) (persisted_log_from w) = w"
  using assms by (auto simp: rb_rel_def from_persisted_log_def persisted_log_from_def)

lemma start_rel:
  "conn_rel ts reads rows tip (start_transaction_processing s (Some ct) mainnet epoch) [reads s, reads s] ct"
proof -
  have "from_persisted_log s (persisted_log_nest persisted_log_new) = nest (wrapper_new s)"
    by (simp add: from_persisted_log_def persisted_log_nest_def persisted_log_new_def nest_def wrapper_new_def)
  then show ?thesis
    using rel_nest [OF rel_new, of ts s] by (simp add: conn_rel_def start_transaction_processing_def)
qed

lemma conn_commit_rel:
  assumes "conn_rel ts reads rows tip conn [v, u] ct"
  shows "\<exists>s ct'. conn_commit ts B conn = Ok (s, ct') \<and> reads s = v"
proof -
  from assms obtain log where log: "conn_log conn = Some log" "conn_cost_track conn = Some ct"
    "rb_rel ts reads rows tip (from_persisted_log (conn_store conn) log) [v, u]" by (auto simp: conn_rel_def)
  from rel_depth [OF log(3)] have "rollback_depth (from_persisted_log (conn_store conn) log) = 1" by simp
  moreover from rel_commit [OF log(3)] obtain w where
    w: "commit ts B (from_persisted_log (conn_store conn) log) = Ok w" "rb_rel ts reads rows tip w [v]" by blast
  ultimately show ?thesis
    using log rel_closed [OF w(2)] by (auto simp: conn_commit_def Let_def)
qed

lemma with_abort_callback_rel:
  fixes conn :: "('s, 'ctx) clarity_tx_connection"
  assumes "conn_rel ts reads rows tip conn (v # u # vs) ct" "list_all returns_response body"
    and abort: "\<And>w am. spec_steps body (open_world v) = Ok w \<Longrightarrow> tracks am (w_log w) \<Longrightarrow> abort am = Ok aborted"
  shows "case spec_steps body (open_world v) of
      Ok w \<Rightarrow> \<exists>am conn'. with_abort_callback ts B (\<lambda>vm_env. apfst (map_err from_interpreter_error)
          (execute_in_env ts B (\<lambda>g. apfst (map_ok (\<lambda>_. x)) (run_steps ts B body g)) vm_env)) abort conn
          = (Ok (x, am, w_events w, aborted), conn')
        \<and> tracks am (w_log w) \<and> conn_rel ts reads rows tip conn' ((if aborted then v else w_view w) # u # vs) ct
    | Err e \<Rightarrow> \<exists>conn'. with_abort_callback ts B (\<lambda>vm_env. apfst (map_err from_interpreter_error)
          (execute_in_env ts B (\<lambda>g. apfst (map_ok (\<lambda>_. x)) (run_steps ts B body g)) vm_env)) abort conn
          = (Err (from_interpreter_error e), conn') \<and> conn_rel ts reads rows tip conn' (v # u # vs) ct
    | Panic \<Rightarrow> False"
proof -
  from assms(1) obtain log where log: "conn_log conn = Some log" "conn_cost_track conn = Some ct"
    "rb_rel ts reads rows tip (from_persisted_log (conn_store conn) log) (v # u # vs)" by (auto simp: conn_rel_def)
  define g where "g = global_context_new (conn_mainnet conn) (nest (from_persisted_log (conn_store conn) log)) ct (conn_epoch conn)"
  have rel: "gc_rel ts reads rows tip g [] (v # v # u # vs)"
    using rel_nest [OF log(3)] by (simp add: gc_rel_def g_def global_context_new_def)
  have frame: "gc_frame (snd (execute_in_env ts B (run_steps ts B body) g)) = (ct, conn_mainnet conn, conn_epoch conn)"
    by (simp add: frame_execute_in_env) (simp add: g_def global_context_new_def gc_frame_def)
  note run = execute_in_env_follows [OF rel assms(2)]
  have destruct: "gc_destruct g' = Some (gc_database g', ct)"
    if "execute_in_env ts B (run_steps ts B body) g = (r, g')" "gc_rel ts reads rows tip g' [] vs'" for r g' vs'
    using that frame by (simp add: gc_destruct_def is_top_level_def gc_rel_def gc_frame_def)
  show ?thesis
  proof (cases "spec_steps body (open_world v)")
    case (Ok w)
    with run obtain am g' where g': "execute_in_env ts B (run_steps ts B body) g = (Ok ((), am, w_events w), g')"
      "tracks am (w_log w)" "gc_rel ts reads rows tip g' [] (w_view w # v # u # vs)" by auto
    from g'(3) have db: "rb_rel ts reads rows tip (gc_database g') (w_view w # v # u # vs)" by (simp add: gc_rel_def)
    from rel_commit [OF db] rel_rollback [OF db] obtain db1 db2 where
      "commit ts B (gc_database g') = Ok db1" "rb_rel ts reads rows tip db1 (w_view w # u # vs)"
      "rollback (gc_database g') = Ok db2" "rb_rel ts reads rows tip db2 (v # u # vs)" by blast
    then show ?thesis
      using Ok log g' destruct [OF g'(1,3)] abort [OF Ok g'(2)]
      by (auto simp: with_abort_callback_def execute_in_env_map conn_rel_def persisted_log_restore simp flip: g_def)
  next
    case (Err e)
    with run obtain g' where g': "execute_in_env ts B (run_steps ts B body) g = (Err e, g')"
      "gc_rel ts reads rows tip g' [] (v # v # u # vs)" by auto
    from g'(2) have db: "rb_rel ts reads rows tip (gc_database g') (v # v # u # vs)" by (simp add: gc_rel_def)
    from rel_rollback [OF db] obtain db2 where
      "rollback (gc_database g') = Ok db2" "rb_rel ts reads rows tip db2 (v # u # vs)" by blast
    then show ?thesis
      using Err log g' destruct [OF g'(1,2)]
      by (auto simp: with_abort_callback_def execute_in_env_map conn_rel_def persisted_log_restore simp flip: g_def)
  next
    case Panic
    with run show ?thesis by simp
  qed
qed

end

section \<open>Contract calls\<close>

text \<open>The call that a transaction makes runs as a tree of steps and returns a value.\<close>

definition call_runs :: "('s, 'ctx, 'ast, 'analysis) interpreter \<Rightarrow> (qualified_contract_identifier \<Rightarrow> string)
    \<Rightarrow> 's backing_store \<Rightarrow> principal_data \<Rightarrow> transaction_contract_call \<Rightarrow> vm_step list \<Rightarrow> clarity_value \<Rightarrow> bool" where
  "call_runs vm ts B origin call body x \<longleftrightarrow>
     int_execute_contract vm origin (to_clarity_contract_id call) (call_function_name call) (call_function_args call)
       = (\<lambda>g. apfst (map_ok (\<lambda>_. x)) (run_steps ts B body g))
     \<and> list_all returns_response body"

lemma cost_since_same: "cost_since (cost_so_far conn) conn = Ok cost_zero"
  by (simp add: cost_since_def cost_sub_def field_wise_def cost_overflow_sub_def checked_sub_def cost_zero_def on_field_def)

definition well_recorded :: "(asset_identifier \<Rightarrow> bool) \<Rightarrow> transfer list \<Rightarrow> bool" where
  "well_recorded fungible log \<longleftrightarrow> stx_in_supply log \<and> burned_in log < 2 ^ 128 \<and> (\<forall>t \<in> set log. transfer_ok fungible t)"

text \<open>The receipt of a call that ran to its end, as its author accepts the transfers or not.\<close>

definition call_receipt :: "'header stacks_transaction \<Rightarrow> clarity_value \<Rightarrow> world \<Rightarrow> bool
    \<Rightarrow> ('header stacks_transaction, 'analysis, 'header) stacks_transaction_receipt" where
  "call_receipt tx x w ok = (if ok then from_contract_call else from_condition_aborted_contract_call)
     tx (w_events w) x (of_nat (burned_in (w_log w))) cost_zero"

lemma runtime_errors: "(\<exists>e' s. handle_clarity_runtime_error (from_interpreter_error e) = Acceptable e' s)
    \<longleftrightarrow> (\<exists>r t. e = Runtime r t) \<or> (\<exists>r. e = ShortReturn r)"
  by (cases e) (auto simp: from_interpreter_error_def split: check_errors.splits)

lemma not_aborted: "handle_clarity_runtime_error (from_interpreter_error e) \<noteq> AbortedByCallback v am evs"
  by (cases e) (auto simp: from_interpreter_error_def split: check_errors.splits)

context clarity_store
begin

lemma contract_call_rel:
  fixes conn :: "('s, 'ctx) clarity_tx_connection"
  assumes conn: "conn_rel ts reads rows tip conn (v # u # vs) ct"
    and run: "call_runs vm ts B origin call body x" "tx_payload tx = ContractCall call"
    and ok: "\<forall>c \<in> set (tx_post_conditions tx). condition_ok c"
      "\<And>w. spec_steps body (open_world v) = Ok w \<Longrightarrow> well_recorded fungible (w_log w)"
  shows "case spec_steps body (open_world v) of
      Ok w \<Rightarrow>
        let acc = accepts (tx_post_conditions tx) (tx_post_condition_mode tx) origin (w_log w) in
        \<exists>conn'. process_transaction_payload ts B vm tx origin conn = (Ok (call_receipt tx x w acc), conn')
          \<and> conn_rel ts reads rows tip conn' ((if acc then w_view w else v) # u # vs) ct
    | Err e \<Rightarrow> \<exists>r conn'. process_transaction_payload ts B vm tx origin conn = (r, conn')
        \<and> conn_rel ts reads rows tip conn' (v # u # vs) ct
        \<and> (if (\<exists>r t. e = Runtime r t) \<or> (\<exists>r. e = ShortReturn r)
           then r = Ok (from_contract_call tx [] err_none 0 cost_zero) else \<exists>er. r = Err er)
    | Panic \<Rightarrow> False"
proof -
  let ?check = "\<lambda>am. map_ok Not (check_transaction_postconditions (tx_post_conditions tx) (tx_post_condition_mode tx) origin am)"
  have steps: "list_all returns_response body" and exec: "int_execute_contract vm origin (to_clarity_contract_id call)
      (call_function_name call) (call_function_args call) = (\<lambda>g. apfst (map_ok (\<lambda>_. x)) (run_steps ts B body g))"
    using run(1) by (simp_all add: call_runs_def)
  have so_far: "cost_so_far conn' = cost_so_far conn" if "conn_rel ts reads rows tip conn' vs' ct" for conn' vs'
    using that conn by (simp add: conn_rel_def cost_so_far_def)
  show ?thesis
  proof (cases "spec_steps body (open_world v)")
    case (Ok w)
    define acc where "acc = accepts (tx_post_conditions tx) (tx_post_condition_mode tx) origin (w_log w)"
    have rec: "well_recorded fungible (w_log w)" using ok(2) [OF Ok] .
    have abort: "?check am = Ok (\<not> acc)" if "tracks am (w_log w)" for am
      using check_decides [OF that _ _ ok(1), where fungible = fungible] rec by (simp add: well_recorded_def acc_def)
    from with_abort_callback_rel [OF conn steps, of ?check "\<not> acc" x] Ok abort
    obtain am conn' where c: "with_abort_callback ts B (\<lambda>vm_env. apfst (map_err from_interpreter_error)
          (execute_in_env ts B (\<lambda>g. apfst (map_ok (\<lambda>_. x)) (run_steps ts B body g)) vm_env)) ?check conn
          = (Ok (x, am, w_events w, \<not> acc), conn')" "tracks am (w_log w)"
        "conn_rel ts reads rows tip conn' ((if acc then w_view w else v) # u # vs) ct"
      by (auto split: if_splits)
    from rec burned_total_tracks [OF c(2)] have "get_stx_burned_total am = Ok (of_nat (burned_in (w_log w)))"
      by (simp add: well_recorded_def)
    moreover have "cost_since (cost_so_far conn) conn' = Ok cost_zero"
      using cost_since_same [of conn'] so_far [OF c(3)] by simp
    ultimately have "process_transaction_payload ts B vm tx origin conn = (Ok (call_receipt tx x w acc), conn')"
      using c(1) by (simp add: process_transaction_payload_def run(2) process_contract_call_def run_contract_call_def exec
          call_receipt_def)
    with c(3) Ok show ?thesis by (simp add: acc_def)
  next
    case (Err e)
    from with_abort_callback_rel [OF conn steps, of ?check False x] Err
    obtain conn' where c: "with_abort_callback ts B (\<lambda>vm_env. apfst (map_err from_interpreter_error)
          (execute_in_env ts B (\<lambda>g. apfst (map_ok (\<lambda>_. x)) (run_steps ts B body g)) vm_env)) ?check conn
          = (Err (from_interpreter_error e), conn')" "conn_rel ts reads rows tip conn' (v # u # vs) ct"
      by auto
    have "cost_since (cost_so_far conn) conn' = Ok cost_zero"
      using cost_since_same [of conn'] so_far [OF c(2)] by simp
    moreover have "get_stx_burned_total asset_map_new = Ok 0"
      by (simp add: get_stx_burned_total_def asset_map_new_def)
    ultimately show ?thesis
      using c Err runtime_errors [of e] not_aborted [of e]
      by (cases "handle_clarity_runtime_error (from_interpreter_error e)")
        (auto simp: process_transaction_payload_def run(2) process_contract_call_def run_contract_call_def exec)
  next
    case Panic
    with with_abort_callback_rel [OF conn steps, of ?check False x] show ?thesis by simp
  qed
qed

end

lemma contract_call_memory:
  assumes "call_runs vm ts memory_backing_store origin call body x" "tx_payload tx = ContractCall call"
    and "\<forall>c \<in> set (tx_post_conditions tx). condition_ok c"
    and "spec_steps body (open_world (sqlite_get s)) = Ok w" "well_recorded fungible (w_log w)"
    and "acc = accepts (tx_post_conditions tx) (tx_post_condition_mode tx) origin (w_log w)"
  obtains conn s' ct' where
    "process_transaction_payload ts memory_backing_store vm tx origin
      (start_transaction_processing s (Some ct) mainnet epoch) = (Ok (call_receipt tx x w acc), conn)"
    "conn_commit ts memory_backing_store conn = Ok (s', ct')"
    "sqlite_get s' = (if acc then w_view w else sqlite_get s)"
proof -
  have "\<And>w'. spec_steps body (open_world (sqlite_get s)) = Ok w' \<Longrightarrow> well_recorded fungible (w_log w')"
    using assms(4,5) by simp
  from memory_store.contract_call_rel [OF memory_store.start_rel [of ts s ct mainnet epoch] assms(1-3) this] assms(4,6)
  obtain conn where conn: "process_transaction_payload ts memory_backing_store vm tx origin
      (start_transaction_processing s (Some ct) mainnet epoch) = (Ok (call_receipt tx x w acc), conn)"
    "conn_rel ts sqlite_get (\<lambda>conn. map_of (metadata_table conn)) (\<lambda>_. sentinel_block) conn
      [if acc then w_view w else sqlite_get s, sqlite_get s] ct"
    by (auto simp: Let_def)
  from memory_store.conn_commit_rel [OF conn(2)] that conn(1) show thesis by blast
qed

lemma call_receipt_fields:
  "receipt_events (call_receipt tx x w acc) = w_events w" "receipt_result (call_receipt tx x w acc) = x"
  "receipt_post_condition_aborted (call_receipt tx x w acc) \<longleftrightarrow> \<not> acc"
  by (simp_all add: call_receipt_def from_contract_call_def from_condition_aborted_contract_call_def)

text \<open>A call that writes an entry, sends STX and asks for a withdrawal.\<close>

definition sample_body :: "vm_step list" where
  "sample_body = [StepPut ''k'' ''1'', StepTransfer (SentStx sample_origin 100), StepEvent sample_withdrawal]"

definition sample_vm :: "(sqlite_conn, unit, unit, unit) interpreter" where
  "sample_vm = \<lparr>
     int_execute_contract = \<lambda>_ _ _ _ g. apfst (map_ok (\<lambda>_. okay_true)) (run_steps (\<lambda>_. []) memory_backing_store sample_body g),
     int_stx_transfer = \<lambda>_ _ _ g. (Ok okay_true, g), int_initialize_contract = \<lambda>_ _ _ g. (Ok (), g),
     int_analyze = \<lambda>_ _ conn. (Ok ((), ()), conn), int_save_analysis = \<lambda>_ _ conn. Ok conn,
     int_contract_exists = \<lambda>_ _. False\<rparr>"

definition sample_call :: transaction_contract_call where
  "sample_call = \<lparr>call_address = \<lparr>sa_version = 22, sa_bytes = Bytes20 (replicate 20 0)\<rparr>, call_contract_name = ''c'',
     call_function_name = ''f'', call_function_args = []\<rparr>"

text \<open>The call's transaction, with a bound on the STX sent.\<close>

definition sample_tx :: "u64 \<Rightarrow> unit stacks_transaction" where
  "sample_tx bound = \<lparr>tx_post_condition_mode = ModeDeny, tx_post_conditions = [CondSTX PCOrigin SentLe bound],
     tx_payload = ContractCall sample_call\<rparr>"

lemma sample_runs:
  "call_runs sample_vm (\<lambda>_. []) memory_backing_store sample_origin sample_call sample_body okay_true"
  by (simp add: call_runs_def sample_vm_def sample_body_def)

definition sample_world :: world where
  "sample_world = \<lparr>w_view = [''k'' \<mapsto> ''1''], w_log = [SentStx sample_origin 100], w_events = [sample_withdrawal]\<rparr>"

lemma sample_sent:
  "stx_sent (w_log sample_world) p = (if p = sample_origin then Some 100 else None)"
  "stx_burned (w_log sample_world) p = None" "tokens_sent (w_log sample_world) p a = None"
  "burned_in (w_log sample_world) = 0"
  by (auto simp: sample_world_def sent_single burned_in_def)

lemma sample_spec: "spec_steps sample_body (open_world (sqlite_get sqlite_memory)) = Ok sample_world"
proof -
  have "totals_fit [SentStx sample_origin 100]" by (auto simp: totals_fit_def sent_single split: if_splits)
  moreover have "sqlite_get sqlite_memory = Map.empty" by (simp add: sqlite_get_def sqlite_memory_def fun_eq_iff)
  ultimately show ?thesis by (simp add: sample_body_def open_world_def sample_world_def)
qed

lemma sample_recorded: "well_recorded (\<lambda>_. True) (w_log sample_world)"
  by (simp add: well_recorded_def stx_in_supply_def sample_sent) (simp add: sample_world_def)

lemma sample_accepts: "accepts (tx_post_conditions (sample_tx b)) (tx_post_condition_mode (sample_tx b))
    sample_origin (w_log sample_world) \<longleftrightarrow> 100 \<le> unat b"
  by (simp add: accepts_def sample_tx_def sample_sent) (simp add: sample_world_def)

section \<open>Properties\<close>







end
