(* ===== verification/Effects.thy ===== *)
theory Effects
  imports Prelude
begin

text \<open>
  Stateful fallible code: a method that mutates its receiver and returns a \<open>Result\<close> is a function
  from the state to a result and the state it leaves. \<open>bind_eff\<close> is the \<open>?\<close> operator followed by
  the rest of the method, \<open>of_result\<close> a call that does not touch the state and \<open>zoom\<close> a
  method call on a field.
\<close>

type_synonym ('s, 'e, 'a) eff = "'s \<Rightarrow> ('e, 'a) result \<times> 's"

definition ret :: "'a \<Rightarrow> ('s, 'e, 'a) eff" where
  "ret x s = (Ok x, s)"

definition raise :: "'e \<Rightarrow> ('s, 'e, 'a) eff" where
  "raise e s = (Err e, s)"

definition of_result :: "('e, 'a) result \<Rightarrow> ('s, 'e, 'a) eff" where
  "of_result r s = (r, s)"

definition bind_eff :: "('s, 'e, 'a) eff \<Rightarrow> ('a \<Rightarrow> ('s, 'e, 'b) eff) \<Rightarrow> ('s, 'e, 'b) eff" where
  "bind_eff m f s =
     (case m s of (Ok x, s) \<Rightarrow> f x s | (Err e, s) \<Rightarrow> (Err e, s) | (Panic, s) \<Rightarrow> (Panic, s))"

definition seq_eff :: "('s, 'e, unit) eff \<Rightarrow> ('s, 'e, 'b) eff \<Rightarrow> ('s, 'e, 'b) eff" where
  "seq_eff m n = bind_eff m (\<lambda>_. n)"

definition zoom :: "('t \<Rightarrow> 's) \<Rightarrow> ('s \<Rightarrow> 't \<Rightarrow> 't) \<Rightarrow> ('s, 'e, 'a) eff \<Rightarrow> ('t, 'e, 'a) eff" where
  "zoom field update m t = (let (r, s) = m (field t) in (r, update s t))"

text \<open>The conversion of an error by \<open>?\<close>.\<close>

definition convert_err :: "('e \<Rightarrow> 'f) \<Rightarrow> ('s, 'e, 'a) eff \<Rightarrow> ('s, 'f, 'a) eff" where
  "convert_err f m s = apfst (map_err f) (m s)"

lemma bind_eff_simps [simp]:
  "m s = (Ok x, s') \<Longrightarrow> bind_eff m f s = f x s'"
  "m s = (Err e, s') \<Longrightarrow> bind_eff m f s = (Err e, s')"
  "m s = (Panic, s') \<Longrightarrow> bind_eff m f s = (Panic, s')"
  by (simp_all add: bind_eff_def)

lemma ret_bind [simp]: "bind_eff (ret x) f = f x"
  by (rule ext) (simp add: bind_eff_def ret_def)

lemma raise_bind [simp]: "bind_eff (raise e) f = raise e"
  by (rule ext) (simp add: bind_eff_def raise_def)

lemma bind_assoc: "bind_eff (bind_eff m f) g = bind_eff m (\<lambda>x. bind_eff (f x) g)"
  by (rule ext) (simp add: bind_eff_def split: prod.splits result.splits)

lemma of_result_simps [simp]:
  "of_result (Ok x) = ret x" "of_result (Err e) = raise e"
  by (simp_all add: fun_eq_iff of_result_def ret_def raise_def)

end
