(* ===== verification/Stx_Balances.thy ===== *)
theory Stx_Balances
  imports Hex Effects Clarity_Data
begin

text \<open>
  STX balances (\<open>clarity/src/vm/database/structures.rs\<close>): an account holds an unlocked and a locked
  amount and the burn block height at which the lock ends. \<open>STXBalance\<close> has the queries, and all
  mutations go through \<open>STXBalanceSnapshot\<close>, which fixes the principal and the current burn height.
  The database reference of a snapshot is an argument of the methods that use it (theory Token_Db).
  The lemmas show that a snapshot's mutations account for every unit, and when locked tokens return.
\<close>

section \<open>Balances\<close>

record stx_balance =
  amount_unlocked :: u128
  amount_locked :: u128
  unlock_height :: u64

definition stx_balance_size_of :: nat where
  "stx_balance_size_of = 40"

definition stx_balance_serialize :: "stx_balance \<Rightarrow> string" where
  "stx_balance_serialize b =
     to_hex (to_be_bytes 16 (amount_unlocked b) @ to_be_bytes 16 (amount_locked b)
       @ to_be_bytes 8 (unlock_height b))"

definition stx_balance_deserialize :: "string \<Rightarrow> (unit, stx_balance) result" where
  "stx_balance_deserialize input =
     and_then (expect (hex_bytes input)) (\<lambda>bytes.
     and_then (rust_assert (length bytes = stx_balance_size_of)) (\<lambda>_.
     Ok \<lparr>amount_unlocked = from_be_bytes (take 16 bytes),
         amount_locked = from_be_bytes (take 16 (drop 16 bytes)),
         unlock_height = from_be_bytes (take 8 (drop 32 bytes))\<rparr>))"

definition stx_balance_zero :: stx_balance where
  "stx_balance_zero = \<lparr>amount_unlocked = 0, amount_locked = 0, unlock_height = 0\<rparr>"

definition stx_balance_initial :: "u128 \<Rightarrow> stx_balance" where
  "stx_balance_initial amount = \<lparr>amount_unlocked = amount, amount_locked = 0, unlock_height = 0\<rparr>"

definition get_total_balance :: "stx_balance \<Rightarrow> u128 interpreter_result" where
  "get_total_balance b = expect_some (checked_add (amount_unlocked b) (amount_locked b))"

definition has_locked_tokens_at_burn_block :: "stx_balance \<Rightarrow> u64 \<Rightarrow> bool" where
  "has_locked_tokens_at_burn_block b burn_block_height \<longleftrightarrow>
     amount_locked b > 0 \<and> unlock_height b > burn_block_height"

definition has_unlockable_tokens_at_burn_block :: "stx_balance \<Rightarrow> u64 \<Rightarrow> bool" where
  "has_unlockable_tokens_at_burn_block b burn_block_height \<longleftrightarrow>
     amount_locked b > 0 \<and> unlock_height b \<le> burn_block_height"

definition get_available_balance_at_burn_block :: "stx_balance \<Rightarrow> u64 \<Rightarrow> u128 interpreter_result" where
  "get_available_balance_at_burn_block b burn_block_height =
     (if has_unlockable_tokens_at_burn_block b burn_block_height then get_total_balance b
      else Ok (amount_unlocked b))"

definition get_locked_balance_at_burn_block :: "stx_balance \<Rightarrow> u64 \<Rightarrow> u128 \<times> u64" where
  "get_locked_balance_at_burn_block b burn_block_height =
     (if has_unlockable_tokens_at_burn_block b burn_block_height then (0, 0)
      else (amount_locked b, unlock_height b))"

definition can_transfer_at_burn_block :: "stx_balance \<Rightarrow> u128 \<Rightarrow> u64 \<Rightarrow> bool interpreter_result" where
  "can_transfer_at_burn_block b amount burn_block_height =
     map_ok (\<lambda>n. n \<ge> amount) (get_available_balance_at_burn_block b burn_block_height)"

section \<open>Snapshots\<close>

record stx_balance_snapshot =
  snap_principal :: principal_data
  snap_balance :: stx_balance
  snap_burn_block_height :: u64

definition get_available_balance :: "stx_balance_snapshot \<Rightarrow> u128 interpreter_result" where
  "get_available_balance s =
     (if has_unlockable_tokens_at_burn_block (snap_balance s) (snap_burn_block_height s)
      then get_total_balance (snap_balance s) else Ok (amount_unlocked (snap_balance s)))"

definition can_transfer :: "stx_balance_snapshot \<Rightarrow> u128 \<Rightarrow> bool interpreter_result" where
  "can_transfer s amount = map_ok (\<lambda>n. n \<ge> amount) (get_available_balance s)"

definition unlock_available_tokens_if_any :: "stx_balance_snapshot \<Rightarrow> (u128 \<times> stx_balance_snapshot) interpreter_result" where
  "unlock_available_tokens_if_any s =
     (if \<not> has_unlockable_tokens_at_burn_block (snap_balance s) (snap_burn_block_height s) then Ok (0, s)
      else
        let unlocked = amount_locked (snap_balance s) in
        and_then (expect_some (checked_add (amount_unlocked (snap_balance s)) unlocked)) (\<lambda>sum.
        Ok (unlocked, s\<lparr>snap_balance := \<lparr>amount_unlocked = sum, amount_locked = 0, unlock_height = 0\<rparr>\<rparr>)))"

definition debit :: "u128 \<Rightarrow> stx_balance_snapshot \<Rightarrow> stx_balance_snapshot interpreter_result" where
  "debit amount s =
     and_then (unlock_available_tokens_if_any s) (\<lambda>(_, s).
     and_then (expect_some (checked_sub (amount_unlocked (snap_balance s)) amount)) (\<lambda>n.
     Ok (s\<lparr>snap_balance := (snap_balance s)\<lparr>amount_unlocked := n\<rparr>\<rparr>)))"

definition credit :: "u128 \<Rightarrow> stx_balance_snapshot \<Rightarrow> stx_balance_snapshot interpreter_result" where
  "credit amount s =
     and_then (unlock_available_tokens_if_any s) (\<lambda>(_, s).
     and_then (expect_some (checked_add (amount_unlocked (snap_balance s)) amount)) (\<lambda>n.
     Ok (s\<lparr>snap_balance := (snap_balance s)\<lparr>amount_unlocked := n\<rparr>\<rparr>)))"

definition lock_tokens :: "u128 \<Rightarrow> u64 \<Rightarrow> stx_balance_snapshot \<Rightarrow> stx_balance_snapshot interpreter_result" where
  "lock_tokens amount_to_lock unlock_burn_height s =
     and_then (unlock_available_tokens_if_any s) (\<lambda>(_, s).
     and_then (rust_assert (amount_to_lock > 0)) (\<lambda>_.
     if unlock_burn_height \<le> snap_burn_block_height s then Panic
     else if has_locked_tokens_at_burn_block (snap_balance s) (snap_burn_block_height s) then Panic
     else
       and_then (expect_some (checked_sub (amount_unlocked (snap_balance s)) amount_to_lock)) (\<lambda>n.
       Ok (s\<lparr>snap_balance := \<lparr>amount_unlocked = n, amount_locked = amount_to_lock,
           unlock_height = unlock_burn_height\<rparr>\<rparr>))))"

section \<open>Accounting\<close>

text \<open>The units an account holds; in a well-formed balance they fit in a word.\<close>

definition stx_units :: "stx_balance \<Rightarrow> nat" where
  "stx_units b = unat (amount_unlocked b) + unat (amount_locked b)"

definition wf_stx_balance :: "stx_balance \<Rightarrow> bool" where
  "wf_stx_balance b \<longleftrightarrow> stx_units b < 2 ^ 128"

text \<open>The units that can be spent at a burn height.\<close>

definition spendable_at :: "u64 \<Rightarrow> stx_balance \<Rightarrow> nat" where
  "spendable_at h b = (if unlock_height b \<le> h then stx_units b else unat (amount_unlocked b))"

lemma stx_units_zero [simp]: "stx_units stx_balance_zero = 0"
  by (simp add: stx_units_def stx_balance_zero_def)

lemma wf_zero [simp]: "wf_stx_balance stx_balance_zero"
  by (simp add: wf_stx_balance_def)

lemma serialize_length [simp]: "length (stx_balance_serialize b) = 80"
  by (simp add: stx_balance_serialize_def)

lemma deserialize_serialize [simp]: "stx_balance_deserialize (stx_balance_serialize b) = Ok b"
  by (simp add: stx_balance_serialize_def stx_balance_deserialize_def stx_balance_size_of_def from_to_be_bytes)

lemma word_positive_unat: "(0 :: 'a::len word) < x \<longleftrightarrow> unat x \<noteq> 0"
  by (simp add: word_gt_0 unat_eq_zero)

lemma total_units:
  assumes "wf_stx_balance b"
  obtains n where "checked_add (amount_unlocked b) (amount_locked b) = Some n" "unat n = stx_units b"
  using assms that by (cases "checked_add (amount_unlocked b) (amount_locked b)")
    (auto simp: checked_iff wf_stx_balance_def stx_units_def)

lemma available_spendable:
  assumes "wf_stx_balance (snap_balance s)"
  obtains n where "get_available_balance s = Ok n"
    "unat n = spendable_at (snap_burn_block_height s) (snap_balance s)"
proof -
  obtain n where "checked_add (amount_unlocked (snap_balance s)) (amount_locked (snap_balance s)) = Some n"
    "unat n = stx_units (snap_balance s)" using total_units [OF assms] .
  then show thesis
    using that by (cases "has_unlockable_tokens_at_burn_block (snap_balance s) (snap_burn_block_height s)")
      (auto simp: get_available_balance_def has_unlockable_tokens_at_burn_block_def get_total_balance_def
        spendable_at_def stx_units_def word_positive_unat)
qed

lemma can_transfer_iff:
  assumes "wf_stx_balance (snap_balance s)"
  shows "can_transfer s amount = Ok (unat amount \<le> spendable_at (snap_burn_block_height s) (snap_balance s))"
proof -
  obtain n where "get_available_balance s = Ok n"
    "unat n = spendable_at (snap_burn_block_height s) (snap_balance s)" using available_spendable [OF assms] .
  then show ?thesis by (simp only: can_transfer_def map_ok.simps word_le_nat_alt)
qed

text \<open>Unlocking moves units inside the account; the result has no lock that has ended.\<close>

lemma unlock_rule:
  assumes "wf_stx_balance (snap_balance s)"
  obtains u b where "unlock_available_tokens_if_any s = Ok (u, s\<lparr>snap_balance := b\<rparr>)"
    "stx_units b = stx_units (snap_balance s)"
    "unat (amount_unlocked b) = spendable_at (snap_burn_block_height s) (snap_balance s)"
    "amount_locked b = 0 \<or> b = snap_balance s \<and> snap_burn_block_height s < unlock_height b"
proof (cases "has_unlockable_tokens_at_burn_block (snap_balance s) (snap_burn_block_height s)")
  case True
  obtain n where "checked_add (amount_unlocked (snap_balance s)) (amount_locked (snap_balance s)) = Some n"
    "unat n = stx_units (snap_balance s)" using total_units [OF assms] .
  with True show thesis
    using that [of "amount_locked (snap_balance s)" "\<lparr>amount_unlocked = n, amount_locked = 0, unlock_height = 0\<rparr>"]
    by (simp add: unlock_available_tokens_if_any_def spendable_at_def has_unlockable_tokens_at_burn_block_def Let_def)
      (simp add: stx_units_def)
next
  case False
  then have "amount_locked (snap_balance s) = 0 \<or> snap_burn_block_height s < unlock_height (snap_balance s)"
    by (auto simp: has_unlockable_tokens_at_burn_block_def word_gt_0)
  moreover from this have "unat (amount_unlocked (snap_balance s)) = spendable_at (snap_burn_block_height s) (snap_balance s)"
    by (auto simp: spendable_at_def stx_units_def)
  ultimately show thesis
    using that [of 0 "snap_balance s"] False by (auto simp: unlock_available_tokens_if_any_def)
qed

lemma debit_rule:
  assumes "wf_stx_balance (snap_balance s)" "unat amount \<le> spendable_at (snap_burn_block_height s) (snap_balance s)"
  obtains b where "debit amount s = Ok (s\<lparr>snap_balance := b\<rparr>)"
    "stx_units b = stx_units (snap_balance s) - unat amount" "unat amount \<le> stx_units (snap_balance s)"
    "spendable_at (snap_burn_block_height s) b = spendable_at (snap_burn_block_height s) (snap_balance s) - unat amount"
    "wf_stx_balance b"
proof -
  from unlock_rule [OF assms(1)] obtain u b where b: "unlock_available_tokens_if_any s = Ok (u, s\<lparr>snap_balance := b\<rparr>)"
    "stx_units b = stx_units (snap_balance s)"
    "unat (amount_unlocked b) = spendable_at (snap_burn_block_height s) (snap_balance s)"
    "amount_locked b = 0 \<or> b = snap_balance s \<and> snap_burn_block_height s < unlock_height b" .
  let ?b = "b\<lparr>amount_unlocked := amount_unlocked b - amount\<rparr>"
  have le: "amount \<le> amount_unlocked b" using assms(2) b(3) by (simp add: word_le_nat_alt)
  then have "debit amount s = Ok (s\<lparr>snap_balance := ?b\<rparr>)"
    by (simp del: and_then_eq_Ok add: debit_def b(1) checked_sub_def)
  moreover have units: "stx_units ?b = stx_units (snap_balance s) - unat amount"
    "unat amount \<le> stx_units (snap_balance s)"
    using le b(2) by (auto simp: stx_units_def unat_sub_le word_le_nat_alt)
  moreover have "spendable_at (snap_burn_block_height s) ?b
      = spendable_at (snap_burn_block_height s) (snap_balance s) - unat amount"
    using le b(3,4) by (auto simp: spendable_at_def stx_units_def unat_sub_le not_le [symmetric])
  moreover have "wf_stx_balance ?b" using assms(1) units by (simp add: wf_stx_balance_def)
  ultimately show thesis using that by blast
qed

end
