(* ===== verification/Token_Db.thy ===== *)
theory Token_Db
  imports Stx_Balances Principals Rollback
begin

text \<open>
  The asset functions of the Clarity database (\<open>clarity/src/vm/database/clarity_db.rs\<close>): the keys
  under which the state is stored, the supply and the balances of fungible tokens, the owners of
  non-fungible tokens, STX accounts, nonces and the liquid supply. A method of
  \<open>ClarityDatabase\<close> acts on the rollback wrapper below it. Parameters of the database: the backing
  store, the header database, the two hash functions and the JSON texts of \<open>serde_json\<close>.
\<close>

section \<open>The database\<close>

record fungible_token_metadata =
  ft_total_supply :: "u128 option"

record non_fungible_token_metadata =
  nft_key_type :: type_signature

text \<open>The JSON texts of the stored types that derive \<open>Serialize\<close> and \<open>Deserialize\<close>.\<close>

record json_codec =
  js_u128 :: "u128 \<Rightarrow> string"
  js_read_u128 :: "string \<Rightarrow> (unit, u128) result"
  js_u64 :: "u64 \<Rightarrow> string"
  js_read_u64 :: "string \<Rightarrow> (unit, u64) result"
  js_principal :: "principal_data \<Rightarrow> string"
  js_ft :: "fungible_token_metadata \<Rightarrow> string"
  js_read_ft :: "string \<Rightarrow> (unit, fungible_token_metadata) result"
  js_nft :: "non_fungible_token_metadata \<Rightarrow> string"
  js_read_nft :: "string \<Rightarrow> (unit, non_fungible_token_metadata) result"

text \<open>What is relied on of \<open>serde_json\<close>: numbers and token metadata are read as they were written, and
  different principals have different texts.\<close>

definition json_round_trips :: "json_codec \<Rightarrow> bool" where
  "json_round_trips J \<longleftrightarrow> (\<forall>n. js_read_u128 J (js_u128 J n) = Ok n) \<and> (\<forall>n. js_read_u64 J (js_u64 J n) = Ok n)
     \<and> inj (js_principal J) \<and> (\<forall>m. js_read_ft J (js_ft J m) = Ok m)"

record 's clarity_db =
  db_store :: "'s backing_store"
  db_burn_block_height :: "block_id \<Rightarrow> u32 option"
  db_sha256 :: "u8 list \<Rightarrow> bytes32"
  db_sha512_256 :: "u8 list \<Rightarrow> block_id"
  db_json :: json_codec

type_synonym ('s, 'a) db = "('s rollback_wrapper, vm_error, 'a) eff"

definition db_get :: "'s clarity_db \<Rightarrow> (string \<Rightarrow> (unit, 'a) result) \<Rightarrow> string \<Rightarrow> ('s, 'a option) db" where
  "db_get D deserialize key w = (expect (get deserialize (db_store D) w key), w)"

definition db_put :: "string \<Rightarrow> string \<Rightarrow> ('s, unit) db" where
  "db_put key serialized w = (case put w key serialized of Ok w' \<Rightarrow> (Ok (), w') | _ \<Rightarrow> (Panic, w))"

section \<open>Keys\<close>

datatype store_type =
    DataMap | Variable | FungibleToken | CirculatingSupply | NonFungibleToken | DataMapMeta | VariableMeta
  | FungibleTokenMeta | NonFungibleTokenMeta | ContractStore | SimmedBlock | SimmedBlockHeight | Nonce
  | StxBalanceStore | PoxSTXLockup | PoxUnlockHeight

primrec store_type_u8 :: "store_type \<Rightarrow> nat" where
  "store_type_u8 DataMap = 0x00"
| "store_type_u8 Variable = 0x01"
| "store_type_u8 FungibleToken = 0x02"
| "store_type_u8 CirculatingSupply = 0x03"
| "store_type_u8 NonFungibleToken = 0x04"
| "store_type_u8 DataMapMeta = 0x05"
| "store_type_u8 VariableMeta = 0x06"
| "store_type_u8 FungibleTokenMeta = 0x07"
| "store_type_u8 NonFungibleTokenMeta = 0x08"
| "store_type_u8 ContractStore = 0x09"
| "store_type_u8 SimmedBlock = 0x10"
| "store_type_u8 SimmedBlockHeight = 0x11"
| "store_type_u8 Nonce = 0x12"
| "store_type_u8 StxBalanceStore = 0x13"
| "store_type_u8 PoxSTXLockup = 0x14"
| "store_type_u8 PoxUnlockHeight = 0x15"

text \<open>The \<open>Display\<close> texts; they do not panic (lemma \<open>texts_defined\<close>).\<close>

definition contract_text :: "'s clarity_db \<Rightarrow> qualified_contract_identifier \<Rightarrow> string" where
  "contract_text D c = (case qci_to_string (db_sha256 D) c of Ok s \<Rightarrow> s | _ \<Rightarrow> [])"

definition principal_text :: "'s clarity_db \<Rightarrow> principal_data \<Rightarrow> string" where
  "principal_text D p = (case principal_to_string (db_sha256 D) p of Ok s \<Rightarrow> s | _ \<Rightarrow> [])"

definition make_key_for_trip :: "'s clarity_db \<Rightarrow> qualified_contract_identifier \<Rightarrow> store_type \<Rightarrow> string \<Rightarrow> string" where
  "make_key_for_trip D contract_identifier data var_name =
     ''vm::'' @ contract_text D contract_identifier @ ''::'' @ fmt_dec (store_type_u8 data) @ ''::'' @ var_name"

definition make_metadata_key :: "store_type \<Rightarrow> string \<Rightarrow> string" where
  "make_metadata_key data var_name = ''vm-metadata::'' @ fmt_dec (store_type_u8 data) @ ''::'' @ var_name"

definition make_key_for_quad :: "'s clarity_db \<Rightarrow> qualified_contract_identifier \<Rightarrow> store_type \<Rightarrow> string
    \<Rightarrow> string \<Rightarrow> string" where
  "make_key_for_quad D contract_identifier data var_name key_value =
     ''vm::'' @ contract_text D contract_identifier @ ''::'' @ fmt_dec (store_type_u8 data) @ ''::'' @ var_name
       @ ''::'' @ key_value"

definition make_key_for_account :: "'s clarity_db \<Rightarrow> principal_data \<Rightarrow> store_type \<Rightarrow> string" where
  "make_key_for_account D prin data =
     ''vm-account::'' @ principal_text D prin @ ''::'' @ fmt_dec (store_type_u8 data)"

definition ustx_liquid_supply_key :: string where
  "ustx_liquid_supply_key = ''_stx-data::ustx_liquid_supply''"

section \<open>Metadata\<close>

definition db_insert_metadata :: "'s clarity_db \<Rightarrow> qualified_contract_identifier \<Rightarrow> string \<Rightarrow> string
    \<Rightarrow> ('s, unit) db" where
  "db_insert_metadata D contract_identifier key data w =
     (case has_metadata_entry (contract_text D) (db_store D) w contract_identifier key of
        Ok exists \<Rightarrow>
          if exists then (Panic, w)
          else (case insert_metadata w contract_identifier key data of Ok w' \<Rightarrow> (Ok (), w') | _ \<Rightarrow> (Panic, w))
      | _ \<Rightarrow> (Panic, w))"

definition fetch_metadata :: "'s clarity_db \<Rightarrow> (string \<Rightarrow> (unit, 'a) result) \<Rightarrow> qualified_contract_identifier
    \<Rightarrow> string \<Rightarrow> 's rollback_wrapper \<Rightarrow> 'a option interpreter_result" where
  "fetch_metadata D deserialize contract_identifier key w =
     and_then (get_metadata (contract_text D) (db_store D) w contract_identifier key) (\<lambda>x_opt.
     case x_opt of None \<Rightarrow> Ok None | Some x \<Rightarrow> map_ok Some (expect (deserialize x)))"

definition map_no_contract_as_none :: "'a option interpreter_result \<Rightarrow> 'a option interpreter_result" where
  "map_no_contract_as_none res =
     (case res of
        Err e \<Rightarrow> (case e of Unchecked c \<Rightarrow> (case c of NoSuchContract _ \<Rightarrow> Ok None | _ \<Rightarrow> Err e) | _ \<Rightarrow> Err e)
      | _ \<Rightarrow> res)"

section \<open>Fungible tokens\<close>

definition create_fungible_token :: "'s clarity_db \<Rightarrow> qualified_contract_identifier \<Rightarrow> clarity_name
    \<Rightarrow> u128 option \<Rightarrow> ('s, fungible_token_metadata) db" where
  "create_fungible_token D contract_identifier token_name total_supply =
     (let data = \<lparr>ft_total_supply = total_supply\<rparr>;
          key = make_metadata_key FungibleTokenMeta token_name;
          supply_key = make_key_for_trip D contract_identifier CirculatingSupply token_name
      in seq_eff (db_insert_metadata D contract_identifier key (js_ft (db_json D) data))
         (seq_eff (db_put supply_key (js_u128 (db_json D) 0)) (ret data)))"

definition load_ft :: "'s clarity_db \<Rightarrow> qualified_contract_identifier \<Rightarrow> clarity_name
    \<Rightarrow> ('s, fungible_token_metadata) db" where
  "load_ft D contract_identifier token_name w =
     (and_then (map_no_contract_as_none (fetch_metadata D (js_read_ft (db_json D)) contract_identifier
        (make_metadata_key FungibleTokenMeta token_name) w)) (\<lambda>r.
      ok_or r (Unchecked (NoSuchFT token_name))), w)"

definition checked_increase_token_supply :: "'s clarity_db \<Rightarrow> qualified_contract_identifier \<Rightarrow> clarity_name
    \<Rightarrow> u128 \<Rightarrow> fungible_token_metadata \<Rightarrow> ('s, unit) db" where
  "checked_increase_token_supply D contract_identifier token_name amount descriptor =
     (let key = make_key_for_trip D contract_identifier CirculatingSupply token_name in
      bind_eff (db_get D (js_read_u128 (db_json D)) key) (\<lambda>found.
      bind_eff (of_result (expect_some found)) (\<lambda>current_supply.
      bind_eff (of_result (ok_or (checked_add current_supply amount) (Runtime RT_ArithmeticOverflow None))) (\<lambda>new_supply.
      case ft_total_supply descriptor of
        None \<Rightarrow> db_put key (js_u128 (db_json D) new_supply)
      | Some total_supply \<Rightarrow>
          if new_supply > total_supply then raise (Runtime (RT_SupplyOverflow new_supply total_supply) None)
          else db_put key (js_u128 (db_json D) new_supply)))))"

definition checked_decrease_token_supply :: "'s clarity_db \<Rightarrow> qualified_contract_identifier \<Rightarrow> clarity_name
    \<Rightarrow> u128 \<Rightarrow> ('s, unit) db" where
  "checked_decrease_token_supply D contract_identifier token_name amount =
     (let key = make_key_for_trip D contract_identifier CirculatingSupply token_name in
      bind_eff (db_get D (js_read_u128 (db_json D)) key) (\<lambda>found.
      bind_eff (of_result (expect_some found)) (\<lambda>current_supply.
      if amount > current_supply then raise (Runtime (RT_SupplyUnderflow current_supply amount) None)
      else db_put key (js_u128 (db_json D) (current_supply - amount)))))"

definition ft_balance_key :: "'s clarity_db \<Rightarrow> qualified_contract_identifier \<Rightarrow> clarity_name
    \<Rightarrow> principal_data \<Rightarrow> string" where
  "ft_balance_key D contract_identifier token_name prin =
     make_key_for_quad D contract_identifier FungibleToken token_name (js_principal (db_json D) prin)"

definition get_ft_balance :: "'s clarity_db \<Rightarrow> qualified_contract_identifier \<Rightarrow> clarity_name
    \<Rightarrow> principal_data \<Rightarrow> fungible_token_metadata option \<Rightarrow> ('s, u128) db" where
  "get_ft_balance D contract_identifier token_name prin descriptor =
     bind_eff (case descriptor of None \<Rightarrow> load_ft D contract_identifier token_name | Some d \<Rightarrow> ret d) (\<lambda>_.
     bind_eff (db_get D (js_read_u128 (db_json D)) (ft_balance_key D contract_identifier token_name prin)) (\<lambda>result.
     case result of None \<Rightarrow> ret 0 | Some balance \<Rightarrow> ret balance))"

definition set_ft_balance :: "'s clarity_db \<Rightarrow> qualified_contract_identifier \<Rightarrow> clarity_name
    \<Rightarrow> principal_data \<Rightarrow> u128 \<Rightarrow> ('s, unit) db" where
  "set_ft_balance D contract_identifier token_name prin balance =
     db_put (ft_balance_key D contract_identifier token_name prin) (js_u128 (db_json D) balance)"

definition get_ft_supply :: "'s clarity_db \<Rightarrow> qualified_contract_identifier \<Rightarrow> clarity_name \<Rightarrow> ('s, u128) db" where
  "get_ft_supply D contract_identifier token_name =
     bind_eff (db_get D (js_read_u128 (db_json D))
       (make_key_for_trip D contract_identifier CirculatingSupply token_name)) (\<lambda>supply.
     of_result (expect_some supply))"

section \<open>Non-fungible tokens\<close>

definition create_non_fungible_token :: "'s clarity_db \<Rightarrow> qualified_contract_identifier \<Rightarrow> clarity_name
    \<Rightarrow> type_signature \<Rightarrow> ('s, non_fungible_token_metadata) db" where
  "create_non_fungible_token D contract_identifier token_name key_type =
     (let data = \<lparr>nft_key_type = key_type\<rparr>;
          key = make_metadata_key NonFungibleTokenMeta token_name
      in seq_eff (db_insert_metadata D contract_identifier key (js_nft (db_json D) data)) (ret data))"

definition load_nft :: "'s clarity_db \<Rightarrow> qualified_contract_identifier \<Rightarrow> clarity_name
    \<Rightarrow> ('s, non_fungible_token_metadata) db" where
  "load_nft D contract_identifier token_name w =
     (and_then (map_no_contract_as_none (fetch_metadata D (js_read_nft (db_json D)) contract_identifier
        (make_metadata_key NonFungibleTokenMeta token_name) w)) (\<lambda>r.
      ok_or r (Unchecked (NoSuchNFT token_name))), w)"

definition get_nft_key_type :: "'s clarity_db \<Rightarrow> qualified_contract_identifier \<Rightarrow> clarity_name
    \<Rightarrow> ('s, type_signature) db" where
  "get_nft_key_type D contract_identifier asset_name =
     bind_eff (load_nft D contract_identifier asset_name) (\<lambda>descriptor. ret (nft_key_type descriptor))"

text \<open>The check and the key that start every access to the owner of an asset.\<close>

definition nft_owner_key :: "'s clarity_db \<Rightarrow> qualified_contract_identifier \<Rightarrow> clarity_name \<Rightarrow> clarity_value
    \<Rightarrow> type_signature \<Rightarrow> string interpreter_result" where
  "nft_owner_key D contract_identifier asset_name asset key_type =
     and_then (expect (admits key_type asset)) (\<lambda>admitted.
     if \<not> admitted then Err (Unchecked (TypeValueError key_type asset))
     else map_ok (make_key_for_quad D contract_identifier NonFungibleToken asset_name) (expect (value_serialize asset)))"

definition get_nft_owner :: "'s clarity_db \<Rightarrow> qualified_contract_identifier \<Rightarrow> clarity_name \<Rightarrow> clarity_value
    \<Rightarrow> type_signature \<Rightarrow> ('s, principal_data) db" where
  "get_nft_owner D contract_identifier asset_name asset key_type =
     bind_eff (of_result (nft_owner_key D contract_identifier asset_name asset key_type)) (\<lambda>key.
     bind_eff (db_get D (\<lambda>hex. expect (try_deserialize_hex_untyped hex)) key) (\<lambda>found.
     case found of
       None \<Rightarrow> raise (Runtime RT_NoSuchToken None)
     | Some owner \<Rightarrow>
         bind_eff (of_result (expect (expect_optional owner))) (\<lambda>owner.
         case owner of
           None \<Rightarrow> raise (Runtime RT_NoSuchToken None)
         | Some v \<Rightarrow> of_result (expect (expect_principal v)))))"

definition set_nft_owner :: "'s clarity_db \<Rightarrow> qualified_contract_identifier \<Rightarrow> clarity_name \<Rightarrow> clarity_value
    \<Rightarrow> principal_data \<Rightarrow> type_signature \<Rightarrow> ('s, unit) db" where
  "set_nft_owner D contract_identifier asset_name asset prin key_type =
     bind_eff (of_result (nft_owner_key D contract_identifier asset_name asset key_type)) (\<lambda>key.
     bind_eff (of_result (value_some (VPrincipal prin))) (\<lambda>v.
     bind_eff (of_result (expect (value_serialize v))) (db_put key)))"

definition burn_nft :: "'s clarity_db \<Rightarrow> qualified_contract_identifier \<Rightarrow> clarity_name \<Rightarrow> clarity_value
    \<Rightarrow> type_signature \<Rightarrow> ('s, unit) db" where
  "burn_nft D contract_identifier asset_name asset key_type =
     bind_eff (of_result (nft_owner_key D contract_identifier asset_name asset key_type)) (\<lambda>key.
     bind_eff (of_result (expect (value_serialize value_none))) (db_put key))"

section \<open>STX accounts\<close>

definition get_total_liquid_ustx :: "'s clarity_db \<Rightarrow> ('s, u128) db" where
  "get_total_liquid_ustx D w =
     (and_then (expect (get_value (db_store D) w ustx_liquid_supply_key UIntType)) (\<lambda>found.
      case found of None \<Rightarrow> Ok 0 | Some (v, _) \<Rightarrow> expect (expect_u128 v)), w)"

definition set_ustx_liquid_supply :: "u128 \<Rightarrow> ('s, unit) db" where
  "set_ustx_liquid_supply set_to =
     bind_eff (of_result (expect (value_serialize (VUInt set_to)))) (db_put ustx_liquid_supply_key)"

definition increment_ustx_liquid_supply :: "'s clarity_db \<Rightarrow> u128 \<Rightarrow> ('s, unit) db" where
  "increment_ustx_liquid_supply D incr_by =
     bind_eff (get_total_liquid_ustx D) (\<lambda>current.
     bind_eff (of_result (ok_or (checked_add current incr_by) (Runtime RT_ArithmeticOverflow None)))
       set_ustx_liquid_supply)"

definition decrement_ustx_liquid_supply :: "'s clarity_db \<Rightarrow> u128 \<Rightarrow> ('s, unit) db" where
  "decrement_ustx_liquid_supply D decr_by =
     bind_eff (get_total_liquid_ustx D) (\<lambda>current.
     bind_eff (of_result (ok_or (checked_sub current decr_by) (Runtime RT_ArithmeticUnderflow None)))
       set_ustx_liquid_supply)"

definition get_account_stx_balance :: "'s clarity_db \<Rightarrow> principal_data \<Rightarrow> ('s, stx_balance) db" where
  "get_account_stx_balance D prin =
     bind_eff (db_get D stx_balance_deserialize (make_key_for_account D prin StxBalanceStore)) (\<lambda>result.
     case result of None \<Rightarrow> ret stx_balance_zero | Some balance \<Rightarrow> ret balance)"

text \<open>The identifier of the first block hashes 32 zero bytes of block hash and 20 of consensus hash.\<close>

definition get_current_burnchain_block_height :: "'s clarity_db \<Rightarrow> 's rollback_wrapper \<Rightarrow> u32 interpreter_result" where
  "get_current_burnchain_block_height D w =
     and_then (expect (bs_get_current_block_height (db_store D) (store w))) (\<lambda>cur_stacks_height.
     and_then (if cur_stacks_height = 0 then Ok (db_sha512_256 D (replicate 32 0 @ replicate 20 0))
       else and_then (expect_some (checked_sub cur_stacks_height 1)) (\<lambda>h.
            and_then (expect (bs_get_block_at_height (db_store D) (store w) h)) expect_some)) (\<lambda>last_mined_bhh.
     expect_some (db_burn_block_height D last_mined_bhh)))"

definition get_stx_balance_snapshot :: "'s clarity_db \<Rightarrow> principal_data \<Rightarrow> ('s, stx_balance_snapshot) db" where
  "get_stx_balance_snapshot D prin =
     bind_eff (get_account_stx_balance D prin) (\<lambda>balance.
     bind_eff (\<lambda>w. (get_current_burnchain_block_height D w, w)) (\<lambda>height.
     ret \<lparr>snap_principal = prin, snap_balance = balance, snap_burn_block_height = ucast height\<rparr>))"

definition snapshot_save :: "'s clarity_db \<Rightarrow> stx_balance_snapshot \<Rightarrow> ('s, unit) db" where
  "snapshot_save D s =
     db_put (make_key_for_account D (snap_principal s) StxBalanceStore) (stx_balance_serialize (snap_balance s))"

definition transfer_to :: "'s clarity_db \<Rightarrow> stx_balance_snapshot \<Rightarrow> principal_data \<Rightarrow> u128 \<Rightarrow> ('s, unit) db" where
  "transfer_to D s recipient amount =
     bind_eff (of_result (can_transfer s amount)) (\<lambda>can.
     if \<not> can then raise (Interpreter IE_InsufficientBalance)
     else
       let recipient_key = make_key_for_account D recipient StxBalanceStore in
       bind_eff (db_get D stx_balance_deserialize recipient_key) (\<lambda>found.
       let recipient_balance = (case found of None \<Rightarrow> stx_balance_zero | Some b \<Rightarrow> b) in
       bind_eff (of_result (ok_or (checked_add (amount_unlocked recipient_balance) amount)
         (Runtime RT_ArithmeticOverflow None))) (\<lambda>sum.
       bind_eff (of_result (debit amount s)) (\<lambda>s.
       seq_eff (db_put recipient_key (stx_balance_serialize (recipient_balance\<lparr>amount_unlocked := sum\<rparr>)))
         (snapshot_save D s)))))"

definition get_account_nonce :: "'s clarity_db \<Rightarrow> principal_data \<Rightarrow> ('s, u64) db" where
  "get_account_nonce D prin =
     bind_eff (db_get D (js_read_u64 (db_json D)) (make_key_for_account D prin Nonce)) (\<lambda>result.
     case result of None \<Rightarrow> ret 0 | Some nonce \<Rightarrow> ret nonce)"

definition set_account_nonce :: "'s clarity_db \<Rightarrow> principal_data \<Rightarrow> u64 \<Rightarrow> ('s, unit) db" where
  "set_account_nonce D prin nonce = db_put (make_key_for_account D prin Nonce) (js_u64 (db_json D) nonce)"

section \<open>Keys are distinct\<close>

text \<open>The pieces of state a contract or an account has in the store.\<close>

datatype state_key =
    FtBalanceKey qualified_contract_identifier clarity_name principal_data
  | FtSupplyKey qualified_contract_identifier clarity_name
  | NftOwnerKey qualified_contract_identifier clarity_name string
  | VariableKey qualified_contract_identifier clarity_name
  | MapEntryKey qualified_contract_identifier clarity_name string
  | StxAccountKey principal_data
  | NonceKey principal_data
  | LiquidSupplyKey
  | ContractHashKey qualified_contract_identifier

fun key_text :: "'s clarity_db \<Rightarrow> state_key \<Rightarrow> string" where
  "key_text D (FtBalanceKey c t p) = ft_balance_key D c t p"
| "key_text D (FtSupplyKey c t) = make_key_for_trip D c CirculatingSupply t"
| "key_text D (NftOwnerKey c t asset) = make_key_for_quad D c NonFungibleToken t asset"
| "key_text D (VariableKey c v) = make_key_for_trip D c Variable v"
| "key_text D (MapEntryKey c m k) = make_key_for_quad D c DataMap m k"
| "key_text D (StxAccountKey p) = make_key_for_account D p StxBalanceStore"
| "key_text D (NonceKey p) = make_key_for_account D p Nonce"
| "key_text D LiquidSupplyKey = ustx_liquid_supply_key"
| "key_text D (ContractHashKey c) = make_contract_hash_key (contract_text D) c"

text \<open>Principals whose address has a base-32 text.\<close>

definition addressable :: "principal_data \<Rightarrow> bool" where
  "addressable p \<longleftrightarrow> wf_principal p \<and> principal_version p < 32"

fun wf_key :: "state_key \<Rightarrow> bool" where
  "wf_key (FtBalanceKey c t p) \<longleftrightarrow> addressable (Contract c) \<and> valid_clarity_name t"
| "wf_key (FtSupplyKey c t) \<longleftrightarrow> addressable (Contract c) \<and> valid_clarity_name t"
| "wf_key (NftOwnerKey c t asset) \<longleftrightarrow> addressable (Contract c) \<and> valid_clarity_name t"
| "wf_key (VariableKey c v) \<longleftrightarrow> addressable (Contract c) \<and> valid_clarity_name v"
| "wf_key (MapEntryKey c m k) \<longleftrightarrow> addressable (Contract c) \<and> valid_clarity_name m"
| "wf_key (StxAccountKey p) \<longleftrightarrow> addressable p"
| "wf_key (NonceKey p) \<longleftrightarrow> addressable p"
| "wf_key LiquidSupplyKey \<longleftrightarrow> True"
| "wf_key (ContractHashKey c) \<longleftrightarrow> addressable (Contract c)"

lemma separator_eq:
  assumes "CHR '':'' \<notin> set a" "CHR '':'' \<notin> set b"
  shows "a @ CHR '':'' # x = b @ CHR '':'' # y \<longleftrightarrow> a = b \<and> x = y"
proof
  assume eq: "a @ CHR '':'' # x = b @ CHR '':'' # y"
  have "takeWhile (\<lambda>c. c \<noteq> CHR '':'') (s @ CHR '':'' # z) = s" if "CHR '':'' \<notin> set s" for s z
    using that by (induction s) auto
  with eq assms have "a = b" by metis
  with eq show "a = b \<and> x = y" by simp
qed simp

lemma store_type_texts [simp]:
  "fmt_dec (store_type_u8 DataMap) = ''0''" "fmt_dec (store_type_u8 Variable) = ''1''"
  "fmt_dec (store_type_u8 FungibleToken) = ''2''" "fmt_dec (store_type_u8 CirculatingSupply) = ''3''"
  "fmt_dec (store_type_u8 NonFungibleToken) = ''4''" "fmt_dec (store_type_u8 Nonce) = ''18''"
  "fmt_dec (store_type_u8 StxBalanceStore) = ''19''"
  by code_simp+

declare store_type_u8.simps [simp del]

lemma name_no_colon:
  "valid_clarity_name s \<Longrightarrow> CHR '':'' \<notin> set s" "valid_contract_name s \<Longrightarrow> CHR '':'' \<notin> set s"
  by (auto simp: valid_clarity_name_iff valid_contract_name_iff CLARITY_NAME_REGEX_def CONTRACT_NAME_REGEX_def
      list_all_iff is_alpha_def is_digit_def char_code_def split: list.splits)

lemma text_no_colon:
  assumes "wf_principal p" "principal_to_string sha256 p = Ok s"
  shows "CHR '':'' \<notin> set s"
proof -
  have "CHR '':'' \<notin> set t" if "to_address sha256 q = Ok t" for q t
  proof -
    obtain v data where q: "q = StandardPrincipalData v data" by (cases q)
    have "CHR '':'' \<notin> set C32_CHARACTERS_old" by (simp add: C32_CHARACTERS_old_def)
    with that q c32_check_encode_chars show ?thesis
      by (fastforce simp: c32_address_def split: result.splits)
  qed
  with assms name_no_colon(2) show ?thesis by (cases p) auto
qed

lemma texts_defined:
  assumes "addressable p"
  shows "principal_to_string (db_sha256 D) p = Ok (principal_text D p)"
    and "principal_parse (db_sha256 D) (principal_text D p) = Ok p"
    and "CHR '':'' \<notin> set (principal_text D p)"
proof -
  obtain s where s: "principal_to_string (db_sha256 D) p = Ok s" "principal_parse (db_sha256 D) s = Ok p"
    using principal_text_parses [of p] assms unfolding addressable_def by blast
  then show "principal_to_string (db_sha256 D) p = Ok (principal_text D p)"
    "principal_parse (db_sha256 D) (principal_text D p) = Ok p" by (simp_all add: principal_text_def)
  with text_no_colon [of p] assms show "CHR '':'' \<notin> set (principal_text D p)"
    by (simp add: addressable_def)
qed

lemma contract_text_principal: "contract_text D c = principal_text D (Contract c)"
  by (simp add: contract_text_def principal_text_def qci_to_string_def)

lemma principal_text_inj:
  "\<lbrakk>addressable p; addressable q\<rbrakk> \<Longrightarrow> principal_text D p = principal_text D q \<longleftrightarrow> p = q"
  by (metis texts_defined(2) result.inject(1))

lemmas key_defs = ft_balance_key_def make_key_for_trip_def make_key_for_quad_def make_key_for_account_def
  ustx_liquid_supply_key_def make_contract_hash_key_def contract_text_principal

lemma key_text_inj:
  assumes "json_round_trips (db_json D)" "wf_key k" "wf_key k'"
  shows "key_text D k = key_text D k' \<longleftrightarrow> k = k'"
proof -
  have "inj (js_principal (db_json D))" using assms(1) by (simp add: json_round_trips_def)
  note facts = separator_eq this [THEN inj_eq] principal_text_inj texts_defined(3) name_no_colon(1)
  show ?thesis
    using assms(2,3) by (cases k; cases k') (simp_all add: key_defs facts)
qed

section \<open>A sample database\<close>

text \<open>A database over the memory store with hexadecimal texts in place of JSON.\<close>

fun sample_principal_text :: "principal_data \<Rightarrow> string" where
  "sample_principal_text (Standard (StandardPrincipalData v bs)) = ''s'' @ to_hex (v # bs)"
| "sample_principal_text (Contract c) =
     (case qci_issuer c of StandardPrincipalData v bs \<Rightarrow> ''c'' @ qci_name c @ ''.'' @ to_hex (v # bs))"

definition sample_json :: json_codec where
  "sample_json = \<lparr>
     js_u128 = \<lambda>n. to_hex (to_be_bytes 16 n),
     js_read_u128 = \<lambda>s. map_ok from_be_bytes (expect (hex_bytes s)),
     js_u64 = \<lambda>n. to_hex (to_be_bytes 8 n),
     js_read_u64 = \<lambda>s. map_ok from_be_bytes (expect (hex_bytes s)),
     js_principal = sample_principal_text,
     js_ft = \<lambda>m. (case ft_total_supply m of None \<Rightarrow> ''null'' | Some n \<Rightarrow> to_hex (to_be_bytes 16 n)),
     js_read_ft = \<lambda>s. (if s = ''null'' then Ok \<lparr>ft_total_supply = None\<rparr>
       else map_ok (\<lambda>bs. \<lparr>ft_total_supply = Some (from_be_bytes bs)\<rparr>) (expect (hex_bytes s))),
     js_nft = \<lambda>_. ''nft'',
     js_read_nft = \<lambda>_. Panic\<rparr>"

definition sample_db :: "sqlite_conn clarity_db" where
  "sample_db = \<lparr>db_store = memory_backing_store, db_burn_block_height = \<lambda>_. Some 7,
     db_sha256 = \<lambda>_. Bytes32 (replicate 32 9), db_sha512_256 = \<lambda>_. replicate 32 1, db_json = sample_json\<rparr>"

lemma dot_not_hex: "CHR ''.'' \<notin> set (to_hex bs)"
proof -
  have "CHR ''.'' \<noteq> hex_digit n" if "n < 16" for n
  proof -
    have "to_digit_16 (CHR ''.'') = None" by code_simp
    then show ?thesis using to_digit_hex_digit [OF that] by auto
  qed
  then have "CHR ''.'' \<noteq> hex_digit (unat b div 16)" "CHR ''.'' \<noteq> hex_digit (unat b mod 16)" for b :: u8
    using unat_bounds(1) [of b] by simp_all
  then show ?thesis by (simp add: to_hex_def)
qed

lemma last_dot_eq:
  assumes "CHR ''.'' \<notin> set x" "CHR ''.'' \<notin> set y"
  shows "a @ CHR ''.'' # x = b @ CHR ''.'' # y \<longleftrightarrow> a = b \<and> x = y"
proof
  assume "a @ CHR ''.'' # x = b @ CHR ''.'' # y"
  then have "rev (a @ CHR ''.'' # x) = rev (b @ CHR ''.'' # y)" by (rule arg_cong)
  then have eq: "rev x @ CHR ''.'' # rev a = rev y @ CHR ''.'' # rev b" by simp
  have "takeWhile (\<lambda>c. c \<noteq> CHR ''.'') (s @ CHR ''.'' # z) = s" if "CHR ''.'' \<notin> set s" for s z
    using that by (induction s) auto
  with eq assms have "rev x = rev y" by (metis set_rev)
  with eq show "a = b \<and> x = y" by simp
qed simp

lemma sample_principal_text_inj: "sample_principal_text p = sample_principal_text q \<longleftrightarrow> p = q"
proof -
  obtain v bs c w cs d where "p = Standard (StandardPrincipalData v bs)
      \<or> p = Contract \<lparr>qci_issuer = StandardPrincipalData v bs, qci_name = c\<rparr>"
    "q = Standard (StandardPrincipalData w cs)
      \<or> q = Contract \<lparr>qci_issuer = StandardPrincipalData w cs, qci_name = d\<rparr>"
    by (metis principal_data.exhaust standard_principal_data.exhaust qualified_contract_identifier.cases)
  then show ?thesis by (auto simp: last_dot_eq dot_not_hex)
qed

lemma sample_json_ok [simp]: "json_round_trips sample_json"
proof -
  have "to_hex (to_be_bytes 16 (n :: u128)) \<noteq> ''null''" for n
  proof
    assume "to_hex (to_be_bytes 16 n) = ''null''"
    then have "length (to_hex (to_be_bytes 16 n)) = length ''null''" by (rule arg_cong)
    then show False by simp
  qed
  then show ?thesis
    by (simp add: json_round_trips_def sample_json_def from_to_be_bytes inj_def sample_principal_text_inj
        split: option.splits)
qed

section \<open>Properties\<close>



end
