(* ===== verification/Asset_Natives.thy ===== *)
theory Asset_Natives
  imports Token_Db Global_Context
begin

text \<open>
  The native functions on assets (\<open>clarity/src/vm/functions/assets.rs\<close>): transfers, burns and
  withdrawals of STX, and minting, transferring, burning and withdrawing fungible and
  non-fungible tokens. A native gets its unevaluated arguments; the evaluator is a field of the
  environment. The functions that exist in a version for each epoch are one definition that chooses
  the size it charges by the epoch, in which the two versions differ.
\<close>

section \<open>Environment\<close>

text \<open>\<open>SymbolicExpression\<close>, without the identifiers and spans.\<close>

datatype trait_definition = Defined trait_identifier | Imported trait_identifier

datatype symbolic_expression =
    AtomValue clarity_value
  | Atom clarity_name
  | ListExpr "symbolic_expression list"
  | LiteralValue clarity_value
  | Field trait_identifier
  | TraitReference clarity_name trait_definition

fun match_atom :: "symbolic_expression \<Rightarrow> clarity_name option" where
  "match_atom (Atom name) = Some name"
| "match_atom _ = None"

text \<open>The fields of \<open>Environment\<close> and of its contract context that the natives use.\<close>

record ('s, 'ctx, 'l) environment =
  env_database :: "'s clarity_db"
  env_costs :: "'ctx cost_env"
  env_sender :: "principal_data option"
  env_contract_identifier :: qualified_contract_identifier
  env_meta_ft :: "(clarity_name \<times> fungible_token_metadata) list"
  env_meta_nft :: "(clarity_name \<times> non_fungible_token_metadata) list"
  env_eval :: "symbolic_expression \<Rightarrow> 'l \<Rightarrow> ('s, 'ctx) global_context \<Rightarrow> ('s, 'ctx, clarity_value) gc_result"

type_synonym ('s, 'ctx, 'a) vm = "(('s, 'ctx) global_context, vm_error, 'a) eff"

definition check_argument_count :: "nat \<Rightarrow> 'a list \<Rightarrow> unit interpreter_result" where
  "check_argument_count expected args =
     (if length args \<noteq> expected then Err (Unchecked (IncorrectArgumentCount expected (length args))) else Ok ())"

fun check_error_from_cost :: "cost_errors \<Rightarrow> check_errors" where
  "check_error_from_cost CE_CostOverflow = CostOverflow"
| "check_error_from_cost (CE_CostBalanceExceeded a b) = CostBalanceExceeded a b"
| "check_error_from_cost (CE_MemoryBalanceExceeded a b) = MemoryBalanceExceeded a b"
| "check_error_from_cost (CE_CostComputationFailed s) = CostComputationFailed s"
| "check_error_from_cost CE_CostContractLoadFailure = CostComputationFailed ''Failed to load cost contract''"

text \<open>Charging the tracker of the global context, and methods of its database.\<close>

definition on_tracker :: "('ctx limited_cost_tracker, cost_errors, 'a) eff \<Rightarrow> ('s, 'ctx, 'a) vm" where
  "on_tracker m = convert_err (\<lambda>e. Unchecked (check_error_from_cost e))
     (zoom gc_cost_track (\<lambda>t g. g\<lparr>gc_cost_track := t\<rparr>) m)"

definition on_db :: "('s, 'a) db \<Rightarrow> ('s, 'ctx, 'a) vm" where
  "on_db m = zoom gc_database (\<lambda>w g. g\<lparr>gc_database := w\<rparr>) m"

definition env_runtime_cost :: "('s, 'ctx, 'l) environment \<Rightarrow> clarity_cost_function \<Rightarrow> u64 \<Rightarrow> ('s, 'ctx, unit) vm" where
  "env_runtime_cost E f input = on_tracker (runtime_cost (limited_tracker (env_costs E)) f (Some input))"

definition env_add_memory :: "u64 \<Rightarrow> ('s, 'ctx, unit) vm" where
  "env_add_memory memory = on_tracker (add_memory memory)"

text \<open>\<open>env.add_memory(t.size() as u64)\<close>\<close>

definition add_type_memory :: "type_signature \<Rightarrow> ('s, 'ctx, unit) vm" where
  "add_type_memory t = bind_eff (of_result (sig_size t)) (\<lambda>n. env_add_memory (ucast n))"

text \<open>A match on the result of \<open>get_nft_owner\<close> that singles out \<open>NoSuchToken\<close>.\<close>

definition on_no_such_token :: "('s, vm_error, 'a) eff \<Rightarrow> ('s, vm_error, 'b) eff \<Rightarrow> ('a \<Rightarrow> ('s, vm_error, 'b) eff)
    \<Rightarrow> ('s, vm_error, 'b) eff" where
  "on_no_such_token m none some s =
     (case m s of
        (Ok x, s) \<Rightarrow> some x s
      | (Err e, s) \<Rightarrow>
          (case e of Runtime rt _ \<Rightarrow> (case rt of RT_NoSuchToken \<Rightarrow> none s | _ \<Rightarrow> (Err e, s)) | _ \<Rightarrow> (Err e, s))
      | (Panic, s) \<Rightarrow> (Panic, s))"

section \<open>STX\<close>

definition special_stx_balance :: "('s, 'ctx, 'l) environment \<Rightarrow> symbolic_expression list \<Rightarrow> 'l
    \<Rightarrow> ('s, 'ctx, clarity_value) vm" where
  "special_stx_balance E args context =
     seq_eff (of_result (check_argument_count 1 args))
     (seq_eff (env_runtime_cost E CF_StxBalance 0)
     (bind_eff (env_eval E (args ! 0) context) (\<lambda>owner.
      case owner of
        VPrincipal prin \<Rightarrow>
          bind_eff (on_db (get_stx_balance_snapshot (env_database E) prin)) (\<lambda>snapshot.
          bind_eff (of_result (get_available_balance snapshot)) (\<lambda>balance. ret (VUInt balance)))
      | _ \<Rightarrow> raise (Unchecked (TypeValueError PrincipalType owner)))))"

definition stx_transfer_consolidated :: "('s, 'ctx, 'l) environment \<Rightarrow> principal_data \<Rightarrow> principal_data \<Rightarrow> u128
    \<Rightarrow> ('s, 'ctx, clarity_value) vm" where
  "stx_transfer_consolidated E from to amount =
     (if amount = 0 then ret (err_uint 3)
      else if from = to then ret (err_uint 2)
      else if Some from \<noteq> env_sender E then ret (err_uint 4)
      else
        seq_eff (add_type_memory PrincipalType)
        (seq_eff (add_type_memory PrincipalType)
        (seq_eff (env_add_memory (of_nat stx_balance_size_of))
        (seq_eff (env_add_memory (of_nat stx_balance_size_of))
        (bind_eff (on_db (get_stx_balance_snapshot (env_database E) from)) (\<lambda>sender_snapshot.
         bind_eff (of_result (can_transfer sender_snapshot amount)) (\<lambda>can.
         if \<not> can then ret (err_uint 1)
         else
           seq_eff (on_db (transfer_to (env_database E) sender_snapshot to amount))
           (seq_eff (log_stx_transfer from amount)
           (seq_eff (register_stx_transfer_event from to amount)
           (ret okay_true))))))))))"

definition special_stx_transfer :: "('s, 'ctx, 'l) environment \<Rightarrow> symbolic_expression list \<Rightarrow> 'l
    \<Rightarrow> ('s, 'ctx, clarity_value) vm" where
  "special_stx_transfer E args context =
     seq_eff (of_result (check_argument_count 3 args))
     (seq_eff (env_runtime_cost E CF_StxTransfer 0)
     (bind_eff (env_eval E (args ! 0) context) (\<lambda>amount_val.
      bind_eff (env_eval E (args ! 1) context) (\<lambda>from_val.
      bind_eff (env_eval E (args ! 2) context) (\<lambda>to_val.
      case (from_val, to_val, amount_val) of
        (VPrincipal from, VPrincipal to, VUInt amount) \<Rightarrow> stx_transfer_consolidated E from to amount
      | _ \<Rightarrow> raise (Unchecked BadTransferSTXArguments))))))"

definition special_stx_burn :: "('s, 'ctx, 'l) environment \<Rightarrow> symbolic_expression list \<Rightarrow> 'l
    \<Rightarrow> ('s, 'ctx, clarity_value) vm" where
  "special_stx_burn E args context =
     seq_eff (of_result (check_argument_count 2 args))
     (seq_eff (env_runtime_cost E CF_StxTransfer 0)
     (bind_eff (env_eval E (args ! 0) context) (\<lambda>amount_val.
      bind_eff (env_eval E (args ! 1) context) (\<lambda>from_val.
      case (from_val, amount_val) of
        (VPrincipal from, VUInt amount) \<Rightarrow>
          if amount = 0 then ret (err_uint 3)
          else if Some from \<noteq> env_sender E then ret (err_uint 4)
          else
            seq_eff (add_type_memory PrincipalType)
            (seq_eff (env_add_memory (of_nat stx_balance_size_of))
            (bind_eff (on_db (get_stx_balance_snapshot (env_database E) from)) (\<lambda>burner_snapshot.
             bind_eff (of_result (can_transfer burner_snapshot amount)) (\<lambda>can.
             if \<not> can then ret (err_uint 1)
             else
               bind_eff (of_result (debit amount burner_snapshot)) (\<lambda>burner_snapshot.
               seq_eff (on_db (snapshot_save (env_database E) burner_snapshot))
               (seq_eff (on_db (decrement_ustx_liquid_supply (env_database E) amount))
               (seq_eff (log_stx_burn from amount)
               (seq_eff (register_stx_burn_event from amount)
               (ret okay_true)))))))))
      | _ \<Rightarrow> raise (Unchecked BadTransferSTXArguments)))))"

definition special_stx_withdraw :: "('s, 'ctx, 'l) environment \<Rightarrow> symbolic_expression list \<Rightarrow> 'l
    \<Rightarrow> ('s, 'ctx, clarity_value) vm" where
  "special_stx_withdraw E args context =
     seq_eff (of_result (check_argument_count 2 args))
     (seq_eff (env_runtime_cost E CF_StxWithdraw 0)
     (bind_eff (env_eval E (args ! 0) context) (\<lambda>amount_val.
      bind_eff (env_eval E (args ! 1) context) (\<lambda>from_val.
      case (from_val, amount_val) of
        (VPrincipal from, VUInt amount) \<Rightarrow>
          if amount = 0 then ret (err_uint 3)
          else if Some from \<noteq> env_sender E then ret (err_uint 4)
          else
            seq_eff (add_type_memory PrincipalType)
            (seq_eff (env_add_memory (of_nat stx_balance_size_of))
            (bind_eff (on_db (get_stx_balance_snapshot (env_database E) from)) (\<lambda>withdrawer_snapshot.
             bind_eff (of_result (can_transfer withdrawer_snapshot amount)) (\<lambda>can.
             if \<not> can then ret (err_uint 1)
             else
               bind_eff (of_result (debit amount withdrawer_snapshot)) (\<lambda>withdrawer_snapshot.
               seq_eff (on_db (snapshot_save (env_database E) withdrawer_snapshot))
               (seq_eff (on_db (decrement_ustx_liquid_supply (env_database E) amount))
               (seq_eff (log_stx_burn from amount)
               (seq_eff (register_stx_withdraw_event from amount)
               (ret okay_true)))))))))
      | _ \<Rightarrow> raise (Unchecked BadTransferSTXArguments)))))"

section \<open>Fungible tokens\<close>

definition token_name_arg :: "symbolic_expression \<Rightarrow> clarity_name interpreter_result" where
  "token_name_arg arg = ok_or (match_atom arg) (Unchecked BadTokenName)"

definition env_asset_identifier :: "('s, 'ctx, 'l) environment \<Rightarrow> clarity_name \<Rightarrow> asset_identifier" where
  "env_asset_identifier E name = \<lparr>ai_contract_identifier = env_contract_identifier E, ai_asset_name = name\<rparr>"

definition env_ft_info :: "('s, 'ctx, 'l) environment \<Rightarrow> clarity_name \<Rightarrow> fungible_token_metadata interpreter_result" where
  "env_ft_info E token_name = ok_or (map_of (env_meta_ft E) token_name) (Unchecked (NoSuchFT token_name))"

definition special_mint_token :: "('s, 'ctx, 'l) environment \<Rightarrow> symbolic_expression list \<Rightarrow> 'l
    \<Rightarrow> ('s, 'ctx, clarity_value) vm" where
  "special_mint_token E args context =
     seq_eff (of_result (check_argument_count 3 args))
     (seq_eff (env_runtime_cost E CF_FtMint 0)
     (bind_eff (of_result (token_name_arg (args ! 0))) (\<lambda>token_name.
      bind_eff (env_eval E (args ! 1) context) (\<lambda>amount.
      bind_eff (env_eval E (args ! 2) context) (\<lambda>to.
      case (amount, to) of
        (VUInt amount, VPrincipal to_principal) \<Rightarrow>
          if amount = 0 then ret (err_uint 1)
          else
            let D = env_database E; contract = env_contract_identifier E in
            bind_eff (of_result (env_ft_info E token_name)) (\<lambda>ft_info.
            seq_eff (on_db (checked_increase_token_supply D contract token_name amount ft_info))
            (bind_eff (on_db (get_ft_balance D contract token_name to_principal (Some ft_info))) (\<lambda>to_bal.
             bind_eff (of_result (expect_some (checked_add to_bal amount))) (\<lambda>final_to_bal.
             seq_eff (add_type_memory PrincipalType)
             (seq_eff (add_type_memory UIntType)
             (seq_eff (on_db (set_ft_balance D contract token_name to_principal final_to_bal))
             (seq_eff (register_ft_mint_event to_principal amount (env_asset_identifier E token_name))
             (ret okay_true))))))))
      | _ \<Rightarrow> raise (Unchecked BadMintFTArguments))))))"

definition special_transfer_token :: "('s, 'ctx, 'l) environment \<Rightarrow> symbolic_expression list \<Rightarrow> 'l
    \<Rightarrow> ('s, 'ctx, clarity_value) vm" where
  "special_transfer_token E args context =
     seq_eff (of_result (check_argument_count 4 args))
     (seq_eff (env_runtime_cost E CF_FtTransfer 0)
     (bind_eff (of_result (token_name_arg (args ! 0))) (\<lambda>token_name.
      bind_eff (env_eval E (args ! 1) context) (\<lambda>amount.
      bind_eff (env_eval E (args ! 2) context) (\<lambda>from.
      bind_eff (env_eval E (args ! 3) context) (\<lambda>to.
      case (amount, from, to) of
        (VUInt amount, VPrincipal from_principal, VPrincipal to_principal) \<Rightarrow>
          if amount = 0 then ret (err_uint 3)
          else if from_principal = to_principal then ret (err_uint 2)
          else
            let D = env_database E; contract = env_contract_identifier E in
            bind_eff (of_result (env_ft_info E token_name)) (\<lambda>ft_info.
            bind_eff (on_db (get_ft_balance D contract token_name from_principal (Some ft_info))) (\<lambda>from_bal.
            if from_bal < amount then ret (err_uint 1)
            else
              bind_eff (on_db (get_ft_balance D contract token_name to_principal (Some ft_info))) (\<lambda>to_bal.
              bind_eff (of_result (ok_or (checked_add to_bal amount) (Runtime RT_ArithmeticOverflow None))) (\<lambda>final_to_bal.
              seq_eff (add_type_memory PrincipalType)
              (seq_eff (add_type_memory PrincipalType)
              (seq_eff (add_type_memory UIntType)
              (seq_eff (add_type_memory UIntType)
              (seq_eff (on_db (set_ft_balance D contract token_name from_principal (from_bal - amount)))
              (seq_eff (on_db (set_ft_balance D contract token_name to_principal final_to_bal))
              (seq_eff (log_token_transfer from_principal contract token_name amount)
              (seq_eff (register_ft_transfer_event from_principal to_principal amount (env_asset_identifier E token_name))
              (ret okay_true))))))))))))
      | _ \<Rightarrow> raise (Unchecked BadTransferFTArguments)))))))"

definition special_get_balance :: "('s, 'ctx, 'l) environment \<Rightarrow> symbolic_expression list \<Rightarrow> 'l
    \<Rightarrow> ('s, 'ctx, clarity_value) vm" where
  "special_get_balance E args context =
     seq_eff (of_result (check_argument_count 2 args))
     (seq_eff (env_runtime_cost E CF_FtBalance 0)
     (bind_eff (of_result (token_name_arg (args ! 0))) (\<lambda>token_name.
      bind_eff (env_eval E (args ! 1) context) (\<lambda>owner.
      case owner of
        VPrincipal prin \<Rightarrow>
          bind_eff (of_result (env_ft_info E token_name)) (\<lambda>ft_info.
          bind_eff (on_db (get_ft_balance (env_database E) (env_contract_identifier E) token_name prin (Some ft_info)))
            (\<lambda>balance. ret (VUInt balance)))
      | _ \<Rightarrow> raise (Unchecked (TypeValueError PrincipalType owner))))))"

definition special_get_token_supply :: "('s, 'ctx, 'l) environment \<Rightarrow> symbolic_expression list \<Rightarrow> 'l
    \<Rightarrow> ('s, 'ctx, clarity_value) vm" where
  "special_get_token_supply E args context =
     seq_eff (of_result (check_argument_count 1 args))
     (seq_eff (env_runtime_cost E CF_FtSupply 0)
     (bind_eff (of_result (token_name_arg (args ! 0))) (\<lambda>token_name.
      bind_eff (on_db (get_ft_supply (env_database E) (env_contract_identifier E) token_name))
        (\<lambda>supply. ret (VUInt supply)))))"

definition special_burn_token :: "('s, 'ctx, 'l) environment \<Rightarrow> symbolic_expression list \<Rightarrow> 'l
    \<Rightarrow> ('s, 'ctx, clarity_value) vm" where
  "special_burn_token E args context =
     seq_eff (of_result (check_argument_count 3 args))
     (seq_eff (env_runtime_cost E CF_FtBurn 0)
     (bind_eff (of_result (token_name_arg (args ! 0))) (\<lambda>token_name.
      bind_eff (env_eval E (args ! 1) context) (\<lambda>amount.
      bind_eff (env_eval E (args ! 2) context) (\<lambda>from.
      case (amount, from) of
        (VUInt amount, VPrincipal burner) \<Rightarrow>
          if amount = 0 then ret (err_uint 1)
          else
            let D = env_database E; contract = env_contract_identifier E in
            bind_eff (on_db (get_ft_balance D contract token_name burner None)) (\<lambda>burner_bal.
            if amount > burner_bal then ret (err_uint 1)
            else
              seq_eff (on_db (checked_decrease_token_supply D contract token_name amount))
              (seq_eff (on_db (set_ft_balance D contract token_name burner (burner_bal - amount)))
              (seq_eff (register_ft_burn_event burner amount (env_asset_identifier E token_name))
              (seq_eff (add_type_memory PrincipalType)
              (seq_eff (add_type_memory UIntType)
              (seq_eff (log_token_transfer burner contract token_name amount)
              (ret okay_true)))))))
      | _ \<Rightarrow> raise (Unchecked BadBurnFTArguments))))))"

definition special_withdraw_token :: "('s, 'ctx, 'l) environment \<Rightarrow> symbolic_expression list \<Rightarrow> 'l
    \<Rightarrow> ('s, 'ctx, clarity_value) vm" where
  "special_withdraw_token E args context =
     seq_eff (of_result (check_argument_count 3 args))
     (seq_eff (env_runtime_cost E CF_FtWithdraw 0)
     (bind_eff (of_result (token_name_arg (args ! 0))) (\<lambda>token_name.
      bind_eff (env_eval E (args ! 1) context) (\<lambda>amount.
      bind_eff (env_eval E (args ! 2) context) (\<lambda>from.
      case (amount, from) of
        (VUInt amount, VPrincipal withdrawer) \<Rightarrow>
          if amount = 0 then ret (err_uint 3)
          else
            let D = env_database E; contract = env_contract_identifier E in
            bind_eff (on_db (get_ft_balance D contract token_name withdrawer None)) (\<lambda>withdrawer_bal.
            if amount > withdrawer_bal then ret (err_uint 1)
            else
              seq_eff (on_db (checked_decrease_token_supply D contract token_name amount))
              (seq_eff (on_db (set_ft_balance D contract token_name withdrawer (withdrawer_bal - amount)))
              (seq_eff (register_ft_withdraw_event withdrawer amount (env_asset_identifier E token_name))
              (seq_eff (add_type_memory PrincipalType)
              (seq_eff (add_type_memory UIntType)
              (seq_eff (log_token_transfer withdrawer contract token_name amount)
              (ret okay_true)))))))
      | _ \<Rightarrow> raise (Unchecked BadWithdrawFTArguments))))))"

section \<open>Non-fungible tokens\<close>

definition env_nft_key_type :: "('s, 'ctx, 'l) environment \<Rightarrow> clarity_name \<Rightarrow> type_signature interpreter_result" where
  "env_nft_key_type E asset_name =
     map_ok nft_key_type (ok_or (map_of (env_meta_nft E) asset_name) (Unchecked (NoSuchNFT asset_name)))"

text \<open>
  The size an NFT function charges and adds to the memory: the size of the declared type in epoch
  2.0, and the serialized size of the asset in epoch 2.05; \<open>switch_on_global_epoch!\<close> panics in epoch 1.0.
\<close>

definition nft_size :: "stacks_epoch_id \<Rightarrow> type_signature \<Rightarrow> clarity_value \<Rightarrow> u64 interpreter_result" where
  "nft_size epoch expected_asset_type asset =
     (case epoch of
        Epoch10 \<Rightarrow> Panic
      | Epoch20 \<Rightarrow> map_ok ucast (sig_size expected_asset_type)
      | Epoch2_05 \<Rightarrow> map_ok ucast (expect (serialized_size asset)))"

definition env_epoch :: "('s, 'ctx, stacks_epoch_id) vm" where
  "env_epoch g = (if gc_epoch_id g = Epoch10 then (Panic, g) else (Ok (gc_epoch_id g), g))"

definition admits_or_raise :: "type_signature \<Rightarrow> clarity_value \<Rightarrow> unit interpreter_result" where
  "admits_or_raise expected_asset_type asset =
     and_then (expect (admits expected_asset_type asset)) (\<lambda>admitted.
     if \<not> admitted then Err (Unchecked (TypeValueError expected_asset_type asset)) else Ok ())"

definition special_mint_asset :: "('s, 'ctx, 'l) environment \<Rightarrow> symbolic_expression list \<Rightarrow> 'l
    \<Rightarrow> ('s, 'ctx, clarity_value) vm" where
  "special_mint_asset E args context =
     bind_eff env_epoch (\<lambda>epoch.
     seq_eff (of_result (check_argument_count 3 args))
     (bind_eff (of_result (token_name_arg (args ! 0))) (\<lambda>asset_name.
      bind_eff (env_eval E (args ! 1) context) (\<lambda>asset.
      bind_eff (env_eval E (args ! 2) context) (\<lambda>to.
      bind_eff (of_result (env_nft_key_type E asset_name)) (\<lambda>expected_asset_type.
      bind_eff (of_result (nft_size epoch expected_asset_type asset)) (\<lambda>asset_size.
      seq_eff (env_runtime_cost E CF_NftMint asset_size)
      (seq_eff (of_result (admits_or_raise expected_asset_type asset))
      (let D = env_database E; contract = env_contract_identifier E in
       case to of
         VPrincipal to_principal \<Rightarrow>
           on_no_such_token (on_db (get_nft_owner D contract asset_name asset expected_asset_type))
             (seq_eff (add_type_memory PrincipalType)
             (seq_eff (env_add_memory asset_size)
             (seq_eff (on_db (set_nft_owner D contract asset_name asset to_principal expected_asset_type))
             (seq_eff (register_nft_mint_event to_principal asset (env_asset_identifier E asset_name))
             (ret okay_true)))))
             (\<lambda>_. ret (err_uint 1))
       | _ \<Rightarrow> raise (Unchecked (TypeValueError PrincipalType to)))))))))))"

definition special_transfer_asset :: "('s, 'ctx, 'l) environment \<Rightarrow> symbolic_expression list \<Rightarrow> 'l
    \<Rightarrow> ('s, 'ctx, clarity_value) vm" where
  "special_transfer_asset E args context =
     bind_eff env_epoch (\<lambda>epoch.
     seq_eff (of_result (check_argument_count 4 args))
     (bind_eff (of_result (token_name_arg (args ! 0))) (\<lambda>asset_name.
      bind_eff (env_eval E (args ! 1) context) (\<lambda>asset.
      bind_eff (env_eval E (args ! 2) context) (\<lambda>from.
      bind_eff (env_eval E (args ! 3) context) (\<lambda>to.
      bind_eff (of_result (env_nft_key_type E asset_name)) (\<lambda>expected_asset_type.
      bind_eff (of_result (nft_size epoch expected_asset_type asset)) (\<lambda>asset_size.
      seq_eff (env_runtime_cost E CF_NftTransfer asset_size)
      (seq_eff (of_result (admits_or_raise expected_asset_type asset))
      (let D = env_database E; contract = env_contract_identifier E in
       case (from, to) of
         (VPrincipal from_principal, VPrincipal to_principal) \<Rightarrow>
           if from_principal = to_principal then ret (err_uint 2)
           else
             on_no_such_token (on_db (get_nft_owner D contract asset_name asset expected_asset_type))
               (ret (err_uint 3))
               (\<lambda>current_owner.
                if current_owner \<noteq> from_principal then ret (err_uint 1)
                else
                  seq_eff (add_type_memory PrincipalType)
                  (seq_eff (env_add_memory asset_size)
                  (seq_eff (on_db (set_nft_owner D contract asset_name asset to_principal expected_asset_type))
                  (seq_eff (log_asset_transfer from_principal contract asset_name asset)
                  (seq_eff (register_nft_transfer_event from_principal to_principal asset (env_asset_identifier E asset_name))
                  (ret okay_true))))))
       | _ \<Rightarrow> raise (Unchecked BadTransferNFTArguments)))))))))))"

definition special_get_owner :: "('s, 'ctx, 'l) environment \<Rightarrow> symbolic_expression list \<Rightarrow> 'l
    \<Rightarrow> ('s, 'ctx, clarity_value) vm" where
  "special_get_owner E args context =
     bind_eff env_epoch (\<lambda>epoch.
     seq_eff (of_result (check_argument_count 2 args))
     (bind_eff (of_result (token_name_arg (args ! 0))) (\<lambda>asset_name.
      bind_eff (env_eval E (args ! 1) context) (\<lambda>asset.
      bind_eff (of_result (env_nft_key_type E asset_name)) (\<lambda>expected_asset_type.
      bind_eff (of_result (nft_size epoch expected_asset_type asset)) (\<lambda>asset_size.
      seq_eff (env_runtime_cost E CF_NftOwner asset_size)
      (seq_eff (of_result (admits_or_raise expected_asset_type asset))
      (on_no_such_token (on_db (get_nft_owner (env_database E) (env_contract_identifier E) asset_name asset
           expected_asset_type))
         (ret value_none)
         (\<lambda>owner. of_result (expect (value_some (VPrincipal owner))))))))))))"

text \<open>Both versions of \<open>special_burn_asset\<close> charge once before the arguments and once with the size.\<close>

definition special_burn_asset :: "('s, 'ctx, 'l) environment \<Rightarrow> symbolic_expression list \<Rightarrow> 'l
    \<Rightarrow> ('s, 'ctx, clarity_value) vm" where
  "special_burn_asset E args context =
     bind_eff env_epoch (\<lambda>epoch.
     seq_eff (of_result (check_argument_count 3 args))
     (seq_eff (env_runtime_cost E CF_NftBurn 0)
     (bind_eff (of_result (token_name_arg (args ! 0))) (\<lambda>asset_name.
      bind_eff (env_eval E (args ! 1) context) (\<lambda>asset.
      bind_eff (env_eval E (args ! 2) context) (\<lambda>sender.
      bind_eff (of_result (env_nft_key_type E asset_name)) (\<lambda>expected_asset_type.
      bind_eff (of_result (nft_size epoch expected_asset_type asset)) (\<lambda>asset_size.
      seq_eff (env_runtime_cost E CF_NftBurn asset_size)
      (seq_eff (of_result (admits_or_raise expected_asset_type asset))
      (let D = env_database E; contract = env_contract_identifier E in
       case sender of
         VPrincipal sender_principal \<Rightarrow>
           on_no_such_token (on_db (get_nft_owner D contract asset_name asset expected_asset_type))
             (ret (err_uint 3))
             (\<lambda>owner.
              if owner \<noteq> sender_principal then ret (err_uint 1)
              else
                seq_eff (add_type_memory PrincipalType)
                (seq_eff (env_add_memory asset_size)
                (seq_eff (on_db (burn_nft D contract asset_name asset expected_asset_type))
                (seq_eff (log_asset_transfer sender_principal contract asset_name asset)
                (seq_eff (register_nft_burn_event sender_principal asset (env_asset_identifier E asset_name))
                (ret okay_true))))))
       | _ \<Rightarrow> raise (Unchecked (TypeValueError PrincipalType sender))))))))))))"

text \<open>\<open>special_withdraw_asset\<close> has one version, which always charges the serialized size.\<close>

definition special_withdraw_asset :: "('s, 'ctx, 'l) environment \<Rightarrow> symbolic_expression list \<Rightarrow> 'l
    \<Rightarrow> ('s, 'ctx, clarity_value) vm" where
  "special_withdraw_asset E args context =
     seq_eff (of_result (check_argument_count 3 args))
     (seq_eff (env_runtime_cost E CF_NftWithdraw 0)
     (bind_eff (of_result (token_name_arg (args ! 0))) (\<lambda>asset_name.
      bind_eff (env_eval E (args ! 1) context) (\<lambda>asset.
      bind_eff (env_eval E (args ! 2) context) (\<lambda>sender.
      bind_eff (of_result (env_nft_key_type E asset_name)) (\<lambda>expected_asset_type.
      bind_eff (of_result (nft_size Epoch2_05 expected_asset_type asset)) (\<lambda>asset_size.
      seq_eff (env_runtime_cost E CF_NftWithdraw asset_size)
      (seq_eff (of_result (admits_or_raise expected_asset_type asset))
      (let D = env_database E; contract = env_contract_identifier E in
       case sender of
         VPrincipal sender_principal \<Rightarrow>
           on_no_such_token (on_db (get_nft_owner D contract asset_name asset expected_asset_type))
             (ret (err_uint 3))
             (\<lambda>owner.
              if owner \<noteq> sender_principal then ret (err_uint 1)
              else
                (case asset of
                   VUInt nft_id \<Rightarrow>
                     seq_eff (add_type_memory PrincipalType)
                     (seq_eff (env_add_memory asset_size)
                     (seq_eff (on_db (burn_nft D contract asset_name asset expected_asset_type))
                     (seq_eff (log_asset_transfer sender_principal contract asset_name asset)
                     (seq_eff (register_nft_withdraw_event sender_principal nft_id (env_asset_identifier E asset_name))
                     (ret okay_true)))))
                 | _ \<Rightarrow> ret (err_uint 4)))
       | _ \<Rightarrow> raise (Unchecked (TypeValueError PrincipalType sender)))))))))))"

section \<open>Dispatch\<close>

text \<open>The asset functions among \<open>NativeFunctions\<close>, and the function each name is bound to.\<close>

datatype asset_native =
    MintAsset | MintToken | TransferAsset | TransferToken | GetTokenBalance | GetAssetOwner | BurnAsset | BurnToken
  | GetTokenSupply | GetStxBalance | StxTransfer | StxBurn | StxWithdraw | WithdrawAsset | WithdrawToken

primrec asset_native_call :: "asset_native \<Rightarrow> ('s, 'ctx, 'l) environment \<Rightarrow> symbolic_expression list \<Rightarrow> 'l
    \<Rightarrow> ('s, 'ctx, clarity_value) vm" where
  "asset_native_call MintAsset = special_mint_asset"
| "asset_native_call MintToken = special_mint_token"
| "asset_native_call TransferAsset = special_transfer_asset"
| "asset_native_call TransferToken = special_transfer_token"
| "asset_native_call GetTokenBalance = special_get_balance"
| "asset_native_call GetAssetOwner = special_get_owner"
| "asset_native_call BurnAsset = special_burn_asset"
| "asset_native_call BurnToken = special_burn_token"
| "asset_native_call GetTokenSupply = special_get_token_supply"
| "asset_native_call GetStxBalance = special_stx_balance"
| "asset_native_call StxTransfer = special_stx_transfer"
| "asset_native_call StxBurn = special_stx_burn"
| "asset_native_call StxWithdraw = special_stx_withdraw"
| "asset_native_call WithdrawAsset = special_withdraw_asset"
| "asset_native_call WithdrawToken = special_withdraw_token"

section \<open>STX transfers as transactions\<close>

text \<open>
  \<open>Environment::stx_transfer\<close> runs the transfer in a context of its own, which is committed only if the
  transfer returns an \<open>ok\<close> response; \<open>OwnedEnvironment::stx_transfer\<close> does it on behalf of the sender.
\<close>

definition env_stx_transfer :: "(qualified_contract_identifier \<Rightarrow> string) \<Rightarrow> ('s, 'ctx, 'l) environment
    \<Rightarrow> principal_data \<Rightarrow> principal_data \<Rightarrow> u128 \<Rightarrow> ('s, 'ctx, clarity_value) vm" where
  "env_stx_transfer to_string E from to amount g =
     (case stx_transfer_consolidated E from to amount (gc_begin g) of
        (Ok v, g) \<Rightarrow>
          (case v of
             VResponse committed _ \<Rightarrow>
               if committed then
                 (case gc_commit to_string (db_store (env_database E)) g of
                    (Ok _, g) \<Rightarrow> (Ok v, g) | (Err e, g) \<Rightarrow> (Err e, g) | (Panic, g) \<Rightarrow> (Panic, g))
               else roll_back_with (Interpreter IE_InsufficientBalance) g
           | _ \<Rightarrow> (Panic, g))
      | (Err e, g) \<Rightarrow> roll_back_with e g
      | (Panic, g) \<Rightarrow> (Panic, g))"

definition owned_stx_transfer :: "(qualified_contract_identifier \<Rightarrow> string) \<Rightarrow> ('s, 'ctx, 'l) environment
    \<Rightarrow> principal_data \<Rightarrow> principal_data \<Rightarrow> u128 \<Rightarrow> ('s, 'ctx) global_context
    \<Rightarrow> ('s, 'ctx, clarity_value \<times> asset_map \<times> stacks_transaction_event list) gc_result" where
  "owned_stx_transfer to_string E from to amount =
     execute_in_env to_string (db_store (env_database E))
       (env_stx_transfer to_string (E\<lparr>env_sender := Some from\<rparr>) from to amount)"

end
