(* ===== verification/Ledger.thy ===== *)
theory Ledger
  imports Prelude
begin

text \<open>
  Ledgers: accounts that hold units and a recorded supply. The locale states what a store of accounts
  promises (a write changes one account, or the supply, and nothing else), and its lemmas show once
  that minting, burning and transferring keep the supply equal to the sum of all holdings. The
  fungible tokens and the STX accounts of the Clarity database are its instances.
\<close>

section \<open>Sums of holdings\<close>

definition holdings :: "('a \<Rightarrow> nat) \<Rightarrow> nat" where
  "holdings f = (\<Sum>a | f a \<noteq> 0. f a)"

definition finitely_held :: "('a \<Rightarrow> nat) \<Rightarrow> bool" where
  "finitely_held f \<longleftrightarrow> finite {a. f a \<noteq> 0}"

lemma holdings_superset:
  assumes "finite A" "{a. f a \<noteq> 0} \<subseteq> A"
  shows "holdings f = sum f A"
  unfolding holdings_def by (rule sum.mono_neutral_left) (use assms in auto)

lemma finitely_held_update [simp]: "finitely_held f \<Longrightarrow> finitely_held (f(x := n))"
  unfolding finitely_held_def by (rule finite_subset [of _ "insert x {a. f a \<noteq> 0}"]) auto

lemma holdings_update:
  assumes "finitely_held f"
  shows "holdings (f(x := n)) + f x = holdings f + n"
proof -
  let ?A = "{a. f a \<noteq> 0}"
  have fin: "finite (insert x ?A)" using assms by (simp add: finitely_held_def)
  have "holdings (f(x := n)) = sum (f(x := n)) (insert x ?A)"
    by (rule holdings_superset [OF fin]) auto
  moreover have "holdings f = sum f (insert x ?A)"
    by (rule holdings_superset [OF fin]) auto
  moreover have "sum (f(x := n)) (insert x ?A) = n + sum f (?A - {x})"
    using fin by (simp add: sum.insert_remove)
  moreover have "sum f (insert x ?A) = f x + sum f (?A - {x})"
    using fin by (simp add: sum.insert_remove)
  ultimately show ?thesis by simp
qed

lemma holdings_ge:
  assumes "finitely_held f"
  shows "f x \<le> holdings f"
proof (cases "f x = 0")
  case False
  with assms show ?thesis unfolding holdings_def finitely_held_def by (intro member_le_sum) auto
qed simp

lemma holdings_ge_two:
  assumes "finitely_held f" "x \<noteq> y"
  shows "f x + f y \<le> holdings f"
proof -
  have "(f(x := 0)) y \<le> holdings (f(x := 0))" by (rule holdings_ge [OF finitely_held_update [OF assms(1)]])
  with holdings_update [OF assms(1), of x 0] assms(2) show ?thesis by simp
qed

section \<open>Ledgers\<close>

locale ledger =
  fixes lawful :: bool and units :: "'b \<Rightarrow> nat"
    and account :: "'v \<Rightarrow> 'a \<Rightarrow> 'b" and put_account :: "'a \<Rightarrow> 'b \<Rightarrow> 'v \<Rightarrow> 'v"
    and issued :: "'v \<Rightarrow> u128" and put_issued :: "u128 \<Rightarrow> 'v \<Rightarrow> 'v"
  assumes account_put_account: "lawful \<Longrightarrow> account (put_account a b v) = (account v)(a := b)"
    and issued_put_account: "lawful \<Longrightarrow> issued (put_account a b v) = issued v"
    and account_put_issued: "lawful \<Longrightarrow> account (put_issued n v) = account v"
    and issued_put_issued: "lawful \<Longrightarrow> issued (put_issued n v) = n"
begin

definition held :: "'v \<Rightarrow> 'a \<Rightarrow> nat" where
  "held v a = units (account v a)"

definition backed :: "'v \<Rightarrow> bool" where
  "backed v \<longleftrightarrow> finitely_held (held v) \<and> holdings (held v) = unat (issued v)"

lemma held_put: "lawful \<Longrightarrow> held (put_account a b v) = (held v)(a := units b)"
  by (auto simp: held_def account_put_account fun_eq_iff)

lemma held_put_issued: "lawful \<Longrightarrow> held (put_issued n v) = held v"
  by (auto simp: held_def account_put_issued fun_eq_iff)

lemmas laws = held_put held_put_issued issued_put_account issued_put_issued

lemma held_le_supply: "backed v \<Longrightarrow> held v a \<le> unat (issued v)"
  unfolding backed_def using holdings_ge by metis

lemma two_held_le_supply: "\<lbrakk>backed v; a \<noteq> b\<rbrakk> \<Longrightarrow> held v a + held v b \<le> unat (issued v)"
  unfolding backed_def using holdings_ge_two by metis

text \<open>Both orders in which the code writes an account and the supply.\<close>

lemma issue_backed:
  assumes lawful "backed v" "units b + unat (issued v) = held v a + unat n"
  shows "backed (put_account a b (put_issued n v))" "backed (put_issued n (put_account a b v))"
proof -
  have "holdings ((held v)(a := units b)) + held v a = holdings (held v) + units b"
    using assms(2) by (intro holdings_update) (simp add: backed_def)
  with assms show "backed (put_account a b (put_issued n v))" "backed (put_issued n (put_account a b v))"
    by (simp_all add: backed_def laws)
qed

lemma move_backed:
  assumes lawful "backed v" "a \<noteq> a'" "units b + units b' = held v a + held v a'"
  shows "backed (put_account a' b' (put_account a b v))"
proof -
  have fin: "finitely_held (held v)" using assms(2) by (simp add: backed_def)
  have "holdings ((held v)(a := units b)) + held v a = holdings (held v) + units b"
    by (rule holdings_update [OF fin])
  moreover have "holdings ((held v)(a := units b, a' := units b')) + ((held v)(a := units b)) a'
      = holdings ((held v)(a := units b)) + units b'"
    by (rule holdings_update) (simp add: fin)
  ultimately show ?thesis
    using assms by (simp add: backed_def laws)
qed

lemma same_backed:
  assumes "account v = account v'" "issued v = issued v'"
  shows "backed v = backed v'"
proof -
  have "held v = held v'" by (rule ext) (simp add: held_def assms)
  with assms show ?thesis by (simp add: backed_def)
qed

end

end
