(* ===== verification/Native_Logic.thy ===== *)
theory Native_Logic
  imports Asset_Natives
begin

text \<open>
  A verification-condition calculus for native functions. A native runs in an open context; what it
  does to the innermost world (view of the store, recorded transfers, events) is described by a
  weakest precondition, with one rule for each operation a native is built from. The rules
  are collected in \<open>wp_rules\<close>; a proof applies them with \<open>intro!\<close> and closes the conditions that remain.
\<close>

named_theorems wp_rules \<open>weakest-precondition rules\<close>

text \<open>What no native changes: the store below the open contexts, the pending metadata, the epoch, and whether
  execution is metered.\<close>

definition gc_fixed :: "('s, 'ctx) global_context \<Rightarrow> 's \<times> metadata_key lookup_map \<times> stacks_epoch_id \<times> bool" where
  "gc_fixed g = (store (gc_database g), metadata_lookup_map (gc_database g), gc_epoch_id g, gc_cost_track g = Free)"

section \<open>Methods of the database inside the context\<close>

lemma on_db_bind [simp]: "on_db (bind_eff m f) = bind_eff (on_db m) (\<lambda>x. on_db (f x))"
  by (rule ext) (simp add: on_db_def zoom_def bind_eff_def split: prod.splits result.splits)

lemma on_db_seq [simp]: "on_db (seq_eff m n) = seq_eff (on_db m) (on_db n)"
  by (simp add: seq_eff_def)

lemma on_db_pure [simp]:
  "on_db (ret x) = ret x" "on_db (raise e) = raise e" "on_db (of_result r) = of_result r"
  by (simp_all add: fun_eq_iff on_db_def zoom_def ret_def raise_def of_result_def)

lemma on_db_if [simp]: "on_db (if b then m else n) = (if b then on_db m else on_db n)"
  by simp

lemma on_db_option [simp]:
  "on_db (case x of None \<Rightarrow> m | Some y \<Rightarrow> n y) = (case x of None \<Rightarrow> on_db m | Some y \<Rightarrow> on_db (n y))"
  by (simp split: option.splits)

text \<open>The two outcomes of a checked operation.\<close>

lemma checked_cases [simp]:
  "(case checked_add x y of None \<Rightarrow> A | Some n \<Rightarrow> K n) \<longleftrightarrow>
     (2 ^ LENGTH('a) \<le> unat x + unat y \<longrightarrow> A) \<and> (\<forall>n. unat n = unat x + unat (y :: 'a::len word) \<longrightarrow> K n)"
  "(case checked_sub x y of None \<Rightarrow> A | Some n \<Rightarrow> K n) \<longleftrightarrow> (x < y \<longrightarrow> A) \<and> (y \<le> x \<longrightarrow> K (x - y))"
proof -
  show "(case checked_add x y of None \<Rightarrow> A | Some n \<Rightarrow> K n) \<longleftrightarrow>
     (2 ^ LENGTH('a) \<le> unat x + unat y \<longrightarrow> A) \<and> (\<forall>n. unat n = unat x + unat (y :: 'a::len word) \<longrightarrow> K n)"
  proof (cases "checked_add x y")
    case None
    then have big: "2 ^ LENGTH('a) \<le> unat x + unat y" by (simp add: checked_iff)
    have "unat n \<noteq> unat x + unat y" for n :: "'a word" using big unat_lt [of n] by linarith
    with None big show ?thesis by simp
  next
    case (Some m)
    moreover from this have "unat m = unat x + unat y" by (simp add: checked_iff)
    moreover from this have "\<not> 2 ^ LENGTH('a) \<le> unat x + unat y" using unat_lt [of m] by simp
    ultimately show ?thesis by (metis option.simps(5) word_unat_eq_iff)
  qed
qed (auto simp: checked_sub_def split: if_splits)

text \<open>A read is decoded from the text in the view.\<close>

definition decoded :: "(string \<Rightarrow> (unit, 'a) result) \<Rightarrow> string option \<Rightarrow> 'a option interpreter_result" where
  "decoded f found = (case found of None \<Rightarrow> Ok None | Some s \<Rightarrow> map_ok Some (expect (f s)))"

lemma decoded_simps [simp]: "decoded f None = Ok None" "f s = Ok x \<Longrightarrow> decoded f (Some s) = Ok (Some x)"
  by (simp_all add: decoded_def)

lemma get_decoded: "expect (get f B w k) = and_then (expect (get Ok B w k)) (decoded f)"
proof (cases "stack w = []")
  case False
  then show ?thesis
  proof (cases "pending k (lookup_map w) (query_pending_data w)")
    case None
    with False show ?thesis
      by (cases "bs_get B (store w) k") (auto simp: get_def decoded_def split: option.splits,
        metis expect.simps map_ok.simps result.exhaust)
  next
    case (Some s)
    with False show ?thesis by (cases "f s") (simp_all add: get_def decoded_def)
  qed
qed (simp add: get_def)

section \<open>Weakest preconditions\<close>

type_synonym 's place = "(qualified_contract_identifier \<Rightarrow> string)
  \<times> ('s \<times> metadata_key lookup_map \<times> stacks_epoch_id \<times> bool) \<times> world list \<times> (string \<rightharpoonup> string) list"

text \<open>Cost functions that the tracker can fail to evaluate with a panic.\<close>

definition cost_panic :: "('s, 'ctx, 'l) environment \<Rightarrow> bool" where
  "cost_panic E \<longleftrightarrow> (\<exists>f n t. fst (runtime_cost (limited_tracker (env_costs E)) f n t) = Panic)"

text \<open>An argument whose evaluation has no effect but its cost, and yields the value unless it fails.\<close>

definition yields :: "('s, 'ctx, 'l) environment \<Rightarrow> 'l \<Rightarrow> symbolic_expression \<Rightarrow> clarity_value \<Rightarrow> bool" where
  "yields E context arg v \<longleftrightarrow> (\<forall>g. \<exists>t r. env_eval E arg context g = (r, g\<lparr>gc_cost_track := t\<rparr>)
     \<and> (t = Free \<longleftrightarrow> gc_cost_track g = Free) \<and> (r = Ok v \<or> (\<exists>e. r = Err e)))"

context clarity_store
begin

text \<open>
  A place is the relation to the outer worlds and the fixed part; a context is at a world of the
  place when its innermost world is that one.
\<close>

definition at :: "'s place \<Rightarrow> ('s, 'ctx) global_context \<Rightarrow> world \<Rightarrow> bool" where
  "at P g w = (case P of (ts, F, ws, vs) \<Rightarrow> grel ts g (w # ws) vs \<and> gc_fixed g = F)"

definition wp :: "'s place \<Rightarrow> ('s, 'ctx, 'a) vm \<Rightarrow> ('a interpreter_result \<Rightarrow> world \<Rightarrow> bool) \<Rightarrow> world \<Rightarrow> bool" where
  "wp P m Q w \<longleftrightarrow> (\<forall>g. at P g w \<longrightarrow>
     (\<exists>w'. (fst (m g) = Panic \<or> at P (snd (m g)) w') \<and> Q (fst (m g)) w'))"

lemma at_fixed: "\<lbrakk>at P g w; at P g' w'\<rbrakk> \<Longrightarrow> gc_fixed g = gc_fixed g'"
  by (auto simp: at_def split: prod.splits)

lemma wpI:
  fixes m :: "('s, 'ctx, 'a) vm"
  assumes "\<And>g :: ('s, 'ctx) global_context. at P g w \<Longrightarrow> \<exists>r g' w'. m g = (r, g') \<and> at P g' w' \<and> Q r w'"
  shows "wp P m Q w"
  unfolding wp_def
proof (intro allI impI)
  fix g :: "('s, 'ctx) global_context" assume "at P g w"
  from assms [OF this] show "\<exists>w'. (fst (m g) = Panic \<or> at P (snd (m g)) w') \<and> Q (fst (m g)) w'" by auto
qed

lemma wp_conseq:
  assumes "wp P m R w" "\<And>r w'. R r w' \<Longrightarrow> Q r w'"
  shows "wp P m Q w"
  using assms unfolding wp_def by blast

lemma wp_ret [wp_rules]: "Q (Ok x) w \<Longrightarrow> wp P (ret x) Q w"
  by (auto simp: wp_def ret_def)

lemma wp_raise [wp_rules]: "Q (Err e) w \<Longrightarrow> wp P (raise e) Q w"
  by (auto simp: wp_def raise_def)

lemma wp_of_result [wp_rules]: "Q r w \<Longrightarrow> wp P (of_result r) Q w"
  by (auto simp: wp_def of_result_def)

text \<open>The rest of a sequence runs only after a success.\<close>

definition continue :: "('a \<Rightarrow> world \<Rightarrow> bool) \<Rightarrow> ('b interpreter_result \<Rightarrow> world \<Rightarrow> bool) \<Rightarrow> 'a interpreter_result
    \<Rightarrow> world \<Rightarrow> bool" where
  "continue K Q r w = (case r of Ok x \<Rightarrow> K x w | Err e \<Rightarrow> Q (Err e) w | Panic \<Rightarrow> Q Panic w)"

lemma continue_simps [simp]:
  "continue K Q (Ok x) w = K x w" "continue K Q (Err e) w = Q (Err e) w" "continue K Q Panic w = Q Panic w"
  by (simp_all add: continue_def)

lemma continue_option [simp]:
  "continue K Q (ok_or x e) w = (case x of None \<Rightarrow> Q (Err e) w | Some y \<Rightarrow> K y w)"
  "continue K Q (expect_some x) w = (case x of None \<Rightarrow> Q Panic w | Some y \<Rightarrow> K y w)"
  by (simp_all split: option.splits)

lemma wp_bind [wp_rules]:
  fixes m :: "('s, 'ctx, 'a) vm"
  assumes "wp P m (continue (\<lambda>x. wp P (f x) Q) Q) w"
  shows "wp P (bind_eff m f) Q w"
  unfolding wp_def
proof (intro allI impI)
  fix g :: "('s, 'ctx) global_context" assume "at P g w"
  with assms obtain w1 where w1: "fst (m g) = Panic \<or> at P (snd (m g)) w1"
    "continue (\<lambda>x. wp P (f x) Q) Q (fst (m g)) w1" unfolding wp_def by blast
  obtain r g1 where m: "m g = (r, g1)" by (cases "m g")
  with w1 show "\<exists>w'. (fst (bind_eff m f g) = Panic \<or> at P (snd (bind_eff m f g)) w') \<and> Q (fst (bind_eff m f g)) w'"
    by (cases r) (auto simp: bind_eff_def wp_def)
qed

lemma wp_seq [wp_rules]: "wp P m (continue (\<lambda>_. wp P n Q) Q) w \<Longrightarrow> wp P (seq_eff m n) Q w"
  unfolding seq_eff_def by (rule wp_bind)

lemma wp_if [wp_rules]: "\<lbrakk>b \<Longrightarrow> wp P m Q w; \<not> b \<Longrightarrow> wp P n Q w\<rbrakk> \<Longrightarrow> wp P (if b then m else n) Q w"
  by simp

lemma wp_option [wp_rules]:
  "\<lbrakk>x = None \<Longrightarrow> wp P m Q w; \<And>y. x = Some y \<Longrightarrow> wp P (n y) Q w\<rbrakk>
    \<Longrightarrow> wp P (case x of None \<Rightarrow> m | Some y \<Rightarrow> n y) Q w"
  by (cases x) simp_all

lemma at_updates:
  "\<lbrakk>at P g w; t = Free \<longleftrightarrow> gc_cost_track g = Free\<rbrakk> \<Longrightarrow> at P (g\<lparr>gc_cost_track := t\<rparr>) w"
  by (auto simp: at_def gc_rel_def gc_fixed_def)

text \<open>Places where execution is not metered.\<close>

definition unmetered :: "'s place \<Rightarrow> bool" where
  "unmetered P = (case P of (ts, (s, m, e, free), ws, vs) \<Rightarrow> free)"

lemma wp_tracker:
  fixes m :: "('ctx limited_cost_tracker, cost_errors, 'a) eff"
  assumes keeps: "\<And>t. snd (m t) = Free \<longleftrightarrow> t = Free"
    and post: "\<And>t. \<lbrakk>unmetered P \<Longrightarrow> t = Free\<rbrakk> \<Longrightarrow> Q (map_err (\<lambda>e. Unchecked (check_error_from_cost e)) (fst (m t))) w"
  shows "wp P (on_tracker m) Q w"
proof (rule wpI)
  fix g :: "('s, 'ctx) global_context" assume g: "at P g w"
  obtain r t where m: "m (gc_cost_track g) = (r, t)" by fastforce
  have "on_tracker m g = (map_err (\<lambda>e. Unchecked (check_error_from_cost e)) r, g\<lparr>gc_cost_track := t\<rparr>)"
    by (simp add: on_tracker_def convert_err_def zoom_def m)
  moreover have "t = Free \<longleftrightarrow> gc_cost_track g = Free" using keeps [of "gc_cost_track g"] m by simp
  moreover have "unmetered P \<Longrightarrow> gc_cost_track g = Free"
    using g by (auto simp: at_def gc_fixed_def unmetered_def split: prod.splits)
  ultimately show "\<exists>r g' w'. on_tracker m g = (r, g') \<and> at P g' w' \<and> Q r w'"
    using post [of "gc_cost_track g"] m at_updates [OF g] by auto
qed

lemma on_limited_free: "snd (on_limited free f t) = Free \<longleftrightarrow> t = Free"
  by (cases t) simp_all

lemma on_limited_pair: "on_limited free f t = (r, u) \<Longrightarrow> u = Free \<longleftrightarrow> t = Free"
  using on_limited_free [of free f t] by simp

lemma runtime_cost_free: "snd (runtime_cost (limited_tracker env) f n t) = Free \<longleftrightarrow> t = Free"
  unfolding runtime_cost_def limited_tracker_def compute_cost_def add_cost_def
  by (auto split: option.splits prod.splits result.splits simp: on_limited_free dest: on_limited_pair)

lemma wp_runtime_cost [wp_rules]:
  fixes E :: "('s, 'ctx, 'l) environment"
  assumes "Q (Ok ()) w" "\<And>e. \<not> unmetered P \<Longrightarrow> Q (Err e) w" "\<lbrakk>cost_panic E; \<not> unmetered P\<rbrakk> \<Longrightarrow> Q Panic w"
  shows "wp P (env_runtime_cost E f n) Q w"
  unfolding env_runtime_cost_def
proof (rule wp_tracker)
  fix t :: "'ctx limited_cost_tracker" assume free: "unmetered P \<Longrightarrow> t = Free"
  have "fst (runtime_cost (limited_tracker (env_costs E)) f (Some n) Free) = Ok ()"
    by (simp add: runtime_cost_def limited_tracker_def compute_cost_def add_cost_def)
  then show "Q (map_err (\<lambda>e. Unchecked (check_error_from_cost e))
      (fst (runtime_cost (limited_tracker (env_costs E)) f (Some n) t))) w"
    using assms free by (cases "unmetered P"; cases "fst (runtime_cost (limited_tracker (env_costs E)) f (Some n) t)")
      (auto simp: cost_panic_def)
qed (rule runtime_cost_free)

lemma add_memory_result: "fst (add_memory n t) \<noteq> Panic" "fst (add_memory n Free) = Ok ()" "snd (add_memory n t) = Free \<longleftrightarrow> t = Free"
  using on_limited_free [of _ _ t] by (cases t; auto simp: add_memory_def data_add_memory_def on_field_def cost_overflow_add_def
      split: option.splits result.splits)+

lemma wp_add_memory [wp_rules]:
  assumes "Q (Ok ()) w" "\<And>e. \<not> unmetered P \<Longrightarrow> Q (Err e) w"
  shows "wp P (env_add_memory n) Q w"
  unfolding env_add_memory_def
proof (rule wp_tracker)
  fix t :: "'b limited_cost_tracker" assume "unmetered P \<Longrightarrow> t = Free"
  then show "Q (map_err (\<lambda>e. Unchecked (check_error_from_cost e)) (fst (add_memory n t))) w"
    using assms add_memory_result(1) [of n t] by (cases "unmetered P"; cases "fst (add_memory n t)") (auto simp: add_memory_result(2))
qed (rule add_memory_result(3))

lemma wp_eval:
  fixes E :: "('s, 'ctx, 'l) environment"
  assumes "yields E context arg v" "Q (Ok v) w" "\<And>e. Q (Err e) w"
  shows "wp P (env_eval E arg context) Q w"
proof (rule wpI)
  fix g :: "('s, 'ctx) global_context" assume g: "at P g w"
  from assms(1) obtain t r where "env_eval E arg context g = (r, g\<lparr>gc_cost_track := t\<rparr>)"
    "t = Free \<longleftrightarrow> gc_cost_track g = Free" "r = Ok v \<or> (\<exists>e. r = Err e)"
    unfolding yields_def by blast
  with assms(2,3) at_updates [OF g] show "\<exists>r g' w'. env_eval E arg context g = (r, g') \<and> at P g' w' \<and> Q r w'" by auto
qed

lemma at_views:
  assumes "at P g w"
  obtains u us where "rb_rel (fst P) reads rows tip (gc_database g) (w_view w # u # us)"
proof -
  obtain ts F ws vs where P: "P = (ts, F, ws, vs)" by (cases P)
  with assms have rel: "grel ts g (w # ws) vs" by (simp add: at_def)
  from two_views [OF rel] obtain u us where "map w_view ws @ vs = u # us" .
  with rel P have "rb_rel (fst P) reads rows tip (gc_database g) (w_view w # u # us)" by (simp add: gc_rel_def)
  with that show thesis by blast
qed

lemma wp_get [wp_rules]:
  assumes "db_store D = B" "Q (decoded f (w_view w k)) w"
  shows "wp P (on_db (db_get D f k)) Q w"
proof (rule wpI)
  fix g assume g: "at P g w"
  obtain u us where "rb_rel (fst P) reads rows tip (gc_database g) (w_view w # u # us)" using at_views [OF g] .
  from rel_get [OF this] assms(1)
  have "on_db (db_get D f k) g = (decoded f (w_view w k), g)"
    by (simp add: on_db_def zoom_def db_get_def get_decoded)
  with g assms(2) show "\<exists>r g' w'. on_db (db_get D f k) g = (r, g') \<and> at P g' w' \<and> Q r w'" by blast
qed

lemma put_fixed: "put w k x = Ok w' \<Longrightarrow> store w' = store w \<and> metadata_lookup_map w' = metadata_lookup_map w"
  by (auto simp: put_def split: list.splits prod.splits)

lemma wp_put [wp_rules]:
  assumes "Q (Ok ()) (w\<lparr>w_view := (w_view w)(k \<mapsto> x)\<rparr>)"
  shows "wp P (on_db (db_put k x)) Q w"
proof (rule wpI)
  fix g assume g: "at P g w"
  obtain ts F ws vs where P: "P = (ts, F, ws, vs)" by (cases P)
  with g have rel: "grel ts g (w # ws) vs" "gc_fixed g = F" by (simp_all add: at_def)
  from two_views [OF rel(1)] obtain u us where u: "map w_view ws @ vs = u # us" .
  with rel have "rb_rel ts reads rows tip (gc_database g) (w_view w # u # us)" by (simp add: gc_rel_def)
  from rel_put [OF this, of k x] obtain w' where w': "put (gc_database g) k x = Ok w'"
    "rb_rel ts reads rows tip w' ((w_view w)(k \<mapsto> x) # u # us)" by blast
  let ?g = "g\<lparr>gc_database := w'\<rparr>"
  have "at P ?g (w\<lparr>w_view := (w_view w)(k \<mapsto> x)\<rparr>)"
    using rel w' u put_fixed [OF w'(1)] by (auto simp: at_def P gc_rel_def gc_fixed_def)
  moreover have "on_db (db_put k x) g = (Ok (), ?g)"
    using w'(1) by (simp add: on_db_def zoom_def db_put_def)
  ultimately show "\<exists>r g' w'. on_db (db_put k x) g = (r, g') \<and> at P g' w' \<and> Q r w'" using assms by blast
qed

lemma wp_log:
  assumes "totals_fit (w_log w @ [t]) \<Longrightarrow> Q (Ok ()) (w\<lparr>w_log := w_log w @ [t]\<rparr>)" "\<And>e. \<not> totals_fit (w_log w @ [t]) \<Longrightarrow> Q (Err e) w"
  shows "wp P (log_transfer t) Q w"
proof (rule wpI)
  fix g assume g: "at P g w"
  obtain ts F ws vs where P: "P = (ts, F, ws, vs)" by (cases P)
  with g have rel: "grel ts g (w # ws) vs" "gc_fixed g = F" by (simp_all add: at_def)
  obtain am ams where maps: "gc_asset_maps g = am # ams" "tracks am (w_log w)" "list_all2 tracks ams (map w_log ws)"
    using rel by (auto simp: gc_rel_def list_all2_Cons2)
  note rec = record_transfer_tracks [OF maps(2), of t]
  show "\<exists>r g' w'. log_transfer t g = (r, g') \<and> at P g' w' \<and> Q r w'"
  proof (cases "record_transfer t am")
    case (Ok am')
    with rec have tr: "tracks am' (w_log w @ [t])" by simp
    from Ok maps have "log_transfer t g = (Ok (), g\<lparr>gc_asset_maps := am' # ams\<rparr>)"
      by (simp add: log_transfer_record get_asset_map_def)
    moreover have "at P (g\<lparr>gc_asset_maps := am' # ams\<rparr>) (w\<lparr>w_log := w_log w @ [t]\<rparr>)"
      using rel tr maps by (auto simp: at_def P gc_rel_def gc_fixed_def)
    ultimately show ?thesis using assms(1) tracks_fit [OF tr] by blast
  next
    case (Err e)
    with maps have "log_transfer t g = (Err e, g)" by (simp add: log_transfer_record get_asset_map_def)
    moreover have "\<not> totals_fit (w_log w @ [t])" using rec Err by simp
    ultimately show ?thesis using g assms(2) by blast
  next
    case Panic
    with rec show ?thesis by simp
  qed
qed

lemma wp_event:
  assumes "Q (Ok ()) (w\<lparr>w_events := w_events w @ [e]\<rparr>)"
  shows "wp P (push_event e) Q w"
proof (rule wpI)
  fix g assume g: "at P g w"
  have "at P (snd (push_event e g)) (w\<lparr>w_events := w_events w @ [e]\<rparr>)"
    using g by (auto simp: at_def gc_rel_def gc_fixed_def push_event_def split: prod.splits)
  with assms show "\<exists>r g' w'. push_event e g = (r, g') \<and> at P g' w' \<and> Q r w'"
    by (auto simp: push_event_def)
qed

end

section \<open>Outcomes of the natives\<close>

text \<open>A native either returns a value in a related world, or fails, or panics in the cost tracker.\<close>

definition outcome :: "('s, 'ctx, 'l) environment \<Rightarrow> (clarity_value \<Rightarrow> world \<Rightarrow> bool)
    \<Rightarrow> clarity_value interpreter_result \<Rightarrow> world \<Rightarrow> bool" where
  "outcome E R r w = (case r of Ok v \<Rightarrow> R v w | Err e \<Rightarrow> True | Panic \<Rightarrow> cost_panic E)"

lemma outcome_simps [simp]:
  "outcome E R (Ok v) w = R v w" "outcome E R (Err e) w" "outcome E R Panic w = cost_panic E"
  by (simp_all add: outcome_def)

lemma log_functions:
  "log_stx_transfer p n = log_transfer (SentStx p n)" "log_stx_burn p n = log_transfer (BurnedStx p n)"
  "log_token_transfer p c t n = log_transfer (SentToken p \<lparr>ai_contract_identifier = c, ai_asset_name = t\<rparr> n)"
  "log_asset_transfer p c t v = log_transfer (SentAsset p \<lparr>ai_contract_identifier = c, ai_asset_name = t\<rparr> v)"
  by (simp_all add: fun_eq_iff)

lemmas register_functions = register_stx_transfer_event_def register_stx_burn_event_def register_stx_withdraw_event_def
  register_ft_transfer_event_def register_ft_mint_event_def register_ft_burn_event_def register_ft_withdraw_event_def
  register_nft_transfer_event_def register_nft_mint_event_def register_nft_burn_event_def register_nft_withdraw_event_def

lemmas native_simps = log_functions register_functions token_name_arg_def env_asset_identifier_def env_ft_info_def
  check_argument_count_def Let_def

lemma match_atom_Some [simp]: "match_atom x = Some t \<longleftrightarrow> x = Atom t"
  by (cases x) auto

context clarity_store
begin

lemmas wp_effects [wp_rules] = wp_log wp_event

lemma wp_add_type_memory [wp_rules]:
  "\<lbrakk>wf_type t; Q (Ok ()) w; \<And>e. \<not> unmetered P \<Longrightarrow> Q (Err e) w\<rbrakk> \<Longrightarrow> wp P (add_type_memory t) Q w"
  unfolding add_type_memory_def by (auto intro!: wp_rules)

lemma wp_principal_case [wp_rules]:
  "\<lbrakk>\<And>p. x = VPrincipal p \<Longrightarrow> wp P (m p) Q w; wp P n Q w\<rbrakk> \<Longrightarrow> wp P (case x of VPrincipal p \<Rightarrow> m p | _ \<Rightarrow> n) Q w"
  by (cases x) simp_all

lemma wp_uint_case [wp_rules]:
  "\<lbrakk>\<And>k. x = VUInt k \<Longrightarrow> wp P (m k) Q w; wp P n Q w\<rbrakk> \<Longrightarrow> wp P (case x of VUInt k \<Rightarrow> m k | _ \<Rightarrow> n) Q w"
  by (cases x) simp_all

text \<open>Arguments: their evaluation keeps \<open>J\<close> of the world and yields a value with \<open>V\<close>, unless it fails.\<close>

definition argument :: "'s place \<Rightarrow> ('s, 'ctx, 'l) environment \<Rightarrow> 'l \<Rightarrow> (world \<Rightarrow> bool) \<Rightarrow> (clarity_value \<Rightarrow> bool)
    \<Rightarrow> symbolic_expression \<Rightarrow> bool" where
  "argument P E context J V arg \<longleftrightarrow>
     (\<forall>w. J w \<longrightarrow> wp P (env_eval E arg context) (outcome E (\<lambda>v w'. V v \<and> J w')) w)"

lemma wp_argument:
  assumes "argument P E context J V arg" "J w" "\<And>v w'. \<lbrakk>V v; J w'\<rbrakk> \<Longrightarrow> Q (Ok v) w'" "\<And>e w'. Q (Err e) w'"
    "\<And>w'. cost_panic E \<Longrightarrow> Q Panic w'"
  shows "wp P (env_eval E arg context) Q w"
proof (rule wp_conseq)
  show "wp P (env_eval E arg context) (outcome E (\<lambda>v w'. V v \<and> J w')) w"
    using assms(1,2) by (simp add: argument_def)
  show "Q r w'" if "outcome E (\<lambda>v w'. V v \<and> J w') r w'" for r w'
    using that assms(3-) by (cases r) auto
qed

text \<open>What the natives need of the database and of the place they run in.\<close>

definition grounded :: "('s, 'ctx, 'l) environment \<Rightarrow> bool" where
  "grounded E \<longleftrightarrow> db_store (env_database E) = B \<and> json_round_trips (db_json (env_database E))"

lemma groundedD:
  assumes "grounded E"
  shows "db_store (env_database E) = B" "json_round_trips (db_json (env_database E))"
  using assms by (simp_all add: grounded_def)

text \<open>The burn height is known; the metadata of the contract's tokens can be read; the epoch has a version of
  every function.\<close>

definition ready :: "'s place \<Rightarrow> ('s, 'ctx, 'l) environment \<Rightarrow> u32 \<Rightarrow> bool" where
  "ready P E h \<longleftrightarrow> grounded E \<and> (\<forall>(g :: ('s, 'ctx) global_context) w. at P g w \<longrightarrow>
     get_current_burnchain_block_height (env_database E) (gc_database g) = Ok h)"

definition deployed :: "'s place \<Rightarrow> ('s, 'ctx, 'l) environment \<Rightarrow> bool" where
  "deployed P E \<longleftrightarrow> grounded E \<and> (\<forall>(g :: ('s, 'ctx) global_context) w t. at P g w \<longrightarrow>
     fst (load_ft (env_database E) (env_contract_identifier E) t (gc_database g)) \<noteq> Panic)"

definition dated :: "'s place \<Rightarrow> ('s, 'ctx, 'l) environment \<Rightarrow> bool" where
  "dated P E \<longleftrightarrow> grounded E \<and> (\<forall>(g :: ('s, 'ctx) global_context) w. at P g w \<longrightarrow> gc_epoch_id g \<noteq> Epoch10)"

lemma grounds:
  "ready P E h \<Longrightarrow> grounded E" "deployed P E \<Longrightarrow> grounded E" "dated P E \<Longrightarrow> grounded E"
  by (simp_all add: ready_def deployed_def dated_def)

lemma wp_reached:
  fixes m :: "('s, 'ctx, 'a) vm"
  assumes "\<And>g :: ('s, 'ctx) global_context. at P g w \<Longrightarrow> wp P m Q w"
  shows "wp P m Q w"
  using assms unfolding wp_def by blast

end

end
