(* ===== verification/Token_Logic.thy ===== *)
theory Token_Logic
  imports Native_Logic Ledger
begin

text \<open>
  What the functions on STX and fungible tokens do. The first part reads the two ledgers out of a view
  of the store and interprets the locale of ledgers on them; the second has a rule for each method of
  the database; the third describes each native by what it does to the world it runs in.
\<close>

section \<open>Ledgers in a view\<close>

type_synonym view = "string \<rightharpoonup> string"

definition word_at :: "json_codec \<Rightarrow> view \<Rightarrow> string \<Rightarrow> u128" where
  "word_at J v k = (case v k of None \<Rightarrow> 0 | Some s \<Rightarrow> (case js_read_u128 J s of Ok n \<Rightarrow> n | _ \<Rightarrow> 0))"

definition ft_supply_key :: "'s clarity_db \<Rightarrow> qualified_contract_identifier \<Rightarrow> clarity_name \<Rightarrow> string" where
  "ft_supply_key D c t = make_key_for_trip D c CirculatingSupply t"

definition ft_account :: "'s clarity_db \<Rightarrow> qualified_contract_identifier \<Rightarrow> clarity_name \<Rightarrow> view \<Rightarrow> principal_data \<Rightarrow> u128" where
  "ft_account D c t v p = word_at (db_json D) v (ft_balance_key D c t p)"

definition ft_put :: "'s clarity_db \<Rightarrow> qualified_contract_identifier \<Rightarrow> clarity_name \<Rightarrow> principal_data \<Rightarrow> u128 \<Rightarrow> view \<Rightarrow> view" where
  "ft_put D c t p n v = v(ft_balance_key D c t p \<mapsto> js_u128 (db_json D) n)"

definition ft_issued :: "'s clarity_db \<Rightarrow> qualified_contract_identifier \<Rightarrow> clarity_name \<Rightarrow> view \<Rightarrow> u128" where
  "ft_issued D c t v = word_at (db_json D) v (ft_supply_key D c t)"

definition ft_put_issued :: "'s clarity_db \<Rightarrow> qualified_contract_identifier \<Rightarrow> clarity_name \<Rightarrow> u128 \<Rightarrow> view \<Rightarrow> view" where
  "ft_put_issued D c t n v = v(ft_supply_key D c t \<mapsto> js_u128 (db_json D) n)"

lemma ft_keys_distinct:
  "ft_balance_key D c t p \<noteq> ft_supply_key D c t"
  "json_round_trips (db_json D) \<Longrightarrow> ft_balance_key D c t p = ft_balance_key D c t q \<longleftrightarrow> p = q"
  by (auto simp: ft_balance_key_def ft_supply_key_def make_key_for_quad_def make_key_for_trip_def
      json_round_trips_def inj_eq)

lemma word_at_update:
  "json_round_trips J \<Longrightarrow> word_at J (v(k \<mapsto> js_u128 J n)) k' = (if k' = k then n else word_at J v k')"
  by (simp add: word_at_def json_round_trips_def)

interpretation ft: ledger "json_round_trips (db_json D)" unat "ft_account D c t" "ft_put D c t"
    "ft_issued D c t" "ft_put_issued D c t" for D :: "'s clarity_db" and c t
  by unfold_locales
    (auto simp: fun_eq_iff ft_account_def ft_put_def ft_issued_def ft_put_issued_def word_at_update ft_keys_distinct
      ft_keys_distinct(1) [symmetric])

text \<open>The supply of a token is the sum of its balances.\<close>

abbreviation ft_backed :: "'s clarity_db \<Rightarrow> qualified_contract_identifier \<Rightarrow> clarity_name \<Rightarrow> view \<Rightarrow> bool" where
  "ft_backed D c t \<equiv> ledger.backed unat (ft_account D c t) (ft_issued D c t)"

text \<open>An STX account is found by the text of its principal.\<close>

definition stx_key :: "string \<Rightarrow> string" where
  "stx_key a = ''vm-account::'' @ a @ ''::19''"

definition stx_account :: "view \<Rightarrow> string \<Rightarrow> stx_balance" where
  "stx_account v a = (case v (stx_key a) of None \<Rightarrow> stx_balance_zero
     | Some s \<Rightarrow> (case stx_balance_deserialize s of Ok b \<Rightarrow> b | _ \<Rightarrow> stx_balance_zero))"

definition stx_put :: "string \<Rightarrow> stx_balance \<Rightarrow> view \<Rightarrow> view" where
  "stx_put a b v = v(stx_key a \<mapsto> stx_balance_serialize b)"

definition stx_issued :: "view \<Rightarrow> u128" where
  "stx_issued v = (case v ustx_liquid_supply_key of None \<Rightarrow> 0
     | Some s \<Rightarrow> (case value_deserialize s UIntType of Ok (VUInt n) \<Rightarrow> n | _ \<Rightarrow> 0))"

definition stx_put_issued :: "u128 \<Rightarrow> view \<Rightarrow> view" where
  "stx_put_issued n v = v(ustx_liquid_supply_key \<mapsto> to_hex (ser (VUInt n)))"

lemma stx_keys [simp]:
  "stx_key a = stx_key b \<longleftrightarrow> a = b" "stx_key a \<noteq> ustx_liquid_supply_key" "ustx_liquid_supply_key \<noteq> stx_key a"
  by (auto simp: stx_key_def ustx_liquid_supply_key_def)

lemma account_key: "make_key_for_account D p StxBalanceStore = stx_key (principal_text D p)"
  by (simp add: make_key_for_account_def stx_key_def)

lemma value_serialize_ser: "wf_value v \<Longrightarrow> value_serialize v = Ok (to_hex (ser v))"
  by (simp add: value_serialize_def serialize_to_vec_ser)

lemma uint_round_trip: "value_deserialize (to_hex (ser (VUInt n))) UIntType = Ok (VUInt n)"
  using deserialize_read_typed [of "VUInt n" UIntType "[]"]
  by (simp add: value_deserialize_def try_deserialize_hex_def try_deserialize_bytes_def del: ser.simps)

interpretation stx: ledger True stx_units stx_account stx_put stx_issued stx_put_issued
  by unfold_locales (auto simp: fun_eq_iff stx_account_def stx_put_def stx_issued_def stx_put_issued_def uint_round_trip
      simp del: ser.simps)


section \<open>Rules for the methods of the database\<close>

definition readable :: "(string \<Rightarrow> (unit, 'a) result) \<Rightarrow> string option \<Rightarrow> bool" where
  "readable f found \<longleftrightarrow> (\<forall>s. found = Some s \<longrightarrow> (\<exists>x. f s = Ok x))"

lemma readable_simps [simp]: "readable f None" "readable f (Some s) \<longleftrightarrow> (\<exists>x. f s = Ok x)"
  by (simp_all add: readable_def)

lemma decoded_word:
  "readable (js_read_u128 J) (v k) \<Longrightarrow>
    decoded (js_read_u128 J) (v k) = Ok (if v k = None then None else Some (word_at J v k))"
  by (cases "v k") (auto simp: word_at_def)

lemma decoded_balance:
  "readable stx_balance_deserialize (v (stx_key a)) \<Longrightarrow>
    decoded stx_balance_deserialize (v (stx_key a)) = Ok (if v (stx_key a) = None then None else Some (stx_account v a))"
  by (cases "v (stx_key a)") (auto simp: stx_account_def)

text \<open>The liquid supply is read as a typed value.\<close>

definition liquid_readable :: "view \<Rightarrow> bool" where
  "liquid_readable v \<longleftrightarrow> (\<forall>s. v ustx_liquid_supply_key = Some s \<longrightarrow> (\<exists>n. value_deserialize s UIntType = Ok (VUInt n)))"

lemma get_total_liquid_eq:
  "get_total_liquid_ustx D = bind_eff
     (db_get D (\<lambda>x. map_ok (\<lambda>v. (v, of_nat (length x) div 2 :: u64)) (value_deserialize x UIntType)) ustx_liquid_supply_key)
     (\<lambda>found. case found of None \<Rightarrow> ret 0 | Some r \<Rightarrow> of_result (expect (expect_u128 (fst r))))"
proof
  fix w
  let ?r = "get (\<lambda>x. map_ok (\<lambda>v. (v, of_nat (length x) div 2 :: u64)) (value_deserialize x UIntType)) (db_store D) w
    ustx_liquid_supply_key"
  show "get_total_liquid_ustx D w = bind_eff
     (db_get D (\<lambda>x. map_ok (\<lambda>v. (v, of_nat (length x) div 2 :: u64)) (value_deserialize x UIntType)) ustx_liquid_supply_key)
     (\<lambda>found. case found of None \<Rightarrow> ret 0 | Some r \<Rightarrow> of_result (expect (expect_u128 (fst r)))) w"
    by (cases ?r) (auto simp: get_total_liquid_ustx_def get_value_def bind_eff_def db_get_def ret_def of_result_def
        split: option.splits)
qed

context clarity_store
begin

lemma wp_get_ft_balance [wp_rules]:
  assumes "db_store D = B" "readable (js_read_u128 (db_json D)) (w_view w (ft_balance_key D c t p))"
    "Q (Ok (ft_account D c t (w_view w) p)) w"
  shows "wp P (on_db (get_ft_balance D c t p (Some d))) Q w"
  using assms
  by (auto simp: get_ft_balance_def ft_account_def decoded_word word_at_def intro!: wp_rules)

lemma wp_set_ft_balance [wp_rules]:
  assumes "Q (Ok ()) (w\<lparr>w_view := ft_put D c t p n (w_view w)\<rparr>)"
  shows "wp P (on_db (set_ft_balance D c t p n)) Q w"
  using assms by (auto simp: set_ft_balance_def ft_put_def intro!: wp_rules)

lemma wp_increase [wp_rules]:
  assumes "db_store D = B" "readable (js_read_u128 (db_json D)) (w_view w (ft_supply_key D c t))"
    "w_view w (ft_supply_key D c t) \<noteq> None" "\<And>e. Q (Err e) w"
    "\<And>n. \<lbrakk>unat n = unat (ft_issued D c t (w_view w)) + unat amount; \<forall>cap. ft_total_supply d = Some cap \<longrightarrow> n \<le> cap\<rbrakk>
      \<Longrightarrow> Q (Ok ()) (w\<lparr>w_view := ft_put_issued D c t n (w_view w)\<rparr>)"
  shows "wp P (on_db (checked_increase_token_supply D c t amount d)) Q w"
proof -
  have "decoded (js_read_u128 (db_json D)) (w_view w (ft_supply_key D c t)) = Ok (Some (ft_issued D c t (w_view w)))"
    using decoded_word [of "db_json D" "w_view w" "ft_supply_key D c t"] assms(2,3) by (simp add: ft_issued_def)
  then show ?thesis
    using assms(1,4,5)
    by (auto simp: checked_increase_token_supply_def Let_def ft_supply_key_def [symmetric] ft_put_issued_def
        not_less intro!: wp_rules)
qed

lemma wp_decrease [wp_rules]:
  assumes "db_store D = B" "readable (js_read_u128 (db_json D)) (w_view w (ft_supply_key D c t))"
    "w_view w (ft_supply_key D c t) \<noteq> None" "\<And>e. Q (Err e) w"
    "amount \<le> ft_issued D c t (w_view w) \<Longrightarrow>
      Q (Ok ()) (w\<lparr>w_view := ft_put_issued D c t (ft_issued D c t (w_view w) - amount) (w_view w)\<rparr>)"
  shows "wp P (on_db (checked_decrease_token_supply D c t amount)) Q w"
proof -
  have "decoded (js_read_u128 (db_json D)) (w_view w (ft_supply_key D c t)) = Ok (Some (ft_issued D c t (w_view w)))"
    using decoded_word [of "db_json D" "w_view w" "ft_supply_key D c t"] assms(2,3) by (simp add: ft_issued_def)
  then show ?thesis
    using assms(1,4,5)
    by (auto simp: checked_decrease_token_supply_def Let_def ft_supply_key_def [symmetric] ft_put_issued_def
        not_less intro!: wp_rules)
qed

text \<open>The metadata of a contract and the burn height are part of what natives do not change.\<close>

lemma load_ft_fixed:
  assumes "at P g w" "at P' g' w'" "gc_fixed g = gc_fixed g'"
  shows "fst (load_ft D c t (gc_database g)) = fst (load_ft D c t (gc_database g'))"
proof -
  have "stack (gc_database g) \<noteq> []" "stack (gc_database g') \<noteq> []" "query_pending_data (gc_database g)"
    "query_pending_data (gc_database g')"
    using at_views [OF assms(1)] at_views [OF assms(2)] rel_open by (metis list.distinct(1))+
  moreover have "store (gc_database g) = store (gc_database g')"
    "metadata_lookup_map (gc_database g) = metadata_lookup_map (gc_database g')"
    using assms(3) by (simp_all add: gc_fixed_def)
  ultimately show ?thesis by (simp add: load_ft_def fetch_metadata_def get_metadata_def cong: option.case_cong)
qed

lemma wp_load_ft:
  fixes g0 :: "('s, 'ctx) global_context" and Q :: "fungible_token_metadata interpreter_result \<Rightarrow> world \<Rightarrow> bool"
  assumes "at P g0 w0" "Q (fst (load_ft D c t (gc_database g0))) w"
  shows "wp P (on_db (load_ft D c t) :: ('s, 'ctx, fungible_token_metadata) vm) Q w"
proof (rule wpI)
  fix g :: "('s, 'ctx) global_context" assume g: "at P g w"
  have "on_db (load_ft D c t) g = (fst (load_ft D c t (gc_database g0)), g)"
    using load_ft_fixed [OF g assms(1) at_fixed [OF g assms(1)], of D c t] by (simp add: on_db_def zoom_def load_ft_def)
  with g assms(2) show "\<exists>r g' w'. on_db (load_ft D c t) g = (r, g') \<and> at P g' w' \<and> Q r w'" by blast
qed

lemma wp_get_ft_balance_loaded:
  fixes g0 :: "('s, 'ctx) global_context" and Q :: "u128 interpreter_result \<Rightarrow> world \<Rightarrow> bool"
  assumes "db_store D = B" "readable (js_read_u128 (db_json D)) (w_view w (ft_balance_key D c t p))"
    "at P g0 w0" "fst (load_ft D c t (gc_database g0)) \<noteq> Panic" "\<And>e. Q (Err e) w"
    "Q (Ok (ft_account D c t (w_view w) p)) w"
  shows "wp P (on_db (get_ft_balance D c t p None) :: ('s, 'ctx, u128) vm) Q w"
proof -
  have "on_db (get_ft_balance D c t p None) = (bind_eff (on_db (load_ft D c t))
      (\<lambda>d. on_db (get_ft_balance D c t p (Some d))) :: ('s, 'ctx, u128) vm)"
    by (simp add: get_ft_balance_def)
  moreover have "wp P (on_db (get_ft_balance D c t p (Some d)) :: ('s, 'ctx, u128) vm) Q w" for d
    using assms(1,2,6) by (rule wp_get_ft_balance)
  ultimately show ?thesis
    using assms(4,5)
    by (cases "fst (load_ft D c t (gc_database g0))") (auto intro!: wp_bind wp_load_ft [OF assms(3)])
qed

section \<open>STX accounts\<close>

lemma wp_snapshot:
  fixes g0 :: "('s, 'ctx) global_context" and Q :: "stx_balance_snapshot interpreter_result \<Rightarrow> world \<Rightarrow> bool"
  assumes "db_store D = B" "readable stx_balance_deserialize (w_view w (stx_key (principal_text D p)))"
    "at P g0 w0" "get_current_burnchain_block_height D (gc_database g0) = Ok h"
    "Q (Ok \<lparr>snap_principal = p, snap_balance = stx_account (w_view w) (principal_text D p),
      snap_burn_block_height = ucast h\<rparr>) w"
  shows "wp P (on_db (get_stx_balance_snapshot D p) :: ('s, 'ctx, stx_balance_snapshot) vm) Q w"
proof -
  have height: "wp P (on_db (\<lambda>w. (get_current_burnchain_block_height D w, w)) :: ('s, 'ctx, u32) vm) R w1"
    if "R (Ok h) w1" for R w1
  proof (rule wpI)
    fix g :: "('s, 'ctx) global_context" assume g: "at P g w1"
    have "store (gc_database g) = store (gc_database g0)"
      using g assms(3) by (auto simp: at_def gc_fixed_def split: prod.splits)
    then have "get_current_burnchain_block_height D (gc_database g) = Ok h"
      using assms(4) by (simp only: get_current_burnchain_block_height_def)
    with g that show "\<exists>r g' w'. on_db (\<lambda>w. (get_current_burnchain_block_height D w, w)) g = (r, g') \<and> at P g' w' \<and> R r w'"
      by (auto simp: on_db_def zoom_def)
  qed
  show ?thesis
    using assms(1,2,5)
    by (auto simp: get_stx_balance_snapshot_def get_account_stx_balance_def account_key decoded_balance stx_account_def
        intro!: wp_rules height)
qed

lemma wp_decrement_liquid:
  assumes "db_store D = B" "liquid_readable (w_view w)" "\<And>e. Q (Err e) w"
    "amount \<le> stx_issued (w_view w) \<Longrightarrow>
      Q (Ok ()) (w\<lparr>w_view := stx_put_issued (stx_issued (w_view w) - amount) (w_view w)\<rparr>)"
  shows "wp P (on_db (decrement_ustx_liquid_supply D amount) :: ('s, 'ctx, unit) vm) Q w"
proof -
  have total: "wp P (on_db (get_total_liquid_ustx D) :: ('s, 'ctx, u128) vm) R w" if "R (Ok (stx_issued (w_view w))) w" for R
    using that assms(1,2)
    by (cases "w_view w ustx_liquid_supply_key")
      (auto simp: get_total_liquid_eq stx_issued_def liquid_readable_def intro!: wp_rules)
  show ?thesis
    using assms(3,4) unfolding decrement_ustx_liquid_supply_def set_ustx_liquid_supply_def
    by (auto simp: value_serialize_ser stx_put_issued_def simp del: ser.simps intro!: wp_rules total)
qed

end

section \<open>Fungible tokens of a contract\<close>

text \<open>A fungible token whose entries can be read and whose supply is the sum of its balances.\<close>

definition ft_ok :: "'t clarity_db \<Rightarrow> qualified_contract_identifier \<Rightarrow> clarity_name \<Rightarrow> view \<Rightarrow> bool" where
  "ft_ok D c t v \<longleftrightarrow> v (ft_supply_key D c t) \<noteq> None \<and> readable (js_read_u128 (db_json D)) (v (ft_supply_key D c t))
     \<and> (\<forall>p. readable (js_read_u128 (db_json D)) (v (ft_balance_key D c t p))) \<and> ft_backed D c t v"

lemma ft_okD:
  assumes "ft_ok D c t v"
  shows "\<exists>s. v (ft_supply_key D c t) = Some s" "v (ft_supply_key D c t) \<noteq> None"
    "readable (js_read_u128 (db_json D)) (v (ft_supply_key D c t))"
    "readable (js_read_u128 (db_json D)) (v (ft_balance_key D c t p))" "ft_backed D c t v"
  using assms by (auto simp: ft_ok_def)

lemma ft_put_other [simp]:
  "ft_put_issued D c t n v (ft_balance_key D c t p) = v (ft_balance_key D c t p)"
  "ft_put D c t p n v (ft_supply_key D c t) = v (ft_supply_key D c t)"
  by (simp_all add: ft_put_issued_def ft_put_def ft_keys_distinct ft_keys_distinct(1) [symmetric])

lemma two_128: "2 ^ 128 = (340282366920938463463374607431768211456 :: nat)"
  by simp

lemma fitting_sum: "unat (s :: u128) = unat a + unat n \<Longrightarrow> s = a + n \<and> unat a + unat n < 2 ^ 128"
  using unat_bounds(5) [of s] by (auto simp: word_unat_eq_iff unat_word_ariths)

text \<open>The token of the running contract.\<close>

abbreviation env_ft_ok :: "('t, 'ctx, 'l) environment \<Rightarrow> clarity_name \<Rightarrow> view \<Rightarrow> bool" where
  "env_ft_ok E \<equiv> ft_ok (env_database E) (env_contract_identifier E)"

abbreviation env_held :: "('t, 'ctx, 'l) environment \<Rightarrow> clarity_name \<Rightarrow> view \<Rightarrow> principal_data \<Rightarrow> u128" where
  "env_held E \<equiv> ft_account (env_database E) (env_contract_identifier E)"

abbreviation env_issued :: "('t, 'ctx, 'l) environment \<Rightarrow> clarity_name \<Rightarrow> view \<Rightarrow> u128" where
  "env_issued E \<equiv> ft_issued (env_database E) (env_contract_identifier E)"

abbreviation env_put :: "('t, 'ctx, 'l) environment \<Rightarrow> clarity_name \<Rightarrow> principal_data \<Rightarrow> u128 \<Rightarrow> view \<Rightarrow> view" where
  "env_put E \<equiv> ft_put (env_database E) (env_contract_identifier E)"

abbreviation env_put_issued :: "('t, 'ctx, 'l) environment \<Rightarrow> clarity_name \<Rightarrow> u128 \<Rightarrow> view \<Rightarrow> view" where
  "env_put_issued E \<equiv> ft_put_issued (env_database E) (env_contract_identifier E)"

text \<open>What minting, transferring and destroying tokens does to a world.\<close>

definition minted :: "('t, 'ctx, 'l) environment \<Rightarrow> clarity_name \<Rightarrow> principal_data \<Rightarrow> u128 \<Rightarrow> world \<Rightarrow> world" where
  "minted E t p n w =
     w\<lparr>w_view := env_put E t p (env_held E t (w_view w) p + n)
         (env_put_issued E t (env_issued E t (w_view w) + n) (w_view w)),
       w_events := w_events w @ [FTEvent (FTMintEvent \<lparr>ftm_asset_identifier = env_asset_identifier E t,
         ftm_recipient = p, ftm_amount = n\<rparr>)]\<rparr>"

definition transferred :: "('t, 'ctx, 'l) environment \<Rightarrow> clarity_name \<Rightarrow> principal_data \<Rightarrow> principal_data \<Rightarrow> u128
    \<Rightarrow> world \<Rightarrow> world" where
  "transferred E t p q n w =
     w\<lparr>w_view := env_put E t q (env_held E t (w_view w) q + n)
         (env_put E t p (env_held E t (w_view w) p - n) (w_view w)),
       w_log := w_log w @ [SentToken p (env_asset_identifier E t) n],
       w_events := w_events w @ [FTEvent (FTTransferEvent \<lparr>ftt_asset_identifier = env_asset_identifier E t,
         ftt_sender = p, ftt_recipient = q, ftt_amount = n\<rparr>)]\<rparr>"

definition destroyed :: "('t, 'ctx, 'l) environment \<Rightarrow> clarity_name \<Rightarrow> principal_data \<Rightarrow> u128 \<Rightarrow> ft_event_type
    \<Rightarrow> world \<Rightarrow> world" where
  "destroyed E t p n e w =
     w\<lparr>w_view := env_put E t p (env_held E t (w_view w) p - n)
         (env_put_issued E t (env_issued E t (w_view w) - n) (w_view w)),
       w_events := w_events w @ [FTEvent e],
       w_log := w_log w @ [SentToken p (env_asset_identifier E t) n]\<rparr>"

section \<open>STX\<close>

text \<open>The balance after a debit at a burn height, and after a credit.\<close>

definition debited :: "u64 \<Rightarrow> u128 \<Rightarrow> stx_balance \<Rightarrow> stx_balance" where
  "debited h n b = (if has_unlockable_tokens_at_burn_block b h
     then \<lparr>amount_unlocked = amount_unlocked b + amount_locked b - n, amount_locked = 0, unlock_height = 0\<rparr>
     else b\<lparr>amount_unlocked := amount_unlocked b - n\<rparr>)"

definition credited :: "u128 \<Rightarrow> stx_balance \<Rightarrow> stx_balance" where
  "credited n b = b\<lparr>amount_unlocked := amount_unlocked b + n\<rparr>"

lemma debited_rules:
  assumes "wf_stx_balance (snap_balance s)" "unat n \<le> spendable_at (snap_burn_block_height s) (snap_balance s)"
  shows "debit n s = Ok (s\<lparr>snap_balance := debited (snap_burn_block_height s) n (snap_balance s)\<rparr>)"
    and "stx_units (debited (snap_burn_block_height s) n (snap_balance s)) + unat n = stx_units (snap_balance s)"
    and "spendable_at (snap_burn_block_height s) (debited (snap_burn_block_height s) n (snap_balance s)) + unat n
      = spendable_at (snap_burn_block_height s) (snap_balance s)"
proof -
  from debit_rule [OF assms] obtain b where b: "debit n s = Ok (s\<lparr>snap_balance := b\<rparr>)"
    "stx_units b = stx_units (snap_balance s) - unat n" "unat n \<le> stx_units (snap_balance s)"
    "spendable_at (snap_burn_block_height s) b = spendable_at (snap_burn_block_height s) (snap_balance s) - unat n" .
  have "debit n s = Ok x \<Longrightarrow> x = s\<lparr>snap_balance := debited (snap_burn_block_height s) n (snap_balance s)\<rparr>" for x
    by (auto simp: debit_def unlock_available_tokens_if_any_def debited_def Let_def checked_add_def checked_sub_def
        split: if_splits)
  from this [OF b(1)] have "b = debited (snap_burn_block_height s) n (snap_balance s)"
    by (metis stx_balance_snapshot.ext_inject stx_balance_snapshot.surjective stx_balance_snapshot.update_convs(2))
  with b assms(2) show "debit n s = Ok (s\<lparr>snap_balance := debited (snap_burn_block_height s) n (snap_balance s)\<rparr>)"
    "stx_units (debited (snap_burn_block_height s) n (snap_balance s)) + unat n = stx_units (snap_balance s)"
    "spendable_at (snap_burn_block_height s) (debited (snap_burn_block_height s) n (snap_balance s)) + unat n
      = spendable_at (snap_burn_block_height s) (snap_balance s)" by simp_all
qed

lemma credited_units:
  "unat (amount_unlocked b) + unat n < 2 ^ 128 \<Longrightarrow> stx_units (credited n b) = stx_units b + unat n"
  by (simp add: stx_units_def credited_def unat_word_ariths)

text \<open>All accounts and the liquid supply can be read, and the supply is the sum of the accounts.\<close>

definition stx_ok :: "view \<Rightarrow> bool" where
  "stx_ok v \<longleftrightarrow> (\<forall>a. readable stx_balance_deserialize (v (stx_key a))) \<and> liquid_readable v \<and> stx.backed v"

lemma stx_okD:
  assumes "stx_ok v"
  shows "readable stx_balance_deserialize (v (stx_key a))" "liquid_readable v" "stx.backed v"
    "wf_stx_balance (stx_account v a)"
proof -
  show v: "readable stx_balance_deserialize (v (stx_key a))" "liquid_readable v" "stx.backed v"
    using assms by (auto simp: stx_ok_def)
  show "wf_stx_balance (stx_account v a)"
    using stx.held_le_supply [OF v(3), of a] unat_bounds(5) [of "stx_issued v"]
    by (simp add: stx.held_def wf_stx_balance_def)
qed

abbreviation env_stx :: "('t, 'ctx, 'l) environment \<Rightarrow> view \<Rightarrow> principal_data \<Rightarrow> stx_balance" where
  "env_stx E v p \<equiv> stx_account v (principal_text (env_database E) p)"

abbreviation env_put_stx :: "('t, 'ctx, 'l) environment \<Rightarrow> principal_data \<Rightarrow> stx_balance \<Rightarrow> view \<Rightarrow> view" where
  "env_put_stx E p \<equiv> stx_put (principal_text (env_database E) p)"

text \<open>What a transfer and the destruction of STX do to a world, at a burn height.\<close>

definition paid :: "('t, 'ctx, 'l) environment \<Rightarrow> u32 \<Rightarrow> principal_data \<Rightarrow> principal_data \<Rightarrow> u128 \<Rightarrow> world \<Rightarrow> world" where
  "paid E h p q n w =
     w\<lparr>w_view := env_put_stx E p (debited (ucast h) n (env_stx E (w_view w) p))
         (env_put_stx E q (credited n (env_stx E (w_view w) q)) (w_view w)),
       w_log := w_log w @ [SentStx p n],
       w_events := w_events w @ [STXEvent (STXTransferEvent \<lparr>stxt_sender = p, stxt_recipient = q, stxt_amount = n\<rparr>)]\<rparr>"

definition spent :: "('t, 'ctx, 'l) environment \<Rightarrow> u32 \<Rightarrow> principal_data \<Rightarrow> u128 \<Rightarrow> stx_event_type \<Rightarrow> world \<Rightarrow> world" where
  "spent E h p n e w =
     w\<lparr>w_view := stx_put_issued (stx_issued (w_view w) - n)
         (env_put_stx E p (debited (ucast h) n (env_stx E (w_view w) p)) (w_view w)),
       w_log := w_log w @ [BurnedStx p n], w_events := w_events w @ [STXEvent e]\<rparr>"

lemma stx_put_other [simp]: "stx_put a b v ustx_liquid_supply_key = v ustx_liquid_supply_key"
  "liquid_readable (stx_put a b v) = liquid_readable v"
  by (simp_all add: stx_put_def liquid_readable_def)

context clarity_store
begin

lemma wp_loaded_balance:
  fixes E :: "('s, 'ctx, 'l) environment" and Q :: "u128 interpreter_result \<Rightarrow> world \<Rightarrow> bool"
  assumes "deployed P E" "env_ft_ok E t (w_view w)" "\<And>e. Q (Err e) w" "Q (Ok (env_held E t (w_view w) p)) w"
  shows "wp P (on_db (get_ft_balance (env_database E) (env_contract_identifier E) t p None) :: ('s, 'ctx, u128) vm) Q w"
proof (rule wp_reached)
  fix g :: "('s, 'ctx) global_context" assume "at P g w"
  then show "wp P (on_db (get_ft_balance (env_database E) (env_contract_identifier E) t p None) :: ('s, 'ctx, u128) vm) Q w"
    using assms ft_okD(4) [OF assms(2)] by (intro wp_get_ft_balance_loaded) (auto simp: deployed_def grounded_def)
qed

lemma wp_env_snapshot:
  fixes E :: "('s, 'ctx, 'l) environment" and Q :: "stx_balance_snapshot interpreter_result \<Rightarrow> world \<Rightarrow> bool"
  assumes "ready P E h" "readable stx_balance_deserialize (w_view w (stx_key (principal_text (env_database E) p)))"
    "Q (Ok \<lparr>snap_principal = p, snap_balance = stx_account (w_view w) (principal_text (env_database E) p),
      snap_burn_block_height = ucast h\<rparr>) w"
  shows "wp P (on_db (get_stx_balance_snapshot (env_database E) p) :: ('s, 'ctx, stx_balance_snapshot) vm) Q w"
proof (rule wp_reached)
  fix g :: "('s, 'ctx) global_context" assume "at P g w"
  then show "wp P (on_db (get_stx_balance_snapshot (env_database E) p) :: ('s, 'ctx, stx_balance_snapshot) vm) Q w"
    using assms by (intro wp_snapshot) (auto simp: ready_def grounded_def)
qed

section \<open>Fungible tokens\<close>

lemma wp_mint_token:
  fixes E :: "('s, 'ctx, 'l) environment"
  assumes ground: "grounded E" and J: "J w"
    and arg: "\<And>i. \<lbrakk>0 < i; i < length args\<rbrakk> \<Longrightarrow> argument P E context J (V i) (args ! i)"
    and ok: "\<And>t w. \<lbrakk>args ! 0 = Atom t; J w\<rbrakk> \<Longrightarrow> env_ft_ok E t (w_view w)"
    and zero: "\<And>w. \<lbrakk>V 1 (VUInt 0); J w\<rbrakk> \<Longrightarrow> R (err_uint 1) w"
    and issue: "\<And>w t n p. \<lbrakk>J w; args ! 0 = Atom t; V 1 (VUInt n); V 2 (VPrincipal p); n \<noteq> 0;
        unat (env_issued E t (w_view w)) + unat n < 2 ^ 128; map_of (env_meta_ft E) t \<noteq> None;
        \<forall>m cap. map_of (env_meta_ft E) t = Some m \<and> ft_total_supply m = Some cap \<longrightarrow> env_issued E t (w_view w) + n \<le> cap\<rbrakk> \<Longrightarrow> R okay_true (minted E t p n w)"
  shows "wp P (special_mint_token E args context) (outcome E R) w"
proof -
  have held: "unat (env_held E t (w_view w) p) \<le> unat (env_issued E t (w_view w))" if "args ! 0 = Atom t" "J w" for t p w
    using ft.held_le_supply [OF ft_okD(5) [OF ok [OF that]], of p] by (simp add: ft.held_def)
  show ?thesis
    unfolding special_mint_token_def
    using groundedD [OF ground] J
    by (auto simp: native_simps ft.account_put_issued ft_okD [OF ok] zero [unfolded One_nat_def] split: option.splits
        dest!: fitting_sum
        intro!: wp_rules wp_argument [OF arg]
           issue [unfolded minted_def native_simps One_nat_def two_128])
      (meson held add_le_mono1 le_less_trans leD)
qed

lemma wp_transfer_token:
  fixes E :: "('s, 'ctx, 'l) environment"
  assumes ground: "grounded E" and J: "J w"
    and arg: "\<And>i. \<lbrakk>0 < i; i < length args\<rbrakk> \<Longrightarrow> argument P E context J (V i) (args ! i)"
    and ok: "\<And>t w. \<lbrakk>args ! 0 = Atom t; J w\<rbrakk> \<Longrightarrow> env_ft_ok E t (w_view w)"
    and refuse: "\<And>e w. J w \<Longrightarrow> R (err_uint e) w"
    and sent: "\<And>w t n p q. \<lbrakk>J w; args ! 0 = Atom t; V 1 (VUInt n); V 2 (VPrincipal p); V 3 (VPrincipal q); n \<noteq> 0; p \<noteq> q;
        n \<le> env_held E t (w_view w) p; unat (env_held E t (w_view w) q) + unat n < 2 ^ 128;
        totals_fit (w_log w @ [SentToken p (env_asset_identifier E t) n])\<rbrakk> \<Longrightarrow> R okay_true (transferred E t p q n w)"
  shows "wp P (special_transfer_token E args context) (outcome E R) w"
  unfolding special_transfer_token_def
  using groundedD [OF ground] J
  by (auto simp: native_simps ft_okD [OF ok] refuse not_less split: option.splits
      dest!: fitting_sum intro!: wp_rules wp_argument [OF arg]
        sent [unfolded transferred_def native_simps One_nat_def two_128])

lemma wp_burn_token:
  fixes E :: "('s, 'ctx, 'l) environment"
  assumes ready: "deployed P E" and J: "J w"
    and arg: "\<And>i. \<lbrakk>0 < i; i < length args\<rbrakk> \<Longrightarrow> argument P E context J (V i) (args ! i)"
    and ok: "\<And>t w. \<lbrakk>args ! 0 = Atom t; J w\<rbrakk> \<Longrightarrow> env_ft_ok E t (w_view w)"
    and refuse: "\<And>e w. J w \<Longrightarrow> R (err_uint e) w"
    and burnt: "\<And>w t n p. \<lbrakk>J w; args ! 0 = Atom t; V 1 (VUInt n); V 2 (VPrincipal p); n \<noteq> 0;
        n \<le> env_held E t (w_view w) p; n \<le> env_issued E t (w_view w);
        totals_fit (w_log w @ [SentToken p (env_asset_identifier E t) n])\<rbrakk> \<Longrightarrow> R okay_true (destroyed E t p n
        (FTBurnEvent \<lparr>ftb_asset_identifier = env_asset_identifier E t, ftb_sender = p, ftb_amount = n\<rparr>) w)"
  shows "wp P (special_burn_token E args context) (outcome E R) w"
  unfolding special_burn_token_def
  using groundedD [OF grounds(2) [OF ready]] J
  by (auto simp: native_simps ft_okD [OF ok] refuse not_less split: option.splits
      intro!: wp_loaded_balance [OF ready ok] wp_rules wp_argument [OF arg]
        burnt [unfolded destroyed_def native_simps One_nat_def two_128])

lemma wp_withdraw_token:
  fixes E :: "('s, 'ctx, 'l) environment"
  assumes ready: "deployed P E" and J: "J w"
    and arg: "\<And>i. \<lbrakk>0 < i; i < length args\<rbrakk> \<Longrightarrow> argument P E context J (V i) (args ! i)"
    and ok: "\<And>t w. \<lbrakk>args ! 0 = Atom t; J w\<rbrakk> \<Longrightarrow> env_ft_ok E t (w_view w)"
    and refuse: "\<And>e w. J w \<Longrightarrow> R (err_uint e) w"
    and withdrawn: "\<And>w t n p. \<lbrakk>J w; args ! 0 = Atom t; V 1 (VUInt n); V 2 (VPrincipal p); n \<noteq> 0;
        n \<le> env_held E t (w_view w) p; n \<le> env_issued E t (w_view w);
        totals_fit (w_log w @ [SentToken p (env_asset_identifier E t) n])\<rbrakk> \<Longrightarrow> R okay_true (destroyed E t p n
        (FTWithdrawEvent \<lparr>ftw_asset_identifier = env_asset_identifier E t, ftw_sender = p, ftw_amount = n,
          ftw_withdrawal_id = None\<rparr>) w)"
  shows "wp P (special_withdraw_token E args context) (outcome E R) w"
  unfolding special_withdraw_token_def
  using groundedD [OF grounds(2) [OF ready]] J
  by (auto simp: native_simps ft_okD [OF ok] refuse not_less split: option.splits
      intro!: wp_loaded_balance [OF ready ok] wp_rules wp_argument [OF arg]
        withdrawn [unfolded destroyed_def native_simps One_nat_def two_128])

lemma wp_get_balance:
  fixes E :: "('s, 'ctx, 'l) environment"
  assumes ground: "grounded E" and J: "J w"
    and arg: "\<And>i. \<lbrakk>0 < i; i < length args\<rbrakk> \<Longrightarrow> argument P E context J (V i) (args ! i)"
    and ok: "\<And>t w. \<lbrakk>args ! 0 = Atom t; J w\<rbrakk> \<Longrightarrow> env_ft_ok E t (w_view w)"
    and read: "\<And>w t p. \<lbrakk>J w; args ! 0 = Atom t; V 1 (VPrincipal p)\<rbrakk> \<Longrightarrow> R (VUInt (env_held E t (w_view w) p)) w"
  shows "wp P (special_get_balance E args context) (outcome E R) w"
  unfolding special_get_balance_def
  using groundedD [OF ground] J
  by (auto simp: native_simps ft_okD [OF ok] split: option.splits
      intro!: wp_rules wp_argument [OF arg] read [unfolded One_nat_def])

lemma wp_get_token_supply:
  fixes E :: "('s, 'ctx, 'l) environment"
  assumes ground: "grounded E" and J: "J w"
    and ok: "\<And>t w. \<lbrakk>args ! 0 = Atom t; J w\<rbrakk> \<Longrightarrow> env_ft_ok E t (w_view w)"
    and read: "\<And>w t. \<lbrakk>J w; args ! 0 = Atom t\<rbrakk> \<Longrightarrow> R (VUInt (env_issued E t (w_view w))) w"
  shows "wp P (special_get_token_supply E args context) (outcome E R) w"
  unfolding special_get_token_supply_def get_ft_supply_def
  using groundedD [OF ground] J
  by (auto simp: native_simps ft_supply_key_def [symmetric] decoded_word ft_okD [OF ok] ft_issued_def [symmetric] read
      split: option.splits intro!: wp_rules)

section \<open>STX functions\<close>

lemma wp_transfer_to:
  assumes "db_store D = B" "readable stx_balance_deserialize (w_view w (stx_key (principal_text D q)))"
    "wf_stx_balance (snap_balance s)"
    "\<And>e. \<lbrakk>spendable_at (snap_burn_block_height s) (snap_balance s) < unat n
      \<or> 2 ^ 128 \<le> unat (amount_unlocked (stx_account (w_view w) (principal_text D q))) + unat n\<rbrakk> \<Longrightarrow> Q (Err e) w"
    "\<lbrakk>unat n \<le> spendable_at (snap_burn_block_height s) (snap_balance s);
      unat (amount_unlocked (stx_account (w_view w) (principal_text D q))) + unat n < 2 ^ 128\<rbrakk> \<Longrightarrow>
      Q (Ok ()) (w\<lparr>w_view := stx_put (principal_text D (snap_principal s)) (debited (snap_burn_block_height s) n (snap_balance s))
        (stx_put (principal_text D q) (credited n (stx_account (w_view w) (principal_text D q))) (w_view w))\<rparr>)"
  shows "wp P (on_db (transfer_to D s q n) :: ('s, 'ctx, unit) vm) Q w"
proof -
  have acc: "(case if w_view w (stx_key (principal_text D q)) = None then None else Some (stx_account (w_view w) (principal_text D q))
      of None \<Rightarrow> stx_balance_zero | Some b \<Rightarrow> b) = stx_account (w_view w) (principal_text D q)"
    by (simp add: stx_account_def)
  show ?thesis
    using assms
    by (auto simp: transfer_to_def can_transfer_iff account_key decoded_balance acc Let_def debited_rules snapshot_save_def
        stx_put_def credited_def dest!: fitting_sum intro!: wp_rules)
qed

lemma wp_stx_transfer_consolidated:
  fixes E :: "('s, 'ctx, 'l) environment"
  assumes ready: "ready P E h" and ok: "stx_ok (w_view w)"
    and zero: "n = 0 \<Longrightarrow> Q (Ok (err_uint 3)) w" and self: "p = q \<Longrightarrow> Q (Ok (err_uint 2)) w"
    and sender: "Some p \<noteq> env_sender E \<Longrightarrow> Q (Ok (err_uint 4)) w"
    and poor: "spendable_at (ucast h) (env_stx E (w_view w) p) < unat n \<Longrightarrow> Q (Ok (err_uint 1)) w"
    and paid: "\<lbrakk>n \<noteq> 0; p \<noteq> q; env_sender E = Some p; unat n \<le> spendable_at (ucast h) (env_stx E (w_view w) p);
        unat (amount_unlocked (env_stx E (w_view w) q)) + unat n < 2 ^ 128; totals_fit (w_log w @ [SentStx p n])\<rbrakk>
        \<Longrightarrow> Q (Ok okay_true) (paid E h p q n w)"
    and fail: "\<And>e w'. \<lbrakk>\<not> unmetered P \<or> 2 ^ 128 \<le> unat (amount_unlocked (env_stx E (w_view w) q)) + unat n
        \<or> \<not> totals_fit (w_log w @ [SentStx p n])\<rbrakk> \<Longrightarrow> Q (Err e) w'"
  shows "wp P (stx_transfer_consolidated E p q n) Q w"
  unfolding stx_transfer_consolidated_def
  using groundedD [OF grounds(1) [OF ready]] zero self sender poor fail
  by (auto simp: native_simps can_transfer_iff stx_okD [OF ok]
      intro!: wp_transfer_to wp_env_snapshot [OF ready] wp_rules paid [unfolded paid_def two_128])

lemma wp_stx_transfer:
  fixes E :: "('s, 'ctx, 'l) environment"
  assumes ready: "ready P E h" and J: "J w"
    and arg: "\<And>i. i < length args \<Longrightarrow> argument P E context J (V i) (args ! i)"
    and ok: "\<And>w. J w \<Longrightarrow> stx_ok (w_view w)"
    and refuse: "\<And>e w. J w \<Longrightarrow> R (err_uint e) w"
    and paid: "\<And>w n p q. \<lbrakk>J w; V 0 (VUInt n); V 1 (VPrincipal p); V 2 (VPrincipal q); n \<noteq> 0; p \<noteq> q; env_sender E = Some p;
        unat n \<le> spendable_at (ucast h) (env_stx E (w_view w) p);
        unat (amount_unlocked (env_stx E (w_view w) q)) + unat n < 2 ^ 128; totals_fit (w_log w @ [SentStx p n])\<rbrakk>
        \<Longrightarrow> R okay_true (paid E h p q n w)"
  shows "wp P (special_stx_transfer E args context) (outcome E R) w"
  unfolding special_stx_transfer_def
  using groundedD [OF grounds(1) [OF ready]] J
  by (auto simp: native_simps refuse intro!: wp_stx_transfer_consolidated [OF ready ok] wp_rules wp_argument [OF arg]
      paid [unfolded One_nat_def])

lemma wp_stx_burn:
  fixes E :: "('s, 'ctx, 'l) environment"
  assumes ready: "ready P E h" and J: "J w"
    and arg: "\<And>i. i < length args \<Longrightarrow> argument P E context J (V i) (args ! i)"
    and ok: "\<And>w. J w \<Longrightarrow> stx_ok (w_view w)"
    and refuse: "\<And>e w. J w \<Longrightarrow> R (err_uint e) w"
    and burnt: "\<And>w n p. \<lbrakk>J w; V 0 (VUInt n); V 1 (VPrincipal p); n \<noteq> 0; env_sender E = Some p;
        unat n \<le> spendable_at (ucast h) (env_stx E (w_view w) p); n \<le> stx_issued (w_view w);
        totals_fit (w_log w @ [BurnedStx p n])\<rbrakk>
        \<Longrightarrow> R okay_true (spent E h p n (STXBurnEvent \<lparr>stxb_sender = p, stxb_amount = n\<rparr>) w)"
  shows "wp P (special_stx_burn E args context) (outcome E R) w"
  unfolding special_stx_burn_def snapshot_save_def
  using groundedD [OF grounds(1) [OF ready]] J
  by (auto simp: native_simps refuse can_transfer_iff stx_okD [OF ok] debited_rules account_key stx.laws
      stx_put_def [symmetric]
      intro!: wp_decrement_liquid wp_env_snapshot [OF ready] wp_rules wp_argument [OF arg]
        burnt [unfolded spent_def One_nat_def])

lemma wp_stx_withdraw:
  fixes E :: "('s, 'ctx, 'l) environment"
  assumes ready: "ready P E h" and J: "J w"
    and arg: "\<And>i. i < length args \<Longrightarrow> argument P E context J (V i) (args ! i)"
    and ok: "\<And>w. J w \<Longrightarrow> stx_ok (w_view w)"
    and refuse: "\<And>e w. J w \<Longrightarrow> R (err_uint e) w"
    and withdrawn: "\<And>w n p. \<lbrakk>J w; V 0 (VUInt n); V 1 (VPrincipal p); n \<noteq> 0; env_sender E = Some p;
        unat n \<le> spendable_at (ucast h) (env_stx E (w_view w) p); n \<le> stx_issued (w_view w);
        totals_fit (w_log w @ [BurnedStx p n])\<rbrakk>
        \<Longrightarrow> R okay_true (spent E h p n (STXWithdrawEvent \<lparr>stxw_sender = p, stxw_amount = n, stxw_withdrawal_id = None\<rparr>) w)"
  shows "wp P (special_stx_withdraw E args context) (outcome E R) w"
  unfolding special_stx_withdraw_def snapshot_save_def
  using groundedD [OF grounds(1) [OF ready]] J
  by (auto simp: native_simps refuse can_transfer_iff stx_okD [OF ok] debited_rules account_key stx.laws
      stx_put_def [symmetric]
      intro!: wp_decrement_liquid wp_env_snapshot [OF ready] wp_rules wp_argument [OF arg]
        withdrawn [unfolded spent_def One_nat_def])

lemma wp_stx_balance:
  fixes E :: "('s, 'ctx, 'l) environment"
  assumes ready: "ready P E h" and J: "J w"
    and arg: "\<And>i. i < length args \<Longrightarrow> argument P E context J (V i) (args ! i)"
    and ok: "\<And>w. J w \<Longrightarrow> stx_ok (w_view w)"
    and read: "\<And>w n p. \<lbrakk>J w; V 0 (VPrincipal p); unat n = spendable_at (ucast h) (env_stx E (w_view w) p)\<rbrakk>
        \<Longrightarrow> R (VUInt n) w"
  shows "wp P (special_stx_balance E args context) (outcome E R) w"
proof -
  have avail: "continue (\<lambda>n. wp P (ret (VUInt n)) (outcome E R)) (outcome E R) (get_available_balance
      \<lparr>snap_principal = p, snap_balance = env_stx E (w_view w) p, snap_burn_block_height = ucast h\<rparr>) w"
    if "J w" "V 0 (VPrincipal p)" for w p
  proof -
    let ?s = "\<lparr>snap_principal = p, snap_balance = env_stx E (w_view w) p, snap_burn_block_height = ucast h\<rparr>"
    have wf: "wf_stx_balance (snap_balance ?s)" using stx_okD(4) [OF ok, OF that(1)] by simp
    obtain n where "get_available_balance ?s = Ok n" "unat n = spendable_at (ucast h) (env_stx E (w_view w) p)"
      using available_spendable [OF wf] by auto
    with that read show ?thesis by (auto intro!: wp_rules)
  qed
  show ?thesis
    unfolding special_stx_balance_def
    using groundedD [OF grounds(1) [OF ready]] J
    by (auto simp: native_simps stx_okD [OF ok] intro!: wp_env_snapshot [OF ready] wp_rules wp_argument [OF arg] avail)
qed

end

end
