(* ===== verification/Ownership.thy ===== *)
theory Ownership
  imports Native_Logic
begin

text \<open>
  What the functions on non-fungible tokens do: an asset has at most one owner, minting gives it to
  the recipient if nobody owns it, and only its owner can be named in a transfer, a burn or a withdrawal.
\<close>

section \<open>Key types\<close>

text \<open>Types without \<open>NoType\<close>: the types a contract can declare.\<close>

fun full_type :: "type_signature \<Rightarrow> bool"
and full_fields :: "(clarity_name \<times> type_signature) list \<Rightarrow> bool" where
  "full_type NoType = False"
| "full_type IntType = True"
| "full_type UIntType = True"
| "full_type BoolType = True"
| "full_type PrincipalType = True"
| "full_type (TraitReferenceType _) = True"
| "full_type (SequenceType (BufferType _)) = True"
| "full_type (SequenceType (StringType _)) = True"
| "full_type (TupleType (TupleTypeSignature m)) = full_fields m"
| "full_type (SequenceType (ListType (ListTypeData n e))) = full_type e"
| "full_type (OptionalType t) = full_type t"
| "full_type (ResponseType t s) = (full_type t \<and> full_type s)"
| "full_fields [] = True"
| "full_fields ((_, t) # m) = (full_type t \<and> full_fields m)"

lemma full_fields_iff: "full_fields m \<longleftrightarrow> (\<forall>(n, t) \<in> set m. full_type t)"
  by (induction m) auto

lemma full_loop:
  "(\<And>n t a. (n, t) \<in> set m \<Longrightarrow> \<exists>b. admits_type t a = Ok b) \<Longrightarrow> \<exists>b. tuple_admits_loop m om = Ok b"
proof (induction m)
  case (Cons x m)
  obtain n t where x: "x = (n, t)" by (cases x)
  have rest: "\<exists>b. tuple_admits_loop m om = Ok b" using Cons.IH Cons.prems by (meson list.set_intros(2))
  show ?case
  proof (cases "map_of om n")
    case (Some u)
    obtain b c where "admits_type t u = Ok b" "tuple_admits_loop m om = Ok c"
      using Cons.prems [of n t u] rest x by auto
    with Some show ?thesis by (cases b) (auto simp: x intro: exI [of _ True])
  qed (auto simp: x)
qed auto

lemma full_admits: "full_type t \<Longrightarrow> \<exists>b. admits_type t a = Ok b"
proof (induction t arbitrary: a rule: type_induct)
  case (Tuple m)
  then have "\<exists>b. tuple_admits_loop m om = Ok b" for om
    by (intro full_loop) (auto simp: full_fields_iff)
  then show ?case by (cases a rule: wf_type.cases) (auto simp: admits_type.simps(7))
next
  case (Response t s)
  have "\<exists>b. admits_type (ResponseType t s) (ResponseType u v) = Ok b" for u v
  proof -
    obtain b c where "admits_type t u = Ok b" "admits_type s v = Ok c"
      using Response.IH Response.prems by fastforce
    then show ?thesis by (cases c) (auto simp: admits_type.simps(6) ex_bool_eq)
  qed
  then show ?case by (cases a rule: wf_type.cases) (auto simp: admits_type.simps(6))
next
  case (List n e)
  then show ?case by (cases a rule: wf_type.cases) (auto simp: admits_type.simps(1))
next
  case (Optional t)
  then show ?case by (cases a rule: wf_type.cases) (auto simp: admits_type.simps(5))
next
  case (Buffer n)
  then show ?case by (cases a rule: wf_type.cases) (auto simp: admits_type.simps(2))
next
  case (ASCII n)
  then show ?case by (cases a rule: wf_type.cases) (auto simp: admits_type.simps(3))
next
  case (UTF8 n)
  then show ?case by (cases a rule: wf_type.cases) (auto simp: admits_type.simps(4))
qed auto

section \<open>Owners in a view\<close>

text \<open>The entry of an asset is \<open>(some owner)\<close>, or \<open>none\<close> after it was burnt, as a serialized value.\<close>

lemma untyped_principal:
  assumes "wf_principal p" "k + length (ser (VPrincipal p)) \<le> unat M" "unat M \<le> 2 ^ 32" "unat d < 16"
  shows "inner_deserialize_read (rdr M (ser (VPrincipal p) @ rest) k) None d
    = Ok (VPrincipal p, rdr M rest (k + length (ser (VPrincipal p))))"
proof (cases p)
  case (Standard s)
  with assms show ?thesis
    by (subst inner_deserialize_read.simps) (simp add: deser_simps standard_principal_read_rdr)
next
  case (Contract c)
  with assms have c: "wf_standard_principal (qci_issuer c)" "valid_contract_name (qci_name c)" by auto
  then have nm: "contract_name_try_from (qci_name c) = Ok (qci_name c)" "length (qci_name c) \<le> 128"
    using valid_contract_name_iff by (auto simp: valid_contract_name_def)
  have "utf8_split (string_to_bytes (qci_name c)) \<noteq> None" using c valid_name_utf8 by blast
  note str = guarded_string_read_rdr [of contract_name_try_from "qci_name c", OF nm this]
  show ?thesis
    using assms Contract c(1)
    by (subst inner_deserialize_read.simps) (simp add: deser_simps standard_principal_read_rdr str ac_simps)
qed

definition owner_text :: "principal_data option \<Rightarrow> string" where
  "owner_text x = to_hex (ser (VOptional (map_option VPrincipal x)))"

lemma some_principal: "wf_principal p \<Longrightarrow> value_some (VPrincipal p) = Ok (VOptional (Some (VPrincipal p)))"
  by (simp add: value_some_def wrap_value_eq)

lemma untyped_owner:
  assumes "case x of None \<Rightarrow> True | Some p \<Rightarrow> wf_principal p" "length (ser (VOptional (map_option VPrincipal x))) \<le> unat M"
    "unat M \<le> 2 ^ 32"
  shows "\<exists>r. inner_deserialize_read (rdr M (ser (VOptional (map_option VPrincipal x))) 0) None 0
    = Ok (VOptional (map_option VPrincipal x), r)"
proof (cases x)
  case None
  with assms show ?thesis
    by (subst inner_deserialize_read.simps) (simp add: deser_simps value_none_def)
next
  case (Some p)
  with assms have "inner_deserialize_read (rdr M (ser (VPrincipal p) @ []) 1) None 1
      = Ok (VPrincipal p, rdr M [] (1 + length (ser (VPrincipal p))))"
    by (intro untyped_principal) auto
  moreover have some: "value_some (VPrincipal p) = Ok (VOptional (Some (VPrincipal p)))"
    using Some assms(1) by (simp add: some_principal)
  ultimately show ?thesis
    using Some assms by (subst inner_deserialize_read.simps) (simp add: deser_simps some)
qed

lemma owner_text_read:
  assumes "case x of None \<Rightarrow> True | Some p \<Rightarrow> wf_principal p"
  shows "try_deserialize_hex_untyped (owner_text x) = Ok (VOptional (map_option VPrincipal x))"
proof -
  let ?M = "ucast BOUND_VALUE_SERIALIZATION_BYTES :: u64"
  have wf: "wf_value (VOptional (map_option VPrincipal x))" using assms by (cases x) auto
  have M: "unat ?M = 2097152" by (simp add: BOUND_VALUE_SERIALIZATION_BYTES_def MAX_VALUE_SIZE_def)
  obtain r where r: "inner_deserialize_read (rdr ?M (ser (VOptional (map_option VPrincipal x))) 0) None 0
      = Ok (VOptional (map_option VPrincipal x), r)"
  proof -
    have "length (ser (VOptional (map_option VPrincipal x))) \<le> unat ?M" "unat ?M \<le> 2 ^ 32"
      using length_ser [OF wf] unfolding M by simp_all
    from untyped_owner [OF assms this] that show thesis by blast
  qed
  have "hex_digit 9 \<noteq> CHR ''x''" "hex_digit 10 \<noteq> CHR ''x''" by code_simp+
  then have zx: "take 2 (owner_text x) \<noteq> ''0x''" by (cases x) (auto simp: owner_text_def to_hex_def)
  have "deserialize_read (ser (VOptional (map_option VPrincipal x))) None = Ok (VOptional (map_option VPrincipal x), r)"
    using r by (simp only: deserialize_read_def from_reader_def rdr_def semiring_1_class.of_nat_0)
  with zx show ?thesis
    by (simp add: try_deserialize_hex_untyped_def try_deserialize_bytes_untyped_def owner_text_def Let_def del: ser.simps)
qed

lemma owner_text_simps [simp]:
  "try_deserialize_hex_untyped (owner_text None) = Ok (VOptional None)"
  "wf_principal p \<Longrightarrow> try_deserialize_hex_untyped (owner_text (Some p)) = Ok (VOptional (Some (VPrincipal p)))"
  using owner_text_read [of None] owner_text_read [of "Some p"] by simp_all

definition nft_key :: "'s clarity_db \<Rightarrow> qualified_contract_identifier \<Rightarrow> clarity_name \<Rightarrow> clarity_value \<Rightarrow> string" where
  "nft_key D c t a = make_key_for_quad D c NonFungibleToken t (to_hex (ser a))"

definition nft_owner :: "'s clarity_db \<Rightarrow> qualified_contract_identifier \<Rightarrow> clarity_name \<Rightarrow> (string \<rightharpoonup> string)
    \<Rightarrow> clarity_value \<Rightarrow> principal_data option" where
  "nft_owner D c t v a = (case v (nft_key D c t a) of None \<Rightarrow> None
     | Some s \<Rightarrow> (case try_deserialize_hex_untyped s of Ok (VOptional (Some (VPrincipal p))) \<Rightarrow> Some p | _ \<Rightarrow> None))"

definition nft_put :: "'s clarity_db \<Rightarrow> qualified_contract_identifier \<Rightarrow> clarity_name \<Rightarrow> clarity_value
    \<Rightarrow> principal_data option \<Rightarrow> (string \<rightharpoonup> string) \<Rightarrow> (string \<rightharpoonup> string)" where
  "nft_put D c t a x v = v(nft_key D c t a \<mapsto> owner_text x)"

definition owner_entry :: "string option \<Rightarrow> bool" where
  "owner_entry found \<longleftrightarrow>
     (\<forall>s. found = Some s \<longrightarrow> (\<exists>x. s = owner_text x \<and> (case x of None \<Rightarrow> True | Some p \<Rightarrow> wf_principal p)))"

definition nft_ok :: "'s clarity_db \<Rightarrow> qualified_contract_identifier \<Rightarrow> clarity_name \<Rightarrow> (string \<rightharpoonup> string) \<Rightarrow> bool" where
  "nft_ok D c t v \<longleftrightarrow> (\<forall>a. wf_value a \<longrightarrow> owner_entry (v (nft_key D c t a)))"

lemma owner_entry_cases:
  assumes "owner_entry found"
  obtains "found = None" | "found = Some (owner_text None)" | p where "found = Some (owner_text (Some p))" "wf_principal p"
proof (cases found)
  case (Some s)
  with assms obtain x where x: "s = owner_text x" "case x of None \<Rightarrow> True | Some p \<Rightarrow> wf_principal p"
    unfolding owner_entry_def by blast
  with Some that show thesis by (cases x) auto
qed (use that in blast)

lemma nft_owner_put:
  assumes "case x of None \<Rightarrow> True | Some p \<Rightarrow> wf_principal p"
  shows "nft_owner D c t (nft_put D c t a x v) b = (if ser b = ser a then x else nft_owner D c t v b)"
proof -
  have "nft_key D c t b = nft_key D c t a \<longleftrightarrow> ser b = ser a"
    by (simp add: nft_key_def make_key_for_quad_def to_hex_inj)
  then show ?thesis
    using assms by (cases x) (auto simp: nft_owner_def nft_put_def)
qed

lemma nft_owner_key_eq:
  assumes "wf_value a" "full_type ty"
  shows "nft_owner_key D c t a ty = (if admits_type ty (vtype a) = Ok True then Ok (nft_key D c t a)
      else Err (Unchecked (TypeValueError ty a)))"
proof -
  obtain b where "admits_type ty (vtype a) = Ok b" using full_admits [OF assms(2)] by blast
  then show ?thesis
    by (cases b) (simp_all add: nft_owner_key_def admits_eq [OF assms(1)] value_serialize_def
        serialize_to_vec_ser [OF assms(1)] nft_key_def del: and_then_eq_Ok)
qed

lemma admits_or_raise_eq:
  assumes "wf_value a" "full_type ty"
  shows "admits_or_raise ty a = (if admits_type ty (vtype a) = Ok True then Ok () else Err (Unchecked (TypeValueError ty a)))"
proof -
  obtain b where "admits_type ty (vtype a) = Ok b" using full_admits [OF assms(2)] by blast
  then show ?thesis
    by (cases b) (simp_all add: admits_or_raise_def admits_eq [OF assms(1)] del: and_then_eq_Ok)
qed

lemma nft_size_defined:
  assumes "wf_value a" "wf_type ty" "epoch \<noteq> Epoch10"
  shows "\<exists>n. nft_size epoch ty a = Ok n"
  using assms by (cases epoch) (auto simp: nft_size_def serialized_size_ser)

text \<open>The key types a contract declares are well formed.\<close>

definition declared_assets :: "('t, 'ctx, 'l) environment \<Rightarrow> bool" where
  "declared_assets E \<longleftrightarrow> (\<forall>t m. map_of (env_meta_nft E) t = Some m \<longrightarrow> full_type (nft_key_type m) \<and> wf_type (nft_key_type m))"

lemma declared_assetsD:
  assumes "declared_assets E" "map_of (env_meta_nft E) t = Some m"
  shows "full_type (nft_key_type m)" "wf_type (nft_key_type m)"
  using assms by (auto simp: declared_assets_def)

text \<open>The asset class of the running contract, and what changing the owner of an asset does to a world.\<close>

abbreviation env_nft_ok :: "('t, 'ctx, 'l) environment \<Rightarrow> clarity_name \<Rightarrow> (string \<rightharpoonup> string) \<Rightarrow> bool" where
  "env_nft_ok E \<equiv> nft_ok (env_database E) (env_contract_identifier E)"

abbreviation env_owner :: "('t, 'ctx, 'l) environment \<Rightarrow> clarity_name \<Rightarrow> (string \<rightharpoonup> string) \<Rightarrow> clarity_value
    \<Rightarrow> principal_data option" where
  "env_owner E \<equiv> nft_owner (env_database E) (env_contract_identifier E)"

definition owner_given :: "('t, 'ctx, 'l) environment \<Rightarrow> clarity_name \<Rightarrow> clarity_value \<Rightarrow> principal_data \<Rightarrow> world \<Rightarrow> world" where
  "owner_given E t a p w =
     w\<lparr>w_view := nft_put (env_database E) (env_contract_identifier E) t a (Some p) (w_view w),
       w_events := w_events w @ [NFTEvent (NFTMintEvent \<lparr>nftm_asset_identifier = env_asset_identifier E t,
         nftm_recipient = p, nftm_value = a\<rparr>)]\<rparr>"

definition owner_changed :: "('t, 'ctx, 'l) environment \<Rightarrow> clarity_name \<Rightarrow> clarity_value \<Rightarrow> principal_data
    \<Rightarrow> principal_data option \<Rightarrow> nft_event_type \<Rightarrow> world \<Rightarrow> world" where
  "owner_changed E t a p x e w =
     w\<lparr>w_view := nft_put (env_database E) (env_contract_identifier E) t a x (w_view w),
       w_log := w_log w @ [SentAsset p (env_asset_identifier E t) a], w_events := w_events w @ [NFTEvent e]\<rparr>"

context clarity_store
begin

lemma continue_nft_size:
  "\<lbrakk>wf_value a; wf_type ty; epoch \<noteq> Epoch10; \<And>n. K n w\<rbrakk> \<Longrightarrow> continue K Q (nft_size epoch ty a) w"
  using nft_size_defined [of a ty epoch] by auto

lemma wp_no_such_token:
  fixes m :: "('s, 'ctx, 'a) vm"
  assumes "wp P m (\<lambda>r w'. case r of Ok x \<Rightarrow> wp P (some x) Q w'
      | Err e \<Rightarrow> if (\<exists>t. e = Runtime RT_NoSuchToken t) then wp P none Q w' else Q (Err e) w'
      | Panic \<Rightarrow> Q Panic w') w"
  shows "wp P (on_no_such_token m none some) Q w"
  unfolding wp_def
proof (intro allI impI)
  fix g :: "('s, 'ctx) global_context" assume "at P g w"
  with assms obtain w1 where w1: "fst (m g) = Panic \<or> at P (snd (m g)) w1"
    "case fst (m g) of Ok x \<Rightarrow> wp P (some x) Q w1
      | Err e \<Rightarrow> if (\<exists>t. e = Runtime RT_NoSuchToken t) then wp P none Q w1 else Q (Err e) w1
      | Panic \<Rightarrow> Q Panic w1" unfolding wp_def by blast
  obtain r g1 where m: "m g = (r, g1)" by (cases "m g")
  show "\<exists>w'. (fst (on_no_such_token m none some g) = Panic \<or> at P (snd (on_no_such_token m none some g)) w')
      \<and> Q (fst (on_no_such_token m none some g)) w'"
  proof (cases r)
    case (Err e)
    show ?thesis
    proof (cases "\<exists>t. e = Runtime RT_NoSuchToken t")
      case False
      then have "on_no_such_token m none some g = (Err e, g1)"
        by (auto simp: on_no_such_token_def m Err split: vm_error.splits runtime_error_type.splits)
      with w1 m Err False show ?thesis by auto
    qed (use w1 m Err in \<open>auto simp: on_no_such_token_def wp_def\<close>)
  qed (use w1 m in \<open>auto simp: on_no_such_token_def wp_def\<close>)
qed

lemma wp_owner:
  fixes none :: "('s, 'ctx, 'b) vm"
  assumes D: "db_store D = B" "wf_value a" "full_type ty" and ok: "nft_ok D c t (w_view w)"
    and "\<And>e. Q (Err e) w" "nft_owner D c t (w_view w) a = None \<Longrightarrow> wp P none Q w"
    and "\<And>p. \<lbrakk>nft_owner D c t (w_view w) a = Some p; wf_principal p\<rbrakk> \<Longrightarrow> wp P (some p) Q w"
  shows "wp P (on_no_such_token (on_db (get_nft_owner D c t a ty)) none some) Q w"
proof -
  let ?k = "nft_key D c t a"
  have "owner_entry (w_view w ?k)" using ok D(2) by (simp add: nft_ok_def)
  then show ?thesis
  proof (cases rule: owner_entry_cases)
    case 1
    with assms show ?thesis
      by (auto simp: get_nft_owner_def nft_owner_key_eq nft_owner_def intro!: wp_no_such_token wp_rules)
  next
    case 2
    with assms show ?thesis
      by (auto simp: get_nft_owner_def nft_owner_key_eq nft_owner_def intro!: wp_no_such_token wp_rules)
  next
    case (3 p)
    with assms show ?thesis
      by (intro wp_no_such_token) (simp add: get_nft_owner_def nft_owner_key_eq nft_owner_def,
        intro impI conjI wp_rules, simp_all, rule wp_ret, simp)
  qed
qed

lemma wp_set_nft_owner:
  assumes "wf_value a" "full_type ty" "wf_principal p" "\<And>e. Q (Err e) w"
    "Q (Ok ()) (w\<lparr>w_view := nft_put D c t a (Some p) (w_view w)\<rparr>)"
  shows "wp P (on_db (set_nft_owner D c t a p ty) :: ('s, 'ctx, unit) vm) Q w"
  using assms
  by (auto simp: set_nft_owner_def nft_owner_key_eq some_principal value_serialize_def serialize_to_vec_ser
      nft_put_def owner_text_def simp del: ser.simps intro!: wp_rules)

lemma wp_burn_nft:
  assumes "wf_value a" "full_type ty" "\<And>e. Q (Err e) w" "Q (Ok ()) (w\<lparr>w_view := nft_put D c t a None (w_view w)\<rparr>)"
  shows "wp P (on_db (burn_nft D c t a ty) :: ('s, 'ctx, unit) vm) Q w"
  using assms
  by (auto simp: burn_nft_def nft_owner_key_eq value_none_def value_serialize_def serialize_to_vec_ser
      nft_put_def owner_text_def simp del: ser.simps intro!: wp_rules)

lemma wp_epoch:
  fixes E :: "('s, 'ctx, 'l) environment"
  assumes "dated P E" "\<And>epoch. epoch \<noteq> Epoch10 \<Longrightarrow> Q (Ok epoch) w"
  shows "wp P (env_epoch :: ('s, 'ctx, stacks_epoch_id) vm) Q w"
proof (rule wpI)
  fix g :: "('s, 'ctx) global_context" assume g: "at P g w"
  with assms(1) have "gc_epoch_id g \<noteq> Epoch10" unfolding dated_def by blast
  with g assms(2) show "\<exists>r g' w'. env_epoch g = (r, g') \<and> at P g' w' \<and> Q r w'" by (auto simp: env_epoch_def)
qed

lemma continue_key_type [simp]:
  "continue K Q (env_nft_key_type E t) w = (case map_of (env_meta_nft E) t of
     None \<Rightarrow> Q (Err (Unchecked (NoSuchNFT t))) w | Some m \<Rightarrow> K (nft_key_type m) w)"
  by (simp add: env_nft_key_type_def split: option.splits)

lemma continue_admits:
  "\<lbrakk>wf_value a; full_type ty; admits_type ty (vtype a) = Ok True \<Longrightarrow> K () w; \<And>e. Q (Err e) w\<rbrakk>
    \<Longrightarrow> continue K Q (admits_or_raise ty a) w"
  by (simp add: admits_or_raise_eq)

lemmas nft_rules = wp_epoch wp_owner wp_set_nft_owner wp_burn_nft continue_nft_size continue_admits

section \<open>Functions on non-fungible tokens\<close>

lemma wp_mint_asset:
  fixes E :: "('s, 'ctx, 'l) environment"
  assumes ready: "dated P E" and J: "J w"
    and arg: "\<And>i. \<lbrakk>0 < i; i < length args\<rbrakk> \<Longrightarrow> argument P E context J (V i) (args ! i)"
    and V: "\<And>i v. V i v \<Longrightarrow> wf_value v" and declared: "declared_assets E"
    and ok: "\<And>t w. \<lbrakk>args ! 0 = Atom t; J w\<rbrakk> \<Longrightarrow> env_nft_ok E t (w_view w)"
    and refuse: "\<And>e w. J w \<Longrightarrow> R (err_uint e) w"
    and given: "\<And>w t a p. \<lbrakk>J w; args ! 0 = Atom t; V 1 a; V 2 (VPrincipal p); env_owner E t (w_view w) a = None\<rbrakk>
        \<Longrightarrow> R okay_true (owner_given E t a p w)"
  shows "wp P (special_mint_asset E args context) (outcome E R) w"
proof -
  have prin: "wf_principal p" if "V i (VPrincipal p)" for i p using V [OF that] by simp
  show ?thesis
    unfolding special_mint_asset_def
    using groundedD [OF grounds(3) [OF ready]] J
    by (auto simp: native_simps V prin declared_assetsD [OF declared] ok refuse split: option.splits
        intro!: nft_rules wp_epoch [OF ready] wp_rules wp_argument [OF arg]
          given [unfolded owner_given_def native_simps One_nat_def])
qed

lemma wp_transfer_asset:
  fixes E :: "('s, 'ctx, 'l) environment"
  assumes ready: "dated P E" and J: "J w"
    and arg: "\<And>i. \<lbrakk>0 < i; i < length args\<rbrakk> \<Longrightarrow> argument P E context J (V i) (args ! i)"
    and V: "\<And>i v. V i v \<Longrightarrow> wf_value v" and declared: "declared_assets E"
    and ok: "\<And>t w. \<lbrakk>args ! 0 = Atom t; J w\<rbrakk> \<Longrightarrow> env_nft_ok E t (w_view w)"
    and self: "\<And>w p. \<lbrakk>J w; V 2 (VPrincipal p); V 3 (VPrincipal p)\<rbrakk> \<Longrightarrow> R (err_uint 2) w"
    and absent: "\<And>w t a p q. \<lbrakk>J w; args ! 0 = Atom t; V 1 a; V 2 (VPrincipal p); V 3 (VPrincipal q); p \<noteq> q;
        env_owner E t (w_view w) a = None\<rbrakk> \<Longrightarrow> R (err_uint 3) w"
    and other: "\<And>w t a p q r. \<lbrakk>J w; args ! 0 = Atom t; V 1 a; V 2 (VPrincipal p); V 3 (VPrincipal q); p \<noteq> q;
        env_owner E t (w_view w) a = Some r; r \<noteq> p\<rbrakk> \<Longrightarrow> R (err_uint 1) w"
    and moved: "\<And>w t a p q. \<lbrakk>J w; args ! 0 = Atom t; V 1 a; V 2 (VPrincipal p); V 3 (VPrincipal q); p \<noteq> q;
        env_owner E t (w_view w) a = Some p\<rbrakk> \<Longrightarrow> R okay_true (owner_changed E t a p (Some q)
          (NFTTransferEvent \<lparr>nftt_asset_identifier = env_asset_identifier E t, nftt_sender = p, nftt_recipient = q,
            nftt_value = a\<rparr>) w)"
  shows "wp P (special_transfer_asset E args context) (outcome E R) w"
proof -
  have prin: "wf_principal p" if "V i (VPrincipal p)" for i p using V [OF that] by simp
  show ?thesis
    unfolding special_transfer_asset_def
    using groundedD [OF grounds(3) [OF ready]] J
    by (auto simp: native_simps V prin declared_assetsD [OF declared] ok split: option.splits
        intro!: nft_rules wp_epoch [OF ready] wp_rules wp_argument [OF arg]
          moved [unfolded owner_changed_def native_simps One_nat_def])
      (metis self absent other One_nat_def)+
qed

lemma wp_burn_asset:
  fixes E :: "('s, 'ctx, 'l) environment"
  assumes ready: "dated P E" and J: "J w"
    and arg: "\<And>i. \<lbrakk>0 < i; i < length args\<rbrakk> \<Longrightarrow> argument P E context J (V i) (args ! i)"
    and V: "\<And>i v. V i v \<Longrightarrow> wf_value v" and declared: "declared_assets E"
    and ok: "\<And>t w. \<lbrakk>args ! 0 = Atom t; J w\<rbrakk> \<Longrightarrow> env_nft_ok E t (w_view w)"
    and refuse: "\<And>e w. J w \<Longrightarrow> R (err_uint e) w"
    and burnt: "\<And>w t a p. \<lbrakk>J w; args ! 0 = Atom t; V 1 a; V 2 (VPrincipal p); env_owner E t (w_view w) a = Some p\<rbrakk>
        \<Longrightarrow> R okay_true (owner_changed E t a p None
          (NFTBurnEvent \<lparr>nftb_asset_identifier = env_asset_identifier E t, nftb_sender = p, nftb_value = a\<rparr>) w)"
  shows "wp P (special_burn_asset E args context) (outcome E R) w"
proof -
  have prin: "wf_principal p" if "V i (VPrincipal p)" for i p using V [OF that] by simp
  show ?thesis
    unfolding special_burn_asset_def
    using groundedD [OF grounds(3) [OF ready]] J
    by (auto simp: native_simps V prin declared_assetsD [OF declared] ok refuse split: option.splits
        intro!: nft_rules wp_epoch [OF ready] wp_rules wp_argument [OF arg]
          burnt [unfolded owner_changed_def native_simps One_nat_def])
qed

lemma wp_withdraw_asset:
  fixes E :: "('s, 'ctx, 'l) environment"
  assumes ground: "grounded E" and J: "J w"
    and arg: "\<And>i. \<lbrakk>0 < i; i < length args\<rbrakk> \<Longrightarrow> argument P E context J (V i) (args ! i)"
    and V: "\<And>i v. V i v \<Longrightarrow> wf_value v" and declared: "declared_assets E"
    and ok: "\<And>t w. \<lbrakk>args ! 0 = Atom t; J w\<rbrakk> \<Longrightarrow> env_nft_ok E t (w_view w)"
    and refuse: "\<And>e w. J w \<Longrightarrow> R (err_uint e) w"
    and withdrawn: "\<And>w t n p. \<lbrakk>J w; args ! 0 = Atom t; V 1 (VUInt n); V 2 (VPrincipal p);
        env_owner E t (w_view w) (VUInt n) = Some p\<rbrakk> \<Longrightarrow> R okay_true (owner_changed E t (VUInt n) p None
          (NFTWithdrawEvent \<lparr>nftw_asset_identifier = env_asset_identifier E t, nftw_sender = p, nftw_id = n,
            nftw_withdrawal_id = None\<rparr>) w)"
  shows "wp P (special_withdraw_asset E args context) (outcome E R) w"
proof -
  have prin: "wf_principal p" if "V i (VPrincipal p)" for i p using V [OF that] by simp
  show ?thesis
    unfolding special_withdraw_asset_def
    using groundedD [OF ground] J
    by (auto simp: native_simps V prin declared_assetsD [OF declared] ok refuse split: option.splits
        intro!: nft_rules wp_rules wp_argument [OF arg]
          withdrawn [unfolded owner_changed_def native_simps One_nat_def])
qed

lemma wp_get_owner:
  fixes E :: "('s, 'ctx, 'l) environment"
  assumes ready: "dated P E" and J: "J w"
    and arg: "\<And>i. \<lbrakk>0 < i; i < length args\<rbrakk> \<Longrightarrow> argument P E context J (V i) (args ! i)"
    and V: "\<And>i v. V i v \<Longrightarrow> wf_value v" and declared: "declared_assets E"
    and ok: "\<And>t w. \<lbrakk>args ! 0 = Atom t; J w\<rbrakk> \<Longrightarrow> env_nft_ok E t (w_view w)"
    and unowned: "\<And>w t a. \<lbrakk>J w; args ! 0 = Atom t; V 1 a; env_owner E t (w_view w) a = None\<rbrakk> \<Longrightarrow> R (VOptional None) w"
    and owned: "\<And>w t a p. \<lbrakk>J w; args ! 0 = Atom t; V 1 a; env_owner E t (w_view w) a = Some p\<rbrakk>
        \<Longrightarrow> R (VOptional (Some (VPrincipal p))) w"
  shows "wp P (special_get_owner E args context) (outcome E R) w"
proof -
  have prin: "wf_principal p" if "V i (VPrincipal p)" for i p using V [OF that] by simp
  show ?thesis
    unfolding special_get_owner_def
    using groundedD [OF grounds(3) [OF ready]] J
    by (auto simp: native_simps V prin declared_assetsD [OF declared] ok some_principal value_none_def split: option.splits
        intro!: nft_rules wp_epoch [OF ready] wp_rules wp_argument [OF arg])
      (metis unowned owned One_nat_def)+
qed

end

end
