(* ===== verification/Solvency.thy ===== *)
theory Solvency
  imports Token_Logic Ownership
begin

text \<open>
  The asset functions keep the books. The books of a view are kept when the recorded supply of every
  declared fungible token is the sum of its balances and within the cap it was declared with, the liquid supply of STX
  is the sum of all accounts, and every asset has at most one owner; whatever native runs, on arguments whose evaluation keeps the
  books, keeps them.
\<close>

section \<open>Keys of the ledgers\<close>

definition ft_keys :: "'s clarity_db \<Rightarrow> qualified_contract_identifier \<times> clarity_name \<Rightarrow> string set" where
  "ft_keys D ct = insert (ft_supply_key D (fst ct) (snd ct)) (range (ft_balance_key D (fst ct) (snd ct)))"

definition nft_keys :: "'s clarity_db \<Rightarrow> qualified_contract_identifier \<times> clarity_name \<Rightarrow> string set" where
  "nft_keys D ct = range (nft_key D (fst ct) (snd ct))"

definition stx_keys :: "string set" where
  "stx_keys = insert ustx_liquid_supply_key (range stx_key)"

definition named :: "qualified_contract_identifier \<times> clarity_name \<Rightarrow> bool" where
  "named ct \<longleftrightarrow> addressable (Contract (fst ct)) \<and> valid_clarity_name (snd ct)"

lemma ledger_keys:
  "ft_supply_key D c t = key_text D (FtSupplyKey c t)" "ft_balance_key D c t p = key_text D (FtBalanceKey c t p)"
  "nft_key D c t a = key_text D (NftOwnerKey c t (to_hex (ser a)))"
  by (simp_all add: ft_supply_key_def nft_key_def)

lemma disjoint_keys:
  assumes "json_round_trips (db_json D)" "named ct" "named du"
  shows "ct \<noteq> du \<Longrightarrow> k \<in> ft_keys D ct \<Longrightarrow> k \<notin> ft_keys D du"
    and "ct \<noteq> du \<Longrightarrow> k \<in> nft_keys D ct \<Longrightarrow> k \<notin> nft_keys D du"
    and "k \<in> ft_keys D ct \<Longrightarrow> k \<notin> nft_keys D du"
  using assms
  by (auto simp: ft_keys_def nft_keys_def named_def ledger_keys key_text_inj prod_eq_iff simp del: key_text.simps)

lemma stx_disjoint:
  "k \<in> ft_keys D ct \<Longrightarrow> k \<notin> stx_keys" "k \<in> nft_keys D ct \<Longrightarrow> k \<notin> stx_keys"
  by (auto simp: ft_keys_def nft_keys_def stx_keys_def stx_key_def ft_supply_key_def nft_key_def key_defs)

lemma ft_ok_cong:
  assumes "\<And>k. k \<in> ft_keys D (c, t) \<Longrightarrow> v k = v' k"
  shows "ft_ok D c t v = ft_ok D c t v'"
proof -
  have keys: "v (ft_supply_key D c t) = v' (ft_supply_key D c t)" "v (ft_balance_key D c t p) = v' (ft_balance_key D c t p)" for p
    using assms by (simp_all add: ft_keys_def)
  then have "ft_account D c t v = ft_account D c t v'" "ft_issued D c t v = ft_issued D c t v'"
    by (auto simp: ft_account_def ft_issued_def word_at_def)
  from ft.same_backed [OF this] keys show ?thesis by (simp add: ft_ok_def)
qed

text \<open>The supply of a token stays within the cap it was declared with.\<close>

definition within :: "fungible_token_metadata \<Rightarrow> u128 \<Rightarrow> bool" where
  "within m n \<longleftrightarrow> (\<forall>cap. ft_total_supply m = Some cap \<longrightarrow> n \<le> cap)"

definition ft_books :: "'s clarity_db \<Rightarrow> qualified_contract_identifier \<Rightarrow> clarity_name \<Rightarrow> fungible_token_metadata
    \<Rightarrow> view \<Rightarrow> bool" where
  "ft_books D c t m v \<longleftrightarrow> ft_ok D c t v \<and> within m (ft_issued D c t v)"

lemma ft_books_cong:
  assumes "\<And>k. k \<in> ft_keys D (c, t) \<Longrightarrow> v k = v' k"
  shows "ft_books D c t m v = ft_books D c t m v'"
proof -
  have "ft_ok D c t v = ft_ok D c t v'" by (rule ft_ok_cong) (rule assms)
  moreover have "ft_issued D c t v = ft_issued D c t v'"
    using assms [of "ft_supply_key D c t"] by (simp add: ft_issued_def word_at_def ft_keys_def)
  ultimately show ?thesis by (simp add: ft_books_def)
qed

lemma stx_ok_cong:
  assumes "\<And>k. k \<in> stx_keys \<Longrightarrow> v k = v' k"
  shows "stx_ok v = stx_ok v'"
proof -
  have keys: "v ustx_liquid_supply_key = v' ustx_liquid_supply_key" "v (stx_key a) = v' (stx_key a)" for a
    using assms by (simp_all add: stx_keys_def)
  then have "stx_account v = stx_account v'" "stx_issued v = stx_issued v'"
    by (auto simp: stx_account_def stx_issued_def)
  from stx.same_backed [OF this] keys show ?thesis by (simp add: stx_ok_def liquid_readable_def)
qed

lemma nft_ok_cong:
  assumes "\<And>k. k \<in> nft_keys D (c, t) \<Longrightarrow> v k = v' k"
  shows "nft_ok D c t v = nft_ok D c t v'"
  using assms by (simp add: nft_ok_def nft_keys_def)

section \<open>The books\<close>

type_synonym declared_tokens = "qualified_contract_identifier \<times> clarity_name \<rightharpoonup> fungible_token_metadata"

definition books :: "'s clarity_db \<Rightarrow> declared_tokens \<Rightarrow> view \<Rightarrow> bool" where
  "books D T v \<longleftrightarrow> stx_ok v \<and> (\<forall>c t m. T (c, t) = Some m \<longrightarrow> named (c, t) \<and> ft_books D c t m v)
     \<and> (\<forall>c t. named (c, t) \<longrightarrow> nft_ok D c t v)"

lemma booksD:
  assumes "books D T v"
  shows "stx_ok v" "T (c, t) = Some m \<Longrightarrow> ft_books D c t m v" "T (c, t) = Some m \<Longrightarrow> named (c, t)"
    "named (c, t) \<Longrightarrow> nft_ok D c t v"
  using assms by (auto simp: books_def)

text \<open>A write to one ledger keeps the books when it keeps that ledger.\<close>

lemma books_frame:
  assumes "books D T v" "json_round_trips (db_json D)"
  shows "\<lbrakk>T (c, t) = Some m; \<And>k. k \<notin> ft_keys D (c, t) \<Longrightarrow> v' k = v k; ft_books D c t m v'\<rbrakk> \<Longrightarrow> books D T v'"
    and "\<lbrakk>named (c, t); \<And>k. k \<notin> nft_keys D (c, t) \<Longrightarrow> v' k = v k; nft_ok D c t v'\<rbrakk> \<Longrightarrow> books D T v'"
    and "\<lbrakk>\<And>k. k \<notin> stx_keys \<Longrightarrow> v' k = v k; stx_ok v'\<rbrakk> \<Longrightarrow> books D T v'"
proof -
  note b = booksD [OF assms(1)] and dis = disjoint_keys [OF assms(2)]
  show "books D T v'" if new: "T (c, t) = Some m" "\<And>k. k \<notin> ft_keys D (c, t) \<Longrightarrow> v' k = v k" "ft_books D c t m v'"
  proof -
    have "stx_ok v'" using stx_ok_cong [of v v'] b(1) new(2) stx_disjoint(1) by metis
    moreover have "ft_books D d u k v'" if "T (d, u) = Some k" for d u k
      using ft_books_cong [of D d u v v'] b(2,3) dis(1) that new by (metis option.inject prod.inject)
    moreover have "nft_ok D d u v'" if "named (d, u)" for d u
      using nft_ok_cong [of D d u v v'] b(3,4) dis(3) that new by metis
    ultimately show ?thesis using b(3) by (auto simp: books_def)
  qed
  show "books D T v'" if new: "named (c, t)" "\<And>k. k \<notin> nft_keys D (c, t) \<Longrightarrow> v' k = v k" "nft_ok D c t v'"
  proof -
    have "stx_ok v'" using stx_ok_cong [of v v'] b(1) new(2) stx_disjoint(2) by metis
    moreover have "ft_books D d u k v'" if "T (d, u) = Some k" for d u k
      using ft_books_cong [of D d u v v'] b(2,3) dis(3) that new by metis
    moreover have "nft_ok D d u v'" if "named (d, u)" for d u
      using nft_ok_cong [of D d u v v'] b(4) dis(2) that new by (metis prod.inject)
    ultimately show ?thesis using b(3) by (auto simp: books_def)
  qed
  show "books D T v'" if new: "\<And>k. k \<notin> stx_keys \<Longrightarrow> v' k = v k" "stx_ok v'"
  proof -
    have "ft_books D d u k v'" if "T (d, u) = Some k" for d u k
      using ft_books_cong [of D d u v v'] b(2) that new stx_disjoint(1) by metis
    moreover have "nft_ok D d u v'" if "named (d, u)" for d u
      using nft_ok_cong [of D d u v v'] b(4) that new stx_disjoint(2) by metis
    ultimately show ?thesis using b(3) new(2) by (auto simp: books_def)
  qed
qed

section \<open>The natives keep the books\<close>

lemma readable_upd: "readable f ((v(k \<mapsto> s)) k') \<longleftrightarrow> (if k' = k then (\<exists>x. f s = Ok x) else readable f (v k'))"
  by simp

lemma ft_put_readable:
  assumes "json_round_trips (db_json D)"
  shows "readable (js_read_u128 (db_json D)) (v k) \<Longrightarrow> readable (js_read_u128 (db_json D)) (ft_put D c t p n v k)"
    and "readable (js_read_u128 (db_json D)) (v k) \<Longrightarrow> readable (js_read_u128 (db_json D)) (ft_put_issued D c t n v k)"
    and "v k \<noteq> None \<Longrightarrow> ft_put D c t p n v k \<noteq> None" "v k \<noteq> None \<Longrightarrow> ft_put_issued D c t n v k \<noteq> None"
  using assms by (auto simp: ft_put_def ft_put_issued_def json_round_trips_def)

lemma ft_ok_issue:
  assumes "ft_ok D c t v" "json_round_trips (db_json D)"
    "unat b + unat (ft_issued D c t v) = unat (ft_account D c t v p) + unat s"
  shows "ft_ok D c t (ft_put D c t p b (ft_put_issued D c t s v))"
proof -
  note ok = ft_okD [OF assms(1)]
  have "ft_backed D c t (ft_put D c t p b (ft_put_issued D c t s v))"
    by (rule ft.issue_backed(1) [OF assms(2) ok(5)]) (simp add: ft.held_def assms(3))
  with ok assms(2) show ?thesis by (simp add: ft_ok_def ft_put_readable del: not_None_eq)
qed

lemma ft_ok_move:
  assumes "ft_ok D c t v" "json_round_trips (db_json D)" "p \<noteq> q"
    "unat b + unat b' = unat (ft_account D c t v p) + unat (ft_account D c t v q)"
  shows "ft_ok D c t (ft_put D c t q b' (ft_put D c t p b v))"
proof -
  note ok = ft_okD [OF assms(1)]
  have "ft_backed D c t (ft_put D c t q b' (ft_put D c t p b v))"
    by (rule ft.move_backed [OF assms(2) ok(5) assms(3)]) (simp add: ft.held_def assms(4))
  with ok assms(2) show ?thesis by (simp add: ft_ok_def ft_put_readable del: not_None_eq)
qed

lemma stx_put_readable:
  "readable stx_balance_deserialize (v (stx_key a)) \<Longrightarrow> readable stx_balance_deserialize (stx_put x b v (stx_key a))"
  "stx_put_issued n v (stx_key a) = v (stx_key a)" "liquid_readable (stx_put_issued n v)"
  using uint_round_trip [of n] by (auto simp: stx_put_def stx_put_issued_def liquid_readable_def simp del: ser.simps)

lemma ft_writes_keys:
  "k \<notin> ft_keys D (c, t) \<Longrightarrow> ft_put D c t p n v k = v k" "k \<notin> ft_keys D (c, t) \<Longrightarrow> ft_put_issued D c t n v k = v k"
  by (auto simp: ft_put_def ft_put_issued_def ft_keys_def)

lemma stx_writes_keys:
  "k \<notin> stx_keys \<Longrightarrow> stx_put a b v k = v k" "k \<notin> stx_keys \<Longrightarrow> stx_put_issued n v k = v k"
  by (auto simp: stx_put_def stx_put_issued_def stx_keys_def)

lemma unat_u128_add: "unat (a :: u128) + unat b < 2 ^ 128 \<Longrightarrow> unat (a + b) = unat a + unat b"
  by (simp add: unat_word_ariths)

lemma books_ft_effects:
  fixes E :: "('s, 'ctx, 'l) environment"
  assumes "books (env_database E) T (w_view w)" "json_round_trips (db_json (env_database E))"
    "T (env_contract_identifier E, t) = Some m"
  shows "\<lbrakk>unat (env_issued E t (w_view w)) + unat n < 2 ^ 128; within m (env_issued E t (w_view w) + n)\<rbrakk>
      \<Longrightarrow> books (env_database E) T (w_view (minted E t p n w))"
    and "\<lbrakk>p \<noteq> q; n \<le> env_held E t (w_view w) p; unat (env_held E t (w_view w) q) + unat n < 2 ^ 128\<rbrakk>
      \<Longrightarrow> books (env_database E) T (w_view (transferred E t p q n w))"
    and "\<lbrakk>n \<le> env_held E t (w_view w) p; n \<le> env_issued E t (w_view w)\<rbrakk>
      \<Longrightarrow> books (env_database E) T (w_view (destroyed E t p n e w))"
proof -
  have ok: "env_ft_ok E t (w_view w)" and cap: "within m (env_issued E t (w_view w))"
    using booksD(2) [OF assms(1,3)] by (simp_all add: ft_books_def)
  note held = ft.held_le_supply [OF ft_okD(5) [OF ok], unfolded ft.held_def]
  note issued = ft.issued_put_account [OF assms(2)] ft.issued_put_issued [OF assms(2)]
  show "books (env_database E) T (w_view (minted E t p n w))"
    if "unat (env_issued E t (w_view w)) + unat n < 2 ^ 128" "within m (env_issued E t (w_view w) + n)"
    using held [of p] that
    by (intro books_frame(1) [OF assms])
      (auto simp: minted_def ft_books_def issued ft_writes_keys unat_u128_add intro!: ft_ok_issue [OF ok assms(2)])
  show "books (env_database E) T (w_view (transferred E t p q n w))"
    if "p \<noteq> q" "n \<le> env_held E t (w_view w) p" "unat (env_held E t (w_view w) q) + unat n < 2 ^ 128"
    using that cap by (intro books_frame(1) [OF assms])
      (auto simp: transferred_def ft_books_def issued ft_writes_keys unat_u128_add unat_sub_le word_le_nat_alt
        intro!: ft_ok_move [OF ok assms(2)])
  show "books (env_database E) T (w_view (destroyed E t p n e w))"
    if "n \<le> env_held E t (w_view w) p" "n \<le> env_issued E t (w_view w)"
  proof (rule books_frame(1) [OF assms])
    have "env_issued E t (w_view w) - n \<le> env_issued E t (w_view w)"
      using that(2) by (simp add: word_le_nat_alt unat_sub_le)
    then have "within m (env_issued E t (w_view w) - n)" using cap by (auto simp: within_def)
    with that show "ft_books (env_database E) (env_contract_identifier E) t m (w_view (destroyed E t p n e w))"
      by (auto simp: destroyed_def ft_books_def issued unat_sub_le word_le_nat_alt intro!: ft_ok_issue [OF ok assms(2)])
  qed (simp add: destroyed_def ft_writes_keys)
qed

lemma debited_units:
  assumes "stx_ok v" "unat n \<le> spendable_at h (stx_account v a)"
  shows "stx_units (debited h n (stx_account v a)) + unat n = stx_units (stx_account v a)"
    and "spendable_at h (debited h n (stx_account v a)) + unat n = spendable_at h (stx_account v a)"
proof -
  fix p :: principal_data
  let ?s = "\<lparr>snap_principal = p, snap_balance = stx_account v a, snap_burn_block_height = h\<rparr>"
  show "stx_units (debited h n (stx_account v a)) + unat n = stx_units (stx_account v a)"
    "spendable_at h (debited h n (stx_account v a)) + unat n = spendable_at h (stx_account v a)"
    using debited_rules(2,3) [of ?s n] stx_okD(4) [OF assms(1)] assms(2) by simp_all
qed

lemma stx_ok_paid:
  assumes "stx_ok (w_view w)" "unat n \<le> spendable_at (ucast h) (env_stx E (w_view w) p)" "addressable p" "addressable q" "p \<noteq> q"
    "unat (amount_unlocked (env_stx E (w_view w) q)) + unat n < 2 ^ 128"
  shows "stx_ok (w_view (paid E h p q n w))"
proof -
  let ?v = "w_view w" and ?t = "principal_text (env_database E)"
  note ok = stx_okD [OF assms(1)]
  have "?t q \<noteq> ?t p" using principal_text_inj assms(3-5) by blast
  then have "stx.backed (env_put_stx E p (debited (ucast h) n (env_stx E ?v p)) (env_put_stx E q (credited n (env_stx E ?v q)) ?v))"
    using stx.move_backed [OF TrueI ok(3)] debited_units(1) [OF assms(1,2)] credited_units [OF assms(6)]
    by (simp add: stx.held_def)
  with ok show ?thesis by (simp add: paid_def stx_ok_def stx_put_readable)
qed

lemma stx_ok_spent:
  assumes "stx_ok (w_view w)" "unat n \<le> spendable_at (ucast h) (env_stx E (w_view w) p)" "n \<le> stx_issued (w_view w)"
  shows "stx_ok (w_view (spent E h p n e w))"
proof -
  let ?v = "w_view w"
  note ok = stx_okD [OF assms(1)]
  have "stx.backed (stx_put_issued (stx_issued ?v - n) (env_put_stx E p (debited (ucast h) n (env_stx E ?v p)) ?v))"
    using stx.issue_backed(2) [OF TrueI ok(3)] debited_units(1) [OF assms(1,2)] assms(3)
    by (simp add: stx.held_def unat_sub_le word_le_nat_alt)
  with ok show ?thesis by (simp add: spent_def stx_ok_def stx_put_readable)
qed

lemma books_stx_effects:
  fixes E :: "('s, 'ctx, 'l) environment"
  assumes "books (env_database E) T (w_view w)" "json_round_trips (db_json (env_database E))"
    "unat n \<le> spendable_at (ucast h) (env_stx E (w_view w) p)"
  shows "\<lbrakk>addressable p; addressable q; p \<noteq> q; unat (amount_unlocked (env_stx E (w_view w) q)) + unat n < 2 ^ 128\<rbrakk>
      \<Longrightarrow> books (env_database E) T (w_view (paid E h p q n w))"
    and "n \<le> stx_issued (w_view w) \<Longrightarrow> books (env_database E) T (w_view (spent E h p n e w))"
proof -
  note ok = booksD(1) [OF assms(1)]
  show "books (env_database E) T (w_view (paid E h p q n w))"
    if "addressable p" "addressable q" "p \<noteq> q" "unat (amount_unlocked (env_stx E (w_view w) q)) + unat n < 2 ^ 128"
    by (rule books_frame(3) [OF assms(1,2) _ stx_ok_paid [OF ok assms(3) that]]) (simp add: paid_def stx_writes_keys)
  show "books (env_database E) T (w_view (spent E h p n e w))" if "n \<le> stx_issued (w_view w)"
    by (rule books_frame(3) [OF assms(1,2) _ stx_ok_spent [OF ok assms(3) that]]) (simp add: spent_def stx_writes_keys)
qed

lemma books_nft_put:
  assumes "books D T v" "json_round_trips (db_json D)" "named (c, t)" "case x of None \<Rightarrow> True | Some p \<Rightarrow> wf_principal p"
  shows "books D T (nft_put D c t a x v)"
proof (rule books_frame(2) [OF assms(1-3)])
  show "nft_ok D c t (nft_put D c t a x v)"
    using booksD(4) [OF assms(1,3)] assms(4) by (auto simp: nft_ok_def nft_put_def owner_entry_def)
qed (auto simp: nft_put_def nft_keys_def)

lemma nft_owner_wf: "\<lbrakk>nft_ok D c t v; wf_value a; nft_owner D c t v a = Some p\<rbrakk> \<Longrightarrow> wf_principal p"
  by (auto simp: nft_ok_def nft_owner_def elim!: allE [of _ a] owner_entry_cases)

text \<open>Values whose principals have an address.\<close>

definition addressed :: "clarity_value \<Rightarrow> bool" where
  "addressed v \<longleftrightarrow> wf_value v \<and> (\<forall>p. v = VPrincipal p \<longrightarrow> addressable p)"

lemma addressed_results [simp]:
  "addressed (VUInt n)" "addressed okay_true" "addressed (err_uint e)" "addressed (VOptional None)"
  "wf_principal p \<Longrightarrow> addressed (VOptional (Some (VPrincipal p)))"
  by (simp_all add: addressed_def okay_true_def err_uint_def)

lemma addressed_args: "addressed (VPrincipal p) \<longleftrightarrow> addressable p" "addressed v \<Longrightarrow> wf_value v"
  "addressable p \<Longrightarrow> wf_principal p"
  by (auto simp: addressed_def addressable_def)

fun token_native :: "asset_native \<Rightarrow> bool" where
  "token_native MintToken = True"
| "token_native TransferToken = True"
| "token_native GetTokenBalance = True"
| "token_native BurnToken = True"
| "token_native GetTokenSupply = True"
| "token_native WithdrawToken = True"
| "token_native _ = False"

context clarity_store
begin

lemma natives_keep_books:
  fixes E :: "('s, 'ctx, 'l) environment" and T
  defines "J \<equiv> \<lambda>w. books (env_database E) T (w_view w)"
  assumes ready: "ready P E h" and loads: "deployed P E" and dated: "dated P E" and J: "J w" and declared: "declared_assets E"
    and arg: "\<And>i. i < length args \<Longrightarrow> argument P E context J addressed (args ! i)"
    and named: "\<And>t. args ! 0 = Atom t \<Longrightarrow> named (env_contract_identifier E, t)"
    and tokens: "\<And>t. \<lbrakk>token_native f; args ! 0 = Atom t\<rbrakk> \<Longrightarrow> \<exists>m. T (env_contract_identifier E, t) = Some m \<and> map_of (env_meta_ft E) t = Some m"
  shows "wp P (asset_native_call f E args context) (outcome E (\<lambda>v w'. addressed v \<and> J w')) w"
proof -
  note ground = grounds(1) [OF ready] and json = groundedD(2) [OF grounds(1) [OF ready]]
  have ft: "env_ft_ok E t (w_view w)" if "token_native f" "args ! 0 = Atom t" "J w" for t w
    using tokens [OF that(1,2)] that(3) booksD(2) by (fastforce simp: J_def ft_books_def)
  have declared_as: "\<exists>m. T (env_contract_identifier E, t) = Some m \<and> map_of (env_meta_ft E) t = Some m"
    if "token_native f" "args ! 0 = Atom t" for t
    by (rule tokens [OF that])
  have nft: "env_nft_ok E t (w_view w)" if "args ! 0 = Atom t" "J w" for t w
    using named that booksD(4) by (auto simp: J_def)
  have stx: "stx_ok (w_view w)" if "J w" for w using that booksD(1) by (auto simp: J_def)
  note ft_kept = books_ft_effects [OF _ json] and stx_kept = books_stx_effects [OF _ json]
    and nft_kept = books_nft_put [OF _ json named]
  have destroyed_kept: "J (destroyed E t p n e w)" if "J w" "token_native f" "args ! 0 = Atom t" "n \<le> env_held E t (w_view w) p"
      "n \<le> env_issued E t (w_view w)" for w t n p e
    using declared_as [OF that(2,3)] that ft_kept(3) by (fastforce simp: J_def)
  show ?thesis
  proof (cases f)
    case MintToken
    have "J (minted E t p n w)" if "J w" "args ! 0 = Atom t" "unat (env_issued E t (w_view w)) + unat n < 2 ^ 128"
      "\<forall>m cap. map_of (env_meta_ft E) t = Some m \<and> ft_total_supply m = Some cap \<longrightarrow> env_issued E t (w_view w) + n \<le> cap"
      for w t n p
      using declared_as [OF _ that(2)] that ft_kept(1) MintToken by (fastforce simp: J_def within_def)
    with ft MintToken show ?thesis by (auto intro!: wp_mint_token [OF ground J arg])
  next
    case TransferToken
    have "J (transferred E t p q n w)" if "J w" "args ! 0 = Atom t" "p \<noteq> q" "n \<le> env_held E t (w_view w) p"
      "unat (env_held E t (w_view w) q) + unat n < 2 ^ 128" for w t n p q
      using declared_as [OF _ that(2)] that ft_kept(2) TransferToken by (fastforce simp: J_def)
    with ft TransferToken show ?thesis by (auto intro!: wp_transfer_token [OF ground J arg])
  next
    case BurnToken
    with ft show ?thesis by (auto intro!: wp_burn_token [OF loads J arg] destroyed_kept)
  next
    case WithdrawToken
    with ft show ?thesis by (auto intro!: wp_withdraw_token [OF loads J arg] destroyed_kept)
  next
    case GetTokenBalance
    with ft show ?thesis by (auto intro!: wp_get_balance [OF ground J arg])
  next
    case GetTokenSupply
    with ft show ?thesis by (auto intro!: wp_get_token_supply [where J = J, OF ground J])
  next
    case StxTransfer
    with stx show ?thesis
      by (auto simp: J_def addressed_args intro!: wp_stx_transfer [OF ready J arg] stx_kept)
  next
    case StxBurn
    with stx show ?thesis
      by (auto simp: J_def intro!: wp_stx_burn [OF ready J arg] stx_kept)
  next
    case StxWithdraw
    with stx show ?thesis
      by (auto simp: J_def intro!: wp_stx_withdraw [OF ready J arg] stx_kept)
  next
    case GetStxBalance
    with stx show ?thesis by (auto intro!: wp_stx_balance [OF ready J arg])
  next
    case MintAsset
    with nft show ?thesis
      by (auto simp: J_def owner_given_def addressed_args intro!: wp_mint_asset [OF dated J arg _ declared] nft_kept)
  next
    case TransferAsset
    with nft show ?thesis
      by (auto simp: J_def owner_changed_def addressed_args intro!: wp_transfer_asset [OF dated J arg _ declared] nft_kept)
  next
    case BurnAsset
    with nft show ?thesis
      by (auto simp: J_def owner_changed_def addressed_args intro!: wp_burn_asset [OF dated J arg _ declared] nft_kept)
  next
    case WithdrawAsset
    with nft show ?thesis
      by (auto simp: J_def owner_changed_def addressed_args intro!: wp_withdraw_asset [OF ground J arg _ declared] nft_kept)
  next
    case GetAssetOwner
    with nft show ?thesis
      by (auto simp: addressed_args intro!: wp_get_owner [OF dated J arg _ declared] addressed_results(5) nft_owner_wf [OF nft])
  qed
qed

end

end
