(* ===== verification/Asset_Transactions.thy ===== *)
theory Asset_Transactions
  imports Solvency
begin

text \<open>
  Asset functions in transactions: what a transaction leaves behind when its body is described by a weakest
  precondition, a sample contract on which the hypotheses hold, and the properties of the asset functions: the
  books are kept, STX transfers and transfers of assets are exact, and a covered STX transfer goes through.
\<close>

lemma fixed_begin [simp]: "gc_fixed (gc_begin g) = gc_fixed g"
  by (simp add: gc_fixed_def gc_begin_def nest_def)

context clarity_store
begin

text \<open>What a transaction leaves behind when its body ends in a known world.\<close>

lemma execute_in_env_rel:
  fixes m :: "('s, 'ctx, 'a) vm"
  assumes rel: "grel ts g [] (v # vs)"
    and body: "fst (m (gc_begin g)) = Panic \<or> grel ts (snd (m (gc_begin g))) [w] (v # vs)" "Q (fst (m (gc_begin g))) w"
  shows "case execute_in_env ts B m g of
      (Ok (x, am, evs), g') \<Rightarrow> \<exists>w. Q (Ok x) w \<and> evs = w_events w \<and> tracks am (w_log w) \<and> grel ts g' [] (w_view w # vs)
    | (Err e, g') \<Rightarrow> (\<exists>w. Q (Err e) w) \<and> grel ts g' [] (v # vs)
    | (Panic, g') \<Rightarrow> \<exists>w. Q Panic w"
proof -
  have top: "is_top_level g" using rel by (simp add: gc_rel_def is_top_level_def)
  obtain r g1 where m: "m (gc_begin g) = (r, g1)" by (cases "m (gc_begin g)")
  show ?thesis
  proof (cases r)
    case (Ok x)
    with body m have "grel ts g1 [w] (v # vs)" "Q (Ok x) w" by simp_all
    from commit_outer_rel [OF this(1)] this(2) show ?thesis
      by (fastforce simp: execute_in_env_def top m Ok env_commit_def)
  next
    case (Err e)
    with body m have w: "grel ts g1 [w] (v # vs)" "Q (Err e) w" by simp_all
    obtain g2 where "(roll_back_with e g1 :: ('s, 'ctx, 'a \<times> asset_map \<times> stacks_transaction_event list) gc_result) = (Err e, g2)"
      "grel ts g2 [] (v # vs)" using roll_back_with_rel [OF w(1)] by blast
    with w show ?thesis by (auto simp: execute_in_env_def top m Err)
  qed (use body m top in \<open>auto simp: execute_in_env_def\<close>)
qed

lemma transaction_outcome:
  fixes m :: "('s, 'ctx, 'a) vm"
  assumes rel: "grel ts g [] (v # vs)" and body: "wp (ts, gc_fixed g, [], v # vs) m Q (open_world v)"
  shows "case execute_in_env ts B m g of
      (Ok (x, am, evs), g') \<Rightarrow> \<exists>w. Q (Ok x) w \<and> evs = w_events w \<and> tracks am (w_log w) \<and> grel ts g' [] (w_view w # vs)
    | (Err e, g') \<Rightarrow> (\<exists>w. Q (Err e) w) \<and> grel ts g' [] (v # vs)
    | (Panic, g') \<Rightarrow> \<exists>w. Q Panic w"
proof -
  have "at (ts, gc_fixed g, [], v # vs) (gc_begin g) (open_world v)"
    using begin_rel(1) [OF rel] by (simp add: at_def)
  with body obtain w where "fst (m (gc_begin g)) = Panic \<or> at (ts, gc_fixed g, [], v # vs) (snd (m (gc_begin g))) w"
    "Q (fst (m (gc_begin g))) w" unfolding wp_def by blast
  then show ?thesis by (intro execute_in_env_rel [OF rel]) (auto simp: at_def)
qed

lemma readyI:
  fixes E :: "('s, 'ctx, 'l) environment" and g :: "('s, 'ctx) global_context"
  assumes "at P g w" "grounded E" "get_current_burnchain_block_height (env_database E) (gc_database g) = Ok h"
  shows "ready P E h"
  unfolding ready_def
proof (intro conjI allI impI)
  fix g' :: "('s, 'ctx) global_context" and w' assume "at P g' w'"
  from at_fixed [OF this assms(1)] have "store (gc_database g') = store (gc_database g)" by (simp add: gc_fixed_def)
  with assms(3) show "get_current_burnchain_block_height (env_database E) (gc_database g') = Ok h"
    by (simp only: get_current_burnchain_block_height_def)
qed (rule assms(2))

lemma deployedI:
  fixes E :: "('s, 'ctx, 'l) environment" and g :: "('s, 'ctx) global_context"
  assumes "at P g w" "grounded E"
    "\<And>t. fst (load_ft (env_database E) (env_contract_identifier E) t (gc_database g)) \<noteq> Panic"
  shows "deployed P E"
  unfolding deployed_def
proof (intro conjI allI impI)
  fix g' :: "('s, 'ctx) global_context" and w' t assume g': "at P g' w'"
  show "fst (load_ft (env_database E) (env_contract_identifier E) t (gc_database g')) \<noteq> Panic"
    using load_ft_fixed [OF g' assms(1) at_fixed [OF g' assms(1)]] assms(3) by simp
qed (rule assms(2))

lemma datedI:
  fixes E :: "('s, 'ctx, 'l) environment" and g :: "('s, 'ctx) global_context"
  assumes "at P g w" "grounded E" "gc_epoch_id g \<noteq> Epoch10"
  shows "dated P E"
  using assms at_fixed [OF _ assms(1)] by (fastforce simp: dated_def gc_fixed_def)

lemma ready_nested:
  fixes E :: "('s, 'ctx, 'l) environment" and g :: "('s, 'ctx) global_context"
  assumes "ready (ts, F, ws, vs) E h" "at (ts, F, ws, vs) g w"
  shows "ready (ts, F, w # ws, vs) E h" "at (ts, F, w # ws, vs) (gc_begin g) (open_world (w_view w))"
proof -
  from assms(2) have rel: "grel ts g (w # ws) vs" "gc_fixed g = F" by (simp_all add: at_def)
  show inner: "at (ts, F, w # ws, vs) (gc_begin g) (open_world (w_view w))"
    using begin_rel(1) [OF rel(1)] rel(2) by (simp add: at_def)
  have "store (gc_database (gc_begin g)) = store (gc_database g)" by (simp add: gc_begin_def nest_def)
  moreover have "get_current_burnchain_block_height (env_database E) (gc_database g) = Ok h"
    using assms unfolding ready_def by blast
  ultimately have "get_current_burnchain_block_height (env_database E) (gc_database (gc_begin g)) = Ok h"
    by (simp only: get_current_burnchain_block_height_def)
  then show "ready (ts, F, w # ws, vs) E h" by (rule readyI [OF inner grounds(1) [OF assms(1)]])
qed

lemma env_stx_transfer_rel:
  fixes E :: "('s, 'ctx, 'l) environment" and p q n h w
  assumes ready: "ready (ts, F, ws, vs) E h" and ok: "stx_ok (w_view w)" and sender: "env_sender E = Some p"
    and g: "at (ts, F, ws, vs) g w"
  defines "C \<equiv> n \<noteq> 0 \<and> p \<noteq> q \<and> unat n \<le> spendable_at (ucast h) (env_stx E (w_view w) p)
      \<and> unat (amount_unlocked (env_stx E (w_view w) q)) + unat n < 2 ^ 128"
  obtains r g' w' where "env_stx_transfer ts E p q n g = (r, g')" "grel ts g' (w' # ws) vs"
    "(\<exists>e. r = Err e) \<and> w' = w \<and> \<not> (unmetered (ts, F, ws, vs) \<and> C \<and> totals_fit [SentStx p n]
        \<and> totals_fit (w_log w @ [SentStx p n]))
      \<or> r = Ok okay_true \<and> C \<and> join w (paid E h p q n (open_world (w_view w))) = Ok w'"
proof -
  let ?m = "stx_transfer_consolidated E p q n" and ?w = "open_world (w_view w)"
  let ?R = "\<lambda>r w'. case r of Ok v \<Rightarrow> (\<exists>e. v = err_uint e) \<and> \<not> C \<or> (v = okay_true \<and> w' = paid E h p q n ?w \<and> C)
      | Err e \<Rightarrow> \<not> (unmetered (ts, F, ws, vs) \<and> C \<and> totals_fit [SentStx p n]) | Panic \<Rightarrow> False"
  have "wp (ts, F, w # ws, vs) ?m ?R ?w"
    using ok sender by (intro wp_stx_transfer_consolidated [OF ready_nested(1) [OF ready g]])
      (auto simp: open_world_def C_def unmetered_def split: prod.splits)
  with ready_nested(2) [OF ready g] obtain w1 where
    w1: "fst (?m (gc_begin g)) = Panic \<or> at (ts, F, w # ws, vs) (snd (?m (gc_begin g))) w1" "?R (fst (?m (gc_begin g))) w1"
    unfolding wp_def by blast
  obtain r g1 where m: "?m (gc_begin g) = (r, g1)" by (cases "?m (gc_begin g)")
  with w1 have rel: "grel ts g1 (w1 # w # ws) vs" by (auto simp: at_def split: result.splits)
  note B = groundedD(1) [OF grounds(1) [OF ready]]
  have undo: "\<exists>g'. (roll_back_with e g1 :: ('s, 'ctx, clarity_value) gc_result) = (Err e, g') \<and> grel ts g' (w # ws) vs" for e
    by (rule roll_back_with_rel [OF rel])
  show thesis
  proof (cases r)
    case (Ok v)
    from w1 m Ok consider e where "v = err_uint e" "\<not> C" | "v = okay_true" "w1 = paid E h p q n ?w" C by auto
    then show thesis
    proof cases
      case 1
      with undo show thesis using that m Ok by (fastforce simp: env_stx_transfer_def err_uint_def)
    next
      case 2
      then have log: "w_log w1 = [SentStx p n]" by (simp add: paid_def open_world_def)
      note com = commit_rel [OF rel]
      show thesis
      proof (cases "join w w1")
        case (Ok w2)
        with com 2 show thesis using that m \<open>r = Ok v\<close> by (fastforce simp: env_stx_transfer_def okay_true_def B)
      next
        case (Err e)
        with log have "\<not> totals_fit (w_log w @ [SentStx p n])" by (auto simp: join_def split: if_splits)
        with com 2 Err show thesis using that m \<open>r = Ok v\<close> by (fastforce simp: env_stx_transfer_def okay_true_def B)
      qed (use com in simp)
    qed
  next
    case (Err e)
    with undo [of e] w1 m show thesis using that by (fastforce simp: env_stx_transfer_def)
  next
    case Panic
    with w1 m show thesis by simp
  qed
qed

end

section \<open>Transactions over the memory store\<close>

definition sees :: "(sqlite_conn, 'ctx) global_context \<Rightarrow> (string \<rightharpoonup> string) \<Rightarrow> bool" where
  "sees g v \<longleftrightarrow> (\<forall>k. get Ok memory_backing_store (gc_database g) k = Ok (v k))"

abbreviation memory_rel :: "(qualified_contract_identifier \<Rightarrow> string) \<Rightarrow> (sqlite_conn, 'ctx) global_context
    \<Rightarrow> world list \<Rightarrow> (string \<rightharpoonup> string) list \<Rightarrow> bool" where
  "memory_rel ts \<equiv> gc_rel ts sqlite_get (\<lambda>conn. map_of (metadata_table conn)) (\<lambda>_. sentinel_block)"

text \<open>The place where the body of a transaction starts.\<close>

definition start_place :: "(qualified_contract_identifier \<Rightarrow> string) \<Rightarrow> sqlite_conn \<Rightarrow> (sqlite_conn, 'ctx) global_context
    \<Rightarrow> sqlite_conn place" where
  "start_place ts s g = (ts, gc_fixed g, [], [sqlite_get s, sqlite_get s])"

lemma sees_rel: "memory_rel ts g [] [v, u] \<Longrightarrow> sees g v"
  using memory_store.rel_get by (fastforce simp: gc_rel_def sees_def)

lemma start:
  assumes "g = global_context_new mainnet (nest (wrapper_new s)) cost_track epoch"
  shows "memory_rel ts g [] [sqlite_get s, sqlite_get s]"
    "memory_store.at (start_place ts s g) (gc_begin g) (open_world (sqlite_get s))"
    "gc_epoch_id (gc_begin g) = epoch" "store (gc_database (gc_begin g)) = store (gc_database g)"
proof -
  show rel: "memory_rel ts g [] [sqlite_get s, sqlite_get s]"
    using memory_store.rel_nest [OF memory_store.rel_new] by (simp add: assms gc_rel_def global_context_new_def)
  from memory_store.begin_rel(1) [OF rel]
  show "memory_store.at (start_place ts s g) (gc_begin g) (open_world (sqlite_get s))"
    by (simp add: memory_store.at_def start_place_def)
  show "gc_epoch_id (gc_begin g) = epoch" "store (gc_database (gc_begin g)) = store (gc_database g)"
    by (simp_all add: assms gc_begin_def global_context_new_def nest_def)
qed

lemma start_ready:
  fixes E :: "(sqlite_conn, 'ctx, 'l) environment" and g :: "(sqlite_conn, 'ctx) global_context"
  assumes "g = global_context_new mainnet (nest (wrapper_new s)) cost_track epoch"
    "memory_store.grounded E" "get_current_burnchain_block_height (env_database E) (gc_database g) = Ok h"
  shows "memory_store.ready (start_place ts s g) E h"
proof (rule memory_store.readyI [OF start(2) [OF assms(1)] assms(2)])
  show "get_current_burnchain_block_height (env_database E) (gc_database (gc_begin g)) = Ok h"
    using assms(3) by (simp only: get_current_burnchain_block_height_def start(4) [OF assms(1)])
qed

lemma paid_exact:
  assumes "stx_ok v" "unat n \<le> spendable_at (ucast h) (env_stx E v p)" "addressable p" "addressable q" "p \<noteq> q"
    "unat (amount_unlocked (env_stx E v q)) + unat n < 2 ^ 128"
  defines "view \<equiv> w_view (paid E h p q n (open_world v))"
  shows "stx_ok view" "spendable_at (ucast h) (env_stx E view p) + unat n = spendable_at (ucast h) (env_stx E v p)"
    "stx_units (env_stx E view p) + unat n = stx_units (env_stx E v p)"
    "stx_units (env_stx E view q) = stx_units (env_stx E v q) + unat n"
    "\<lbrakk>addressable r; r \<noteq> p; r \<noteq> q\<rbrakk> \<Longrightarrow> env_stx E view r = env_stx E v r"
proof -
  show "stx_ok view" unfolding view_def by (rule stx_ok_paid) (use assms in \<open>auto simp: open_world_def\<close>)
  have view: "stx_account view = (stx_account v)(principal_text (env_database E) q := credited n (env_stx E v q),
      principal_text (env_database E) p := debited (ucast h) n (env_stx E v p))"
    by (simp add: view_def paid_def open_world_def stx.account_put_account)
  have "principal_text (env_database E) r = principal_text (env_database E) x \<longleftrightarrow> r = x" if "addressable r" "addressable x" for r x
    by (rule principal_text_inj [OF that])
  note simps = view this assms(3-5) debited_units [OF assms(1,2)] credited_units [OF assms(6)]
  show "spendable_at (ucast h) (env_stx E view p) + unat n = spendable_at (ucast h) (env_stx E v p)"
    "stx_units (env_stx E view p) + unat n = stx_units (env_stx E v p)"
    "stx_units (env_stx E view q) = stx_units (env_stx E v q) + unat n"
    "\<lbrakk>addressable r; r \<noteq> p; r \<noteq> q\<rbrakk> \<Longrightarrow> env_stx E view r = env_stx E v r"
    using assms(5) by (simp_all add: simps assms(5) [symmetric])
qed

lemma yields_argument:
  fixes E :: "(sqlite_conn, 'ctx, 'l) environment"
  assumes "yields E context arg v"
  shows "memory_store.argument P E context ((=) w) ((=) v) arg"
  unfolding memory_store.argument_def
proof (intro allI impI)
  fix w' assume "w = w'"
  then show "memory_store.wp P (env_eval E arg context) (outcome E (\<lambda>x w''. v = x \<and> w = w'')) w'"
    by (intro memory_store.wp_eval [OF assms]) simp_all
qed

lemma recipient_fits:
  assumes "stx_ok v" "unat n \<le> spendable_at h (env_stx E v p)" "addressable p" "addressable q" "p \<noteq> q"
  shows "unat (amount_unlocked (env_stx E v q)) + unat n < 2 ^ 128"
proof -
  have "principal_text (env_database E) q \<noteq> principal_text (env_database E) p" using principal_text_inj assms(3-5) by blast
  from stx.two_held_le_supply [OF stx_okD(3) [OF assms(1)] this]
  have "stx_units (env_stx E v q) + stx_units (env_stx E v p) \<le> unat (stx_issued v)" by (simp add: stx.held_def)
  moreover have "spendable_at h (env_stx E v p) \<le> stx_units (env_stx E v p)"
    "unat (amount_unlocked (env_stx E v q)) \<le> stx_units (env_stx E v q)"
    by (simp_all add: spendable_at_def stx_units_def)
  ultimately show ?thesis using assms(2) unat_bounds(5) [of "stx_issued v"] by simp
qed

lemma single_transfer_fits: "totals_fit [SentStx p n]"
  using unat_bounds(5) [of n]
  by (auto simp: totals_fit_def stx_sent_def stx_burned_def tokens_sent_def map_filter_simps total_of_def split: if_splits)

text \<open>What an STX transfer as a transaction leaves behind.\<close>

lemma owned_transfer_result:
  fixes E :: "(sqlite_conn, 'ctx, 'l) environment" and g :: "(sqlite_conn, 'ctx) global_context" and p q n
  assumes "g = global_context_new mainnet (nest (wrapper_new s)) cost_track epoch"
    and ground: "memory_store.grounded E" and "get_current_burnchain_block_height (env_database E) (gc_database g) = Ok h"
    and ok: "stx_ok (sqlite_get s)"
  defines "C \<equiv> n \<noteq> 0 \<and> p \<noteq> q \<and> unat n \<le> spendable_at (ucast h) (env_stx E (sqlite_get s) p)
      \<and> unat (amount_unlocked (env_stx E (sqlite_get s) q)) + unat n < 2 ^ 128"
  obtains e g' where "owned_stx_transfer ts E p q n g = (Err e, g')" "sees g' (sqlite_get s)" "cost_track = Free \<Longrightarrow> \<not> C"
    | am g' where "owned_stx_transfer ts E p q n g = (Ok (okay_true, am,
          [STXEvent (STXTransferEvent \<lparr>stxt_sender = p, stxt_recipient = q, stxt_amount = n\<rparr>)]), g')"
        C "tracks am [SentStx p n]" "sees g' (w_view (paid E h p q n (open_world (sqlite_get s))))"
proof -
  note g = start(1,2) [where ts = ts, OF assms(1)]
  let ?E = "E\<lparr>env_sender := Some p\<rparr>" and ?v = "sqlite_get s" and ?w = "open_world (sqlite_get s)" and ?P = "start_place ts s g"
  define Q where "Q r w' \<longleftrightarrow> (\<exists>e. r = Err e) \<and> \<not> (cost_track = Free \<and> C) \<or> r = Ok okay_true \<and> C
      \<and> join ?w (paid ?E h p q n ?w) = Ok w'" for r :: "clarity_value interpreter_result" and w'
  have free: "memory_store.unmetered ?P \<longleftrightarrow> cost_track = Free"
    by (simp add: memory_store.unmetered_def start_place_def gc_fixed_def assms(1) global_context_new_def)
  have ready: "memory_store.ready ?P ?E h"
    by (rule start_ready [OF assms(1)]) (use assms in \<open>auto simp: memory_store.grounded_def\<close>)
  have w: "stx_ok (w_view ?w)" "env_sender ?E = Some p" using ok by (simp_all add: open_world_def)
  obtain r g1 w1 where run: "env_stx_transfer ts ?E p q n (gc_begin g) = (r, g1)" "memory_rel ts g1 [w1] [?v, ?v]" "Q r w1"
  proof (rule memory_store.env_stx_transfer_rel [where q = q and n = n, OF ready [unfolded start_place_def] w
      g(2) [unfolded start_place_def]])
    fix r g1 w1
    let ?C = "n \<noteq> 0 \<and> p \<noteq> q \<and> unat n \<le> spendable_at (ucast h) (env_stx ?E (w_view ?w) p)
      \<and> unat (amount_unlocked (env_stx ?E (w_view ?w) q)) + unat n < 2 ^ 128"
    assume post: "env_stx_transfer ts ?E p q n (gc_begin g) = (r, g1)" "memory_rel ts g1 [w1] [?v, ?v]"
      "(\<exists>e. r = Err e) \<and> w1 = ?w \<and> \<not> (memory_store.unmetered (ts, gc_fixed g, [], [?v, ?v]) \<and> ?C
          \<and> totals_fit [SentStx p n] \<and> totals_fit (w_log ?w @ [SentStx p n]))
        \<or> r = Ok okay_true \<and> ?C \<and> join ?w (paid ?E h p q n (open_world (w_view ?w))) = Ok w1"
    have C: "?C \<longleftrightarrow> C" "open_world (w_view ?w) = ?w" "w_log ?w = []" by (simp_all add: C_def open_world_def)
    from post(3) have "Q r w1"
      unfolding C Q_def free [unfolded start_place_def] using single_transfer_fits [of p n] by auto
    with post(1,2) that show thesis by blast
  qed
  obtain R g' where R: "owned_stx_transfer ts E p q n g = (R, g')" by (cases "owned_stx_transfer ts E p q n g")
  then have ex: "execute_in_env ts memory_backing_store (env_stx_transfer ts ?E p q n) g = (R, g')"
    using ground by (simp add: owned_stx_transfer_def memory_store.grounded_def)
  have post: "case (R, g') of
      (Ok (x, am, evs), g') \<Rightarrow> \<exists>w. Q (Ok x) w \<and> evs = w_events w \<and> tracks am (w_log w) \<and> memory_rel ts g' [] [w_view w, ?v]
    | (Err e, g') \<Rightarrow> (\<exists>w. Q (Err e) w) \<and> memory_rel ts g' [] [?v, ?v]
    | (Panic, g') \<Rightarrow> \<exists>w. Q Panic w"
    unfolding ex [symmetric] by (rule memory_store.execute_in_env_rel [where Q = Q, OF g(1)]) (use run in auto)
  show thesis
  proof (cases R)
    case (Ok x)
    obtain v am evs where x: "x = (v, am, evs)" by (cases x) auto
    from post Ok x obtain w where w: "Q (Ok v) w" "evs = w_events w" "tracks am (w_log w)" "memory_rel ts g' [] [w_view w, ?v]"
      by auto
    then have v: "v = okay_true" C "join ?w (paid ?E h p q n ?w) = Ok w" by (simp_all add: Q_def)
    from v(3) have "w_view w = w_view (paid E h p q n ?w)" "w_log w = [SentStx p n]"
      "w_events w = [STXEvent (STXTransferEvent \<lparr>stxt_sender = p, stxt_recipient = q, stxt_amount = n\<rparr>)]"
      by (auto simp: join_def paid_def open_world_def split: if_splits)
    with sees_rel [OF w(4)] w(2,3) v(1,2) R Ok x that(2) show thesis by simp
  next
    case (Err e)
    with post have "memory_rel ts g' [] [?v, ?v]" "\<not> (cost_track = Free \<and> C)" by (auto simp: Q_def)
    with sees_rel R Err that(1) show thesis by metis
  next
    case Panic
    with post show thesis by (auto simp: Q_def)
  qed
qed

section \<open>A sample contract\<close>

text \<open>A contract that declares a fungible token and an asset class, run with constant arguments.\<close>

definition sample_contract :: qualified_contract_identifier where
  "sample_contract = \<lparr>qci_issuer = transient, qci_name = ''a''\<rparr>"

definition sample_env :: "(sqlite_conn, unit, unit) environment" where
  "sample_env = \<lparr>env_database = sample_db,
     env_costs = \<lparr>ce_sha256 = \<lambda>_. Bytes32 (replicate 32 9), ce_fmt_error = \<lambda>_. [], ce_eval_all = \<lambda>_ _ context _ _. (Ok None, context)\<rparr>,
     env_sender = None, env_contract_identifier = sample_contract,
     env_meta_ft = [(''t'', \<lparr>ft_total_supply = Some 1000\<rparr>)], env_meta_nft = [(''n'', \<lparr>nft_key_type = UIntType\<rparr>)],
     env_eval = \<lambda>arg _ g. ((case arg of AtomValue v \<Rightarrow> Ok v | _ \<Rightarrow> Err (Unchecked BadTokenName)), g)\<rparr>"

definition sample_tokens :: declared_tokens where
  "sample_tokens = [(sample_contract, ''t'') \<mapsto> \<lparr>ft_total_supply = Some 1000\<rparr>]"

definition sample_user :: "u8 \<Rightarrow> principal_data" where
  "sample_user n = Standard (StandardPrincipalData 1 (replicate 20 n))"

text \<open>One account holds all of the hundred units there are, the token has been declared, and an asset is owned.\<close>

definition sample_base :: sqlite_conn where
  "sample_base = sqlite_put (sqlite_put (sqlite_put sqlite_memory
       (stx_key (principal_text sample_db (sample_user 1))) (stx_balance_serialize (stx_balance_initial 100)))
     ustx_liquid_supply_key (to_hex (ser (VUInt 100))))
     (ft_supply_key sample_db sample_contract ''t'') (js_u128 sample_json 0)"

definition sample_store :: sqlite_conn where
  "sample_store = sqlite_put sample_base (nft_key sample_db sample_contract ''n'' (VUInt 1)) (owner_text (Some (sample_user 1)))"

definition sample_context :: "sqlite_conn \<Rightarrow> (sqlite_conn, unit) global_context" where
  "sample_context s = global_context_new True (nest (wrapper_new s)) Free Epoch2_05"

lemma sample_addressable [simp]: "addressable (sample_user n)" "wf_principal (sample_user n)"
  by (simp_all add: addressable_def sample_user_def wf_standard_principal_def)

lemma sample_users [simp]: "sample_user m = sample_user n \<longleftrightarrow> m = n"
  by (simp add: sample_user_def)

lemma sample_named: "valid_clarity_name t \<Longrightarrow> named (sample_contract, t)"
  by (simp add: named_def sample_contract_def addressable_def transient_def wf_standard_principal_def
      valid_contract_name_iff CONTRACT_NAME_REGEX_def is_alpha_def char_code_def)

lemma sample_names [simp]: "valid_clarity_name ''t''" "valid_clarity_name ''n''"
  by (simp_all add: valid_clarity_name_iff CLARITY_NAME_REGEX_def is_alpha_def char_code_def)

lemma sqlite_get_put: "sqlite_get (sqlite_put s k v) = (sqlite_get s)(k \<mapsto> v)"
  by (auto simp: sqlite_get_def sqlite_put_def update_conv')

lemma empty_ledgers: "stx.backed Map.empty" "ft_backed D c t Map.empty" "sqlite_get sqlite_memory = Map.empty"
proof -
  have "stx.held Map.empty = (\<lambda>_. 0)" "ledger.held unat (ft_account D c t) Map.empty = (\<lambda>_. 0)"
    by (auto simp: stx.held_def ft.held_def stx_account_def ft_account_def word_at_def)
  then show "stx.backed Map.empty" "ft_backed D c t Map.empty"
    by (simp_all add: stx.backed_def ft.backed_def finitely_held_def holdings_def stx_issued_def ft_issued_def word_at_def)
qed (simp add: sqlite_get_def sqlite_memory_def fun_eq_iff)

lemma sample_view:
  "sqlite_get sample_base = ft_put_issued sample_db sample_contract ''t'' 0
     (stx_put_issued 100 (stx_put (principal_text sample_db (sample_user 1)) (stx_balance_initial 100) Map.empty))"
  by (simp add: sample_base_def sqlite_get_put empty_ledgers ft_put_issued_def stx_put_issued_def stx_put_def sample_db_def
      del: ser.simps)

lemma base_books: "books sample_db sample_tokens (sqlite_get sample_base)"
proof -
  let ?v = "stx_put_issued 100 (stx_put (principal_text sample_db (sample_user 1)) (stx_balance_initial 100) Map.empty)"
  let ?u = "sqlite_get sample_base"
  have json: "json_round_trips (db_json sample_db)" by (simp add: sample_db_def)
  have "stx.backed ?v"
    by (rule stx.issue_backed(2) [OF TrueI empty_ledgers(1)])
      (simp add: stx.held_def stx_account_def stx_issued_def stx_balance_initial_def stx_units_def stx_balance_zero_def)
  then have stx: "stx_ok ?v" by (simp add: stx_ok_def stx_put_readable)
  have none: "?v k = None" if "k \<notin> stx_keys" for k using that by (simp add: stx_writes_keys)
  have "stx_ok ?u" using stx_ok_cong [of ?u ?v] stx stx_disjoint(1) ft_writes_keys(2) by (metis sample_view)
  moreover have ft: "ft_ok sample_db sample_contract ''t'' ?u"
  proof -
    have balances: "?u (ft_balance_key sample_db sample_contract ''t'' p) = None" for p
    proof -
      have "ft_balance_key sample_db sample_contract ''t'' p \<in> ft_keys sample_db (sample_contract, ''t'')" by (simp add: ft_keys_def)
      from none [OF stx_disjoint(1) [OF this]] show ?thesis by (simp add: sample_view)
    qed
    then have "ft_account sample_db sample_contract ''t'' ?u = ft_account sample_db sample_contract ''t'' Map.empty"
      by (auto simp: ft_account_def word_at_def)
    moreover have "ft_issued sample_db sample_contract ''t'' ?u = ft_issued sample_db sample_contract ''t'' Map.empty"
      using json by (simp add: sample_view ft.issued_put_issued) (simp add: ft_issued_def word_at_def)
    ultimately have "ft_backed sample_db sample_contract ''t'' ?u"
      using ft.same_backed empty_ledgers(2) by metis
    then show ?thesis
      using json balances by (simp add: ft_ok_def sample_view ft_put_issued_def json_round_trips_def)
  qed
  moreover have "nft_ok sample_db c t ?u" if "named (c, t)" for c t
  proof -
    have "?u k = None" if "k \<in> nft_keys sample_db (c, t)" for k
      using none [of k] stx_disjoint(2) [OF that] disjoint_keys(3) [OF json sample_named [OF sample_names(1)] \<open>named (c, t)\<close>] that
        ft_writes_keys(2) by (metis sample_view)
    then show ?thesis by (simp add: nft_ok_def nft_keys_def owner_entry_def)
  qed
  moreover have "ft_issued sample_db sample_contract ''t'' ?u = 0"
    using json by (simp add: sample_view ft.issued_put_issued)
  ultimately show ?thesis
    using sample_named [OF sample_names(1)] by (auto simp: books_def ft_books_def within_def sample_tokens_def split: if_splits)
qed

lemma sample_store_view:
  "sqlite_get sample_store = nft_put sample_db sample_contract ''n'' (VUInt 1) (Some (sample_user 1)) (sqlite_get sample_base)"
  by (simp add: sample_store_def sqlite_get_put nft_put_def)

lemma sample_books: "books sample_db sample_tokens (sqlite_get sample_store)"
  unfolding sample_store_view
  by (rule books_nft_put [OF base_books _ sample_named [OF sample_names(2)]]) (simp_all add: sample_db_def)

lemma sample_start:
  "memory_store.grounded sample_env"
  "get_current_burnchain_block_height sample_db (gc_database (sample_context s)) = Ok 7"
  "fst (load_ft sample_db sample_contract t (gc_database (gc_begin (sample_context sample_store)))) \<noteq> Panic"
  "declared_assets sample_env" "yields sample_env () (AtomValue v) v"
  subgoal by (simp add: memory_store.grounded_def sample_env_def sample_db_def)
  subgoal by (simp add: get_current_burnchain_block_height_def sample_db_def memory_backing_store_def)
  subgoal
  proof -
    let ?k = "make_contract_hash_key (contract_text sample_db) sample_contract"
    have "?k \<noteq> ft_supply_key sample_db sample_contract ''t''" "?k \<notin> stx_keys"
      "?k \<noteq> nft_key sample_db sample_contract ''n'' (VUInt 1)"
      by (auto simp: make_contract_hash_key_def ft_supply_key_def make_key_for_trip_def nft_key_def make_key_for_quad_def stx_keys_def stx_key_def
          ustx_liquid_supply_key_def)
    then have "sqlite_get sample_store ?k = None" by (simp add: sample_store_view nft_put_def sample_view ft_put_issued_def stx_writes_keys)
    then have "get_metadata (contract_text sample_db) memory_backing_store (gc_database (gc_begin (sample_context sample_store)))
        sample_contract key = Err (Unchecked (NoSuchContract (contract_text sample_db sample_contract)))" for key
      by (simp add: get_metadata_def store_get_metadata_def get_contract_hash_def memory_backing_store_def sample_context_def
          gc_begin_def nest_def global_context_new_def wrapper_new_def pending_def)
    then show ?thesis by (simp add: load_ft_def fetch_metadata_def map_no_contract_as_none_def sample_db_def)
  qed
  subgoal by (auto simp: declared_assets_def sample_env_def split: if_splits)
  subgoal
  proof -
    have "\<exists>t. g = g\<lparr>gc_cost_track := t\<rparr> \<and> (t = Free \<longleftrightarrow> gc_cost_track g = Free)" for g :: "(sqlite_conn, unit) global_context"
      by (rule exI [of _ "gc_cost_track g"]) simp
    then show ?thesis unfolding yields_def by (simp add: sample_env_def)
  qed
  done

lemma sample_argument: "V v \<Longrightarrow> memory_store.argument P sample_env () J V (AtomValue v)"
  unfolding memory_store.argument_def
  by (auto intro!: memory_store.wp_eval [OF sample_start(5)])

lemma sample_no_argument: "memory_store.argument P sample_env () J V (Atom t)"
  unfolding memory_store.argument_def memory_store.wp_def by (auto simp: sample_env_def)

lemma sample_account:
  "stx_account (sqlite_get sample_store) (principal_text sample_db (sample_user 1)) = stx_balance_initial 100"
proof -
  let ?k = "stx_key (principal_text sample_db (sample_user 1))"
  have "?k \<in> stx_keys" by (simp add: stx_keys_def)
  then have "?k \<noteq> nft_key sample_db sample_contract ''n'' (VUInt 1)" "?k \<noteq> ft_supply_key sample_db sample_contract ''t''"
    using stx_disjoint unfolding nft_keys_def ft_keys_def by (metis rangeI fst_conv snd_conv, metis insertI1 fst_conv snd_conv)
  then have "sqlite_get sample_store ?k = Some (stx_balance_serialize (stx_balance_initial 100))"
    by (simp add: sample_store_view nft_put_def sample_view ft_put_issued_def stx_put_issued_def stx_put_def)
  then show ?thesis by (simp add: stx_account_def)
qed

section \<open>Properties\<close>

text \<open>C2: Asset functions keep the books: a transaction that calls any of them on arguments whose evaluation
  keeps the books leaves a database in which the recorded supply of every declared fungible token is the
  sum of its balances and within the declared cap, the liquid supply of STX is the sum of all accounts and every asset has at most one
  owner; one that fails leaves the database as it was, and a panic comes only from the cost functions.\<close>

theorem asset_functions_keep_books:
  fixes E :: "(sqlite_conn, 'ctx, 'l) environment" and g :: "(sqlite_conn, 'ctx) global_context"
  assumes "g = global_context_new mainnet (nest (wrapper_new s)) cost_track epoch" "epoch \<noteq> Epoch10"
    and "db_store (env_database E) = memory_backing_store" "json_round_trips (db_json (env_database E))"
    and "get_current_burnchain_block_height (env_database E) (gc_database g) = Ok h"
    and "\<And>t. fst (load_ft (env_database E) (env_contract_identifier E) t (gc_database (gc_begin g))) \<noteq> Panic"
    and "books (env_database E) T (sqlite_get s)" "declared_assets E"
    and "\<And>i. i < length args \<Longrightarrow> memory_store.argument (start_place ts s g) E context
        (\<lambda>w. books (env_database E) T (w_view w)) addressed (args ! i)"
    and "\<And>t. args ! 0 = Atom t \<Longrightarrow> named (env_contract_identifier E, t)"
    and "\<And>t. \<lbrakk>token_native f; args ! 0 = Atom t\<rbrakk> 
        \<Longrightarrow> \<exists>m. T (env_contract_identifier E, t) = Some m \<and> map_of (env_meta_ft E) t = Some m"
  shows "case execute_in_env ts memory_backing_store (asset_native_call f E args context) g of
      (Ok (v, am, evs), g') \<Rightarrow> \<exists>view. sees g' view \<and> books (env_database E) T view
    | (Err e, g') \<Rightarrow> sees g' (sqlite_get s)
    | (Panic, g') \<Rightarrow> cost_panic E"
proof -
  note g = start(1,2) [where ts = ts, OF assms(1)] start(3,4) [OF assms(1)]
  let ?P = "start_place ts s g"
  have ground: "memory_store.grounded E" using assms by (simp add: memory_store.grounded_def)
  have "memory_store.ready ?P E h" by (rule start_ready [OF assms(1) ground assms(5)])
  moreover have "memory_store.deployed ?P E" by (rule memory_store.deployedI [OF g(2) ground assms(6)])
  moreover have "memory_store.dated ?P E" by (rule memory_store.datedI [OF g(2) ground]) (use assms g(3) in simp)
  ultimately have "memory_store.wp ?P (asset_native_call f E args context)
      (outcome E (\<lambda>v w'. addressed v \<and> books (env_database E) T (w_view w'))) (open_world (sqlite_get s))"
    using assms by (intro memory_store.natives_keep_books) (auto simp: open_world_def)
  from memory_store.transaction_outcome [OF g(1) this [unfolded start_place_def]] show ?thesis
    by (fastforce split: prod.splits result.splits intro: sees_rel)
qed

theorem asset_functions_keep_books_witness:
  "case execute_in_env (\<lambda>_. []) memory_backing_store (asset_native_call MintToken sample_env
        [Atom ''t'', AtomValue (VUInt 5), AtomValue (VPrincipal (sample_user 2))] ()) (sample_context sample_store) of
      (Ok (v, am, evs), g') \<Rightarrow> \<exists>view. sees g' view \<and> books (env_database sample_env) sample_tokens view
    | (Err e, g') \<Rightarrow> sees g' (sqlite_get sample_store)
    | (Panic, g') \<Rightarrow> cost_panic sample_env"
proof -
  let ?args = "[Atom ''t'', AtomValue (VUInt 5), AtomValue (VPrincipal (sample_user 2))]"
  have E: "env_database sample_env = sample_db" "env_contract_identifier sample_env = sample_contract"
    by (simp_all add: sample_env_def)
  have "memory_store.argument P sample_env () J addressed (?args ! i)" if "i < length ?args" for i P J
  proof -
    have "i = 0 \<or> i = 1 \<or> i = 2" using that by auto
    then show ?thesis
      by (auto intro!: sample_argument sample_no_argument simp: addressed_args)
  qed
  from asset_functions_keep_books [where f = MintToken and s = sample_store and ts = "\<lambda>_. []" and args = ?args and E = sample_env and T = sample_tokens,
      OF sample_context_def _ _ _ _ _ _ _ this]
  show ?thesis
    using sample_start sample_books sample_named [OF sample_names(1)]
    by (simp add: E memory_store.grounded_def sample_tokens_def sample_env_def del: asset_native_call.simps)
qed

text \<open>C3: An STX transfer is exact: when the transaction succeeds, the sender had the amount unlocked, holds
  exactly that much less and the recipient exactly that much more, no other account changes, the liquid
  supply still is the sum of all accounts, and the transfer is what the asset map and the events report;
  otherwise the database is as it was. It never panics.\<close>

theorem stx_transfer_exact:
  fixes E :: "(sqlite_conn, 'ctx, 'l) environment" and g :: "(sqlite_conn, 'ctx) global_context"
  assumes "g = global_context_new mainnet (nest (wrapper_new s)) cost_track epoch"
    and "db_store (env_database E) = memory_backing_store" "json_round_trips (db_json (env_database E))"
    and "get_current_burnchain_block_height (env_database E) (gc_database g) = Ok h"
    and "stx_ok (sqlite_get s)" "addressable p" "addressable q"
  shows "case owned_stx_transfer ts E p q n g of
      (Ok (v, am, evs), g') \<Rightarrow> v = okay_true \<and> n \<noteq> 0 \<and> p \<noteq> q
        \<and> evs = [STXEvent (STXTransferEvent \<lparr>stxt_sender = p, stxt_recipient = q, stxt_amount = n\<rparr>)]
        \<and> tracks am [SentStx p n]
        \<and> (\<exists>view. sees g' view \<and> stx_ok view
            \<and> spendable_at (ucast h) (env_stx E view p) + unat n = spendable_at (ucast h) (env_stx E (sqlite_get s) p)
            \<and> stx_units (env_stx E view p) + unat n = stx_units (env_stx E (sqlite_get s) p)
            \<and> stx_units (env_stx E view q) = stx_units (env_stx E (sqlite_get s) q) + unat n
            \<and> (\<forall>r. addressable r \<longrightarrow> r \<noteq> p \<longrightarrow> r \<noteq> q \<longrightarrow> env_stx E view r = env_stx E (sqlite_get s) r))
    | (Err e, g') \<Rightarrow> sees g' (sqlite_get s)
    | (Panic, g') \<Rightarrow> False"
proof -
  have "memory_store.grounded E" using assms by (simp add: memory_store.grounded_def)
  then show ?thesis
  proof (cases rule: owned_transfer_result [OF assms(1) _ assms(4,5), where p = p and q = q and n = n and ts = ts])
    case (2 e g')
    then show ?thesis by simp
  next
    case (3 am g')
    then have C: "unat n \<le> spendable_at (ucast h) (env_stx E (sqlite_get s) p)" "p \<noteq> q" "n \<noteq> 0"
      "unat (amount_unlocked (env_stx E (sqlite_get s) q)) + unat n < 2 ^ 128" by simp_all
    from paid_exact [OF assms(5) C(1) assms(6,7) C(2,4)] 3 C(2,3) show ?thesis by auto
  qed
qed

theorem stx_transfer_exact_witness:
  "case owned_stx_transfer (\<lambda>_. []) sample_env (sample_user 1) (sample_user 2) 30 (sample_context sample_store) of
      (Ok (v, am, evs), g') \<Rightarrow> v = okay_true \<and> tracks am [SentStx (sample_user 1) 30]
    | (Err e, g') \<Rightarrow> sees g' (sqlite_get sample_store)
    | (Panic, g') \<Rightarrow> False"
proof -
  have E: "env_database sample_env = sample_db" by (simp add: sample_env_def)
  from stx_transfer_exact [where E = sample_env and p = "sample_user 1" and q = "sample_user 2" and n = 30 and ts = "\<lambda>_. []",
      OF sample_context_def _ _ _ booksD(1) [OF sample_books]]
  show ?thesis
    using sample_start by (auto simp: E memory_store.grounded_def split: prod.splits result.splits)
qed

text \<open>C10: An STX transfer that is covered goes through: without metering, when the sender has the (positive) amount
  unlocked and the recipient is someone else, the transaction returns \<open>(ok true)\<close>; no account can be too
  full to receive, since all units there are fit in a word.\<close>

theorem stx_transfer_goes_through:
  fixes E :: "(sqlite_conn, 'ctx, 'l) environment" and g :: "(sqlite_conn, 'ctx) global_context"
  assumes "g = global_context_new mainnet (nest (wrapper_new s)) Free epoch"
    and "db_store (env_database E) = memory_backing_store" "json_round_trips (db_json (env_database E))"
    and "get_current_burnchain_block_height (env_database E) (gc_database g) = Ok h"
    and "stx_ok (sqlite_get s)" "addressable p" "addressable q" "p \<noteq> q" "n \<noteq> 0"
    and "unat n \<le> spendable_at (ucast h) (env_stx E (sqlite_get s) p)"
  shows "\<exists>am evs g'. owned_stx_transfer ts E p q n g = (Ok (okay_true, am, evs), g')"
proof -
  have "memory_store.grounded E" using assms by (simp add: memory_store.grounded_def)
  moreover have "unat (amount_unlocked (env_stx E (sqlite_get s) q)) + unat n < 2 ^ 128"
    by (rule recipient_fits [OF assms(5,10,6-8)])
  ultimately show ?thesis
    using assms(8-10) by (cases rule: owned_transfer_result [OF assms(1) _ assms(4,5), where p = p and q = q and n = n and ts = ts]) auto
qed

theorem stx_transfer_goes_through_witness:
  "\<exists>am evs g'. owned_stx_transfer (\<lambda>_. []) sample_env (sample_user 1) (sample_user 2) 30 (sample_context sample_store)
    = (Ok (okay_true, am, evs), g')"
proof -
  have E: "env_database sample_env = sample_db" by (simp add: sample_env_def)
  have "stx_account (sqlite_get sample_store) (principal_text sample_db (sample_user 1)) = stx_balance_initial 100"
    by (rule sample_account)
  then have "unat (30 :: u128) \<le> spendable_at (ucast (7 :: u32)) (env_stx sample_env (sqlite_get sample_store) (sample_user 1))"
    by (simp add: E spendable_at_def stx_balance_initial_def stx_units_def)
  then show ?thesis
    using sample_start
    by (intro stx_transfer_goes_through [OF sample_context_def _ _ _ booksD(1) [OF sample_books]])
      (auto simp: E memory_store.grounded_def)
qed



end
