(* ===== verification/Spec2Isabelle.thy ===== *)
theory Spec2Isabelle
  imports Prelude Clarity_Data Signatures Strings Values Hex Serialization Store Rollback Merkle Radix C32 Principals Base58 Costs Events Withdrawal Hash_Maps Asset_Maps Post_Conditions Global_Context Transactions Effects Stx_Balances Token_Db Asset_Natives Ledger Native_Logic Token_Logic Ownership Solvency Asset_Transactions
begin

text \<open>
  Verification development for the stacks-subnets node.

  A subnet node executes Clarity transactions, keeps their effects in a key-value store and commits the
  withdrawals of each block to the layer-1 chain. This library models the path of a transaction and the data
  on it: values and their types, their serialization, the store with its nested transactions, the
  bookkeeping of assets, the native functions on assets, execution costs, post-conditions, receipts, and the
  tree of withdrawals. Source paths below are relative to \<open>src/\<close>.

  \<^bold>\<open>How the parts interact.\<close> \<open>process_transaction_payload\<close> (theory Transactions) runs a payload through
  a transaction connection, which opens a context of the rollback wrapper (Rollback), runs the virtual machine
  in a global context (Global_Context) and asks the post-conditions (Post_Conditions) whether the recorded
  transfers (Asset_Maps) are acceptable; it then commits or rolls back and writes a receipt (Events). Inside
  the virtual machine, the native functions on assets (Asset_Natives) charge costs (Costs), read and write
  the Clarity database (Token_Db, Stx_Balances), record transfers and emit events. The database
  stores texts under keys made from principals and contract identifiers (Principals over C32) and values in
  their serialized form (Serialization over Values and Signatures) in a backing store (Store). At the end of a
  block the events of all receipts become the withdrawal tree (Withdrawal over Merkle).

  \<^bold>\<open>Conventions.\<close> A Rust integer is a machine word of its width and the source's \<open>checked_*\<close> operations are
  options (Prelude); plain arithmetic wraps where a release build wraps. A \<open>Result\<close> is the datatype
  \<open>result\<close> with a third constructor \<open>Panic\<close> for a failed \<open>expect\<close>, an explicit \<open>panic!\<close> or an
  index out of range, so every early return and every panic is a branch. A method that mutates its receiver
  returns its result and the receiver it leaves, also when it fails (Effects has the sequencing operators).
  A \<open>BTreeMap\<close> is a sorted association list. A \<open>HashMap\<close> is an association list whose order stands for the
  unspecified iteration order. A trait object is a record of its required methods. Logging is left out.

  \<^bold>\<open>Theories, sources, and what is shown.\<close>

  \<^item> Prelude, Clarity_Data, Strings, Hash_Maps, Radix, Effects: shared vocabulary. Clarity_Data has the types
    of names, principals, type signatures, values and errors (\<open>clarity/src/vm/types\<close>,
    \<open>clarity/src/vm/errors.rs\<close>, \<open>clarity/src/vm/analysis/errors.rs\<close>). Strings has the name recognisers of
    \<open>clarity/src/vm/representations.rs\<close>.

  \<^item> Signatures (\<open>clarity/src/vm/types/signatures.rs\<close>): sizes, depths, constructors, admission, least
    supertypes. On well-formed types nothing wraps or panics, the constructors succeed exactly within the
    limits, admission is a preorder and \<open>least_supertype\<close> a least upper bound of it, except that it drops
    additional tuple fields of its second argument.

  \<^item> Values (\<open>clarity/src/vm/types/mod.rs\<close>): the constructors keep the invariant of values, \<open>type_of\<close> and
    \<open>size\<close> are exact, and a type contains the values it admits.

  \<^item> Hex, Serialization (\<open>stacks-common/src/util/hash.rs\<close>, \<open>stacks-common/src/util/retry.rs\<close>,
    \<open>clarity/src/vm/types/serialization.rs\<close>): the writers are instances of the locale \<open>byte_writer\<close>. Typed reading
    inverts writing up to 15 levels of nesting and fails from 16 on, whatever it returns belongs to the expected type,
    and the counting writer agrees with the byte writer.

  \<^item> Store, Rollback (\<open>clarity/src/vm/database/clarity_store.rs\<close>, \<open>sqlite.rs\<close>, \<open>key_value_wrapper.rs\<close>): the
    locale \<open>clarity_store\<close> is the contract of a backing store, interpreted on the in-memory store; over it the
    wrapper refines a stack of views (locale \<open>transactional_store\<close>) for every sequence of operations.

  \<^item> Merkle (\<open>stacks-common/src/util/hash.rs\<close>): building a tree ends on every input, every datum has a path that
    verifies, and a path verifies for nothing else unless two of the hashed byte strings collide.

  \<^item> C32, Base58, Principals (\<open>stacks-common/src/address\<close>, \<open>clarity/src/vm/types/mod.rs\<close>): round trips of the two
    address codecs over the locale \<open>alphabet\<close>, uniqueness of base-32 texts, agreement of the new decoder with the
    old one, and the round trip of principals.

  \<^item> Costs (\<open>clarity/src/vm/costs\<close>): charges are exact sums, and a body charged between \<open>add_memory\<close> and
    \<open>finally_drop_memory\<close> leaves the memory balance as it was, for every instance of the locale \<open>cost_tracker\<close>.

  \<^item> Events, Withdrawal (\<open>clarity/src/vm/events.rs\<close>, \<open>src/chainstate/stacks/events.rs\<close>,
    \<open>src/clarity_vm/withdrawal.rs\<close>): withdrawals get distinct keys, equal keys mean equal withdrawals, and each key has a
    verifying path in the tree of its block.

  \<^item> Asset_Maps, Global_Context (\<open>clarity/src/vm/contexts.rs\<close>): merging nested asset maps keeps exact totals.
    Running a tree of steps is atomic in the database, the asset map and the events at once.

  \<^item> Post_Conditions, Transactions (\<open>src/chainstate/stacks/db/transactions.rs\<close>, \<open>src/clarity_vm/clarity.rs\<close>,
    \<open>clarity/src/vm/clarity.rs\<close>): the check of post-conditions equals its specification on the transfers made. A
    contract call is committed exactly if the check accepts it. The withdrawals of an aborted call still enter
    the withdrawal tree, which is a defect of the code.

  \<^item> Stx_Balances, Token_Db (\<open>clarity/src/vm/database/structures.rs\<close>, \<open>clarity_db.rs\<close>): accounts, supplies,
    owners and the keys under which they are stored, which never coincide for different pieces of state.

  \<^item> Asset_Natives (\<open>clarity/src/vm/functions/assets.rs\<close> and the dispatch in \<open>functions/mod.rs\<close>): every native
    function on STX, fungible and non-fungible tokens, and the two \<open>stx_transfer\<close> entry points of
    \<open>clarity/src/vm/contexts.rs\<close>.

  \<^item> Ledger, Native_Logic, Token_Logic, Ownership, Solvency, Asset_Transactions: the verification of these natives. Ledger is
    the contract of accounts with a recorded supply. Native_Logic has a weakest-precondition rule for every
    operation a native is built from. Token_Logic interprets the ledger on fungible tokens and on STX and describes each native on
    them; Ownership does so for non-fungible tokens. Solvency shows that the ledgers do not share keys, so
    that every native keeps all books. Asset_Transactions carries this to whole transactions: supplies equal
    the sum of the holdings and stay within their caps, STX and asset transfers are exact, and a covered STX transfer goes through.

  \<^bold>\<open>Parameters.\<close> Code outside the repository, and the interpreter, are arguments of the definitions: the digests
    of the sha2 and ripemd crates, the JSON texts of \<open>serde_json\<close> (hypothesis \<open>json_round_trips\<close>: reading inverts writing),
    the header database, the evaluator of expressions (\<open>env_eval\<close>), the evaluation of cost functions (\<open>cost_env\<close>), contract analysis
    and lookup (\<open>interpreter\<close>). Theorems on natives assume of the evaluator that it leaves the contexts balanced and keeps
    the invariant in question. Theorems on stored state are for the in-memory backing store.

  \<^bold>\<open>Loops and bounds.\<close> No definition uses fuel. Loops are structural recursion or functions with a proved
    measure. The exception is \<open>merkle_rows\<close>, a partial function whose result is an option, which is shown to
    return on every input. The readers of values recurse on the depth left below the limit of 16 levels that the source itself imposes.

  \<^bold>\<open>Not modelled.\<close>

  \<^item> The lexer, the parser and the passes on the syntax tree, the type checker and the interpreter. They work on
    syntax trees and symbol tables of the whole language; values, types and natives on assets do not depend on
    how an expression is read. Native functions other than those on assets are part of the interpreter.

  \<^item> Data maps, data variables, block information and epoch versions of the Clarity database, and the reading of the cost-voting contract.

  \<^item> The MARF (the authenticated trie with its file format) and the stores on it. The modelled code reaches it only through the
    interface of backing stores.

  \<^item> Blocks, microblocks, mempool, miner, sortition and burnchain indexing, which are queries over SQLite tables;
    networking, RPC, the node's threads and its configuration, which are input and output.

  \<^item> The checks of nonces, fees and signatures of transactions, deriving addresses from public keys (secp256k1, Bitcoin
    scripts), \<open>Display\<close> and JSON forms other than those of principals, and logging.
\<close>

end
